(* ===== verification/Prelude.thy ===== *)
theory Prelude
  imports Main "HOL-Library.Char_ord" "HOL-Library.List_Lexorder" "HOL-Library.Sublist"
begin

text \<open>
  What every component shares.

  \<^item> Effects: a fallible, state-changing operation of the source is a function from the
    state to a result (\<open>Inl\<close> the thrown error, \<open>Inr\<close> the value) and the state it leaves.
    A throw keeps the writes done before it, as it does in the source. \<open>ret\<close>, \<open>throw\<close>,
    \<open>andThen\<close>, \<open>reads\<close>, \<open>update\<close>, \<open>tryE\<close> and \<open>forEach\<close> compose such operations.
  \<^item> \<open>preserves\<close> (an operation keeps a predicate of the state, on the error paths too) and
    \<open>keeps\<close> (an operation leaves a part of the state unchanged), with one rule per combinator
    in the collections \<open>pres\<close> and \<open>frame\<close>.
  \<^item> Directories: association lists from file names to contents, in the order a directory
    listing reports them.
\<close>

named_theorems pres "an operation keeps a predicate of the state"
named_theorems frame "an operation leaves a part of the state unchanged"
named_theorems eff_simps "unfolding of the effect combinators"

subsection \<open>Effects\<close>

type_synonym ('e, 's, 'a) eff = "'s \<Rightarrow> ('e + 'a) \<times> 's"

definition ret :: "'a \<Rightarrow> ('e, 's, 'a) eff" where
  "ret x s = (Inr x, s)"

definition throw :: "'e \<Rightarrow> ('e, 's, 'a) eff" where
  "throw e s = (Inl e, s)"

definition andThen :: "('e, 's, 'a) eff \<Rightarrow> ('a \<Rightarrow> ('e, 's, 'b) eff) \<Rightarrow> ('e, 's, 'b) eff" where
  "andThen m f s = (case m s of (Inl e, s') \<Rightarrow> (Inl e, s') | (Inr x, s') \<Rightarrow> f x s')"

text \<open>A read of the state that may throw and writes nothing.\<close>

definition reads :: "('s \<Rightarrow> 'e + 'a) \<Rightarrow> ('e, 's, 'a) eff" where
  "reads f s = (f s, s)"

definition update :: "('s \<Rightarrow> 's) \<Rightarrow> ('e, 's, unit) eff" where
  "update f s = (Inr (), f s)"

text \<open>A write that either throws and changes nothing, or succeeds.\<close>

definition writes :: "('s \<Rightarrow> 'e + 's) \<Rightarrow> ('e, 's, unit) eff" where
  "writes f s = (case f s of Inl e \<Rightarrow> (Inl e, s) | Inr s' \<Rightarrow> (Inr (), s'))"

text \<open>A \<open>try\<close> block: the outcome becomes a value, the state stays as the block left it.\<close>

definition tryE :: "('e, 's, 'a) eff \<Rightarrow> ('e, 's, 'e + 'a) eff" where
  "tryE m s = (case m s of (r, s') \<Rightarrow> (Inr r, s'))"

definition ofSum :: "'e + 'a \<Rightarrow> ('e, 's, 'a) eff" where
  "ofSum r s = (r, s)"

fun forEach :: "'a list \<Rightarrow> ('a \<Rightarrow> ('e, 's, unit) eff) \<Rightarrow> ('e, 's, unit) eff" where
  "forEach [] f = ret ()"
| "forEach (x # xs) f = andThen (f x) (\<lambda>_. forEach xs f)"

text \<open>A loop over a list that carries a value along.\<close>

fun foldE :: "('a \<Rightarrow> 'b \<Rightarrow> ('e, 's, 'b) eff) \<Rightarrow> 'a list \<Rightarrow> 'b \<Rightarrow> ('e, 's, 'b) eff" where
  "foldE f [] b = ret b"
| "foldE f (x # xs) b = andThen (f x b) (\<lambda>b'. foldE f xs b')"

lemmas [eff_simps] = ret_def throw_def reads_def update_def writes_def tryE_def ofSum_def

lemma andThen_Inl [eff_simps]: "m s = (Inl e, s') \<Longrightarrow> andThen m f s = (Inl e, s')"
  by (simp add: andThen_def)

lemma andThen_Inr [eff_simps]: "m s = (Inr x, s') \<Longrightarrow> andThen m f s = f x s'"
  by (simp add: andThen_def)

lemma andThen_ret [simp]: "andThen (ret x) f = f x"
  by (simp add: andThen_def ret_def fun_eq_iff)

lemma andThen_throw [simp]: "andThen (throw e) f = throw e"
  by (simp add: andThen_def throw_def fun_eq_iff)

lemma andThen_reads: "andThen (reads f) g s = (case f s of Inl e \<Rightarrow> (Inl e, s) | Inr x \<Rightarrow> g x s)"
  by (simp add: andThen_def reads_def)

lemma andThen_writes:
  "andThen (writes f) g s = (case f s of Inl e \<Rightarrow> (Inl e, s) | Inr s' \<Rightarrow> g () s')"
  by (simp add: andThen_def writes_def split: sum.splits)

lemma andThen_update: "andThen (update f) g s = g () (f s)"
  by (simp add: andThen_def update_def)

lemma andThen_ofSum: "andThen (ofSum r) g s = (case r of Inl e \<Rightarrow> (Inl e, s) | Inr x \<Rightarrow> g x s)"
  by (simp add: andThen_def ofSum_def)

lemma andThen_tryE: "andThen (tryE m) g s = (case m s of (r, s') \<Rightarrow> g r s')"
  by (simp add: andThen_def tryE_def split: prod.splits)

lemma andThen_assoc: "andThen (andThen m f) g = andThen m (\<lambda>x. andThen (f x) g)"
  by (simp add: andThen_def fun_eq_iff split: prod.splits sum.splits)

lemmas andThen_simps = andThen_reads andThen_writes andThen_update andThen_ofSum andThen_tryE

lemma andThen_okE:
  assumes "andThen m f s = (Inr y, s')"
  obtains x t where "m s = (Inr x, t)" "f x t = (Inr y, s')"
  using assms by (auto simp: andThen_def split: prod.splits sum.splits)

lemma andThen_errE:
  assumes "andThen m f s = (Inl e, s')"
  obtains "m s = (Inl e, s')" | x t where "m s = (Inr x, t)" "f x t = (Inl e, s')"
  using assms by (auto simp: andThen_def split: prod.splits sum.splits)

subsection \<open>Predicates an operation keeps\<close>

definition preserves :: "('s \<Rightarrow> bool) \<Rightarrow> ('e, 's, 'a) eff \<Rightarrow> bool" where
  "preserves P m \<longleftrightarrow> (\<forall>s. P s \<longrightarrow> P (snd (m s)))"

definition keeps :: "('s \<Rightarrow> 'c) \<Rightarrow> ('e, 's, 'a) eff \<Rightarrow> bool" where
  "keeps f m \<longleftrightarrow> (\<forall>s. f (snd (m s)) = f s)"

lemma preservesI: "(\<And>s. P s \<Longrightarrow> P (snd (m s))) \<Longrightarrow> preserves P m"
  by (simp add: preserves_def)

lemma preservesD: "preserves P m \<Longrightarrow> P s \<Longrightarrow> m s = (r, s') \<Longrightarrow> P s'"
  by (metis preserves_def snd_conv)

lemma keepsI: "(\<And>s. f (snd (m s)) = f s) \<Longrightarrow> keeps f m"
  by (simp add: keeps_def)

lemma keepsD: "keeps f m \<Longrightarrow> m s = (r, s') \<Longrightarrow> f s' = f s"
  by (metis keeps_def snd_conv)

lemma pres_ret [pres]: "preserves P (ret x)"
  by (simp add: preserves_def ret_def)

lemma pres_throw [pres]: "preserves P (throw e)"
  by (simp add: preserves_def throw_def)

lemma pres_reads [pres]: "preserves P (reads f)"
  by (simp add: preserves_def reads_def)

lemma pres_ofSum [pres]: "preserves P (ofSum r)"
  by (simp add: preserves_def ofSum_def)

lemma pres_andThen [pres]:
  "preserves P m \<Longrightarrow> (\<And>x. preserves P (f x)) \<Longrightarrow> preserves P (andThen m f)"
  by (fastforce simp: preserves_def andThen_def split: prod.split sum.split dest: spec)

lemma pres_tryE [pres]: "preserves P m \<Longrightarrow> preserves P (tryE m)"
  by (simp add: preserves_def tryE_def split_beta)

lemma pres_if [pres]: "preserves P m \<Longrightarrow> preserves P n \<Longrightarrow> preserves P (if b then m else n)"
  by simp

lemma pres_option [pres]:
  "preserves P m \<Longrightarrow> (\<And>x. preserves P (f x)) \<Longrightarrow>
   preserves P (case a of None \<Rightarrow> m | Some x \<Rightarrow> f x)"
  by (simp split: option.splits)

lemma pres_sum [pres]:
  "(\<And>x. preserves P (f x)) \<Longrightarrow> (\<And>x. preserves P (g x)) \<Longrightarrow>
   preserves P (case a of Inl x \<Rightarrow> f x | Inr x \<Rightarrow> g x)"
  by (simp split: sum.splits)

lemma pres_prod [pres]: "(\<And>a b. preserves P (f a b)) \<Longrightarrow> preserves P (case x of (a, b) \<Rightarrow> f a b)"
  by (simp split: prod.split)

lemma pres_list [pres]:
  "preserves P m \<Longrightarrow> (\<And>x xs. preserves P (f x xs)) \<Longrightarrow>
   preserves P (case l of [] \<Rightarrow> m | x # xs \<Rightarrow> f x xs)"
  by (simp split: list.split)

lemma pres_Let [pres]: "(\<And>x. preserves P (f x)) \<Longrightarrow> preserves P (Let a f)"
  by (simp add: Let_def)

lemma pres_update [pres]: "(\<And>s. P s \<Longrightarrow> P (f s)) \<Longrightarrow> preserves P (update f)"
  by (simp add: preserves_def update_def)

lemma pres_forEach [pres]: "(\<And>x. preserves P (f x)) \<Longrightarrow> preserves P (forEach xs f)"
  by (induction xs) (auto intro: pres_ret pres_andThen)

lemma pres_foldE [pres]: "(\<And>x b. preserves P (f x b)) \<Longrightarrow> preserves P (foldE f xs b)"
  by (induction xs arbitrary: b) (auto intro: pres_ret pres_andThen)

lemma keeps_preserves: "keeps f m \<longleftrightarrow> (\<forall>v. preserves (\<lambda>s. f s = v) m)"
  by (auto simp: keeps_def preserves_def)

lemma keeps_ret [frame]: "keeps f (ret x)"
  by (simp add: keeps_def ret_def)

lemma keeps_throw [frame]: "keeps f (throw e)"
  by (simp add: keeps_def throw_def)

lemma keeps_reads [frame]: "keeps f (reads g)"
  by (simp add: keeps_def reads_def)

lemma keeps_ofSum [frame]: "keeps f (ofSum r)"
  by (simp add: keeps_def ofSum_def)

lemma keeps_andThen [frame]: "keeps f m \<Longrightarrow> (\<And>x. keeps f (g x)) \<Longrightarrow> keeps f (andThen m g)"
  by (simp add: keeps_preserves pres_andThen)

lemma keeps_tryE [frame]: "keeps f m \<Longrightarrow> keeps f (tryE m)"
  by (simp add: keeps_preserves pres_tryE)

lemma keeps_if [frame]: "keeps f m \<Longrightarrow> keeps f n \<Longrightarrow> keeps f (if b then m else n)"
  by simp

lemma keeps_option [frame]:
  "keeps f m \<Longrightarrow> (\<And>x. keeps f (g x)) \<Longrightarrow> keeps f (case a of None \<Rightarrow> m | Some x \<Rightarrow> g x)"
  by (simp split: option.splits)

lemma keeps_sum [frame]:
  "(\<And>x. keeps f (g x)) \<Longrightarrow> (\<And>x. keeps f (h x)) \<Longrightarrow>
   keeps f (case a of Inl x \<Rightarrow> g x | Inr x \<Rightarrow> h x)"
  by (simp split: sum.splits)

lemma keeps_prod [frame]: "(\<And>a b. keeps f (g a b)) \<Longrightarrow> keeps f (case x of (a, b) \<Rightarrow> g a b)"
  by (simp split: prod.split)

lemma keeps_Let [frame]: "(\<And>x. keeps f (g x)) \<Longrightarrow> keeps f (Let a g)"
  by (simp add: Let_def)

lemma keeps_list [frame]:
  "keeps f m \<Longrightarrow> (\<And>x xs. keeps f (g x xs)) \<Longrightarrow> keeps f (case l of [] \<Rightarrow> m | x # xs \<Rightarrow> g x xs)"
  by (simp split: list.split)

lemma keeps_update [frame]: "(\<And>s. f (g s) = f s) \<Longrightarrow> keeps f (update g)"
  by (simp add: keeps_def update_def)

lemma keeps_writes: "(\<And>s s'. g s = Inr s' \<Longrightarrow> f s' = f s) \<Longrightarrow> keeps f (writes g)"
  by (simp add: keeps_def writes_def split: sum.splits)

lemma keeps_forEach [frame]: "(\<And>x. keeps f (g x)) \<Longrightarrow> keeps f (forEach xs g)"
  by (induction xs) (auto intro: keeps_ret keeps_andThen)

lemma keeps_foldE [frame]: "(\<And>x b. keeps f (g x b)) \<Longrightarrow> keeps f (foldE g xs b)"
  by (induction xs arbitrary: b) (auto intro: keeps_ret keeps_andThen)

subsection \<open>Directories\<close>

type_synonym ('k, 'v) dir = "('k \<times> 'v) list"

definition dget :: "('k, 'v) dir \<Rightarrow> 'k \<Rightarrow> 'v option" where
  "dget d k = map_of d k"

text \<open>Creating an entry adds it to the listing; replacing one keeps its place.\<close>

fun dput :: "'k \<Rightarrow> 'v \<Rightarrow> ('k, 'v) dir \<Rightarrow> ('k, 'v) dir" where
  "dput k v [] = [(k, v)]"
| "dput k v ((a, b) # d) = (if k = a then (k, v) # d else (a, b) # dput k v d)"

definition ddel :: "'k \<Rightarrow> ('k, 'v) dir \<Rightarrow> ('k, 'v) dir" where
  "ddel k d = filter (\<lambda>e. fst e \<noteq> k) d"

definition dir_wf :: "('k, 'v) dir \<Rightarrow> bool" where
  "dir_wf d \<longleftrightarrow> distinct (map fst d)"

lemma dget_Nil [simp]: "dget [] k = None"
  by (simp add: dget_def)

lemma dget_Cons: "dget ((a, b) # d) k = (if k = a then Some b else dget d k)"
  by (simp add: dget_def)

lemma dget_dput: "dget (dput k v d) j = (if j = k then Some v else dget d j)"
  by (induction k v d rule: dput.induct) (auto simp: dget_Cons)

lemma dget_dput_same [simp]: "dget (dput k v d) k = Some v"
  by (simp add: dget_dput)

lemma dget_dput_other [simp]: "j \<noteq> k \<Longrightarrow> dget (dput k v d) j = dget d j"
  by (simp add: dget_dput)

lemma dget_ddel: "dget (ddel k d) j = (if j = k then None else dget d j)"
  by (induction d) (auto simp: ddel_def dget_def)

lemma dget_ddel_same [simp]: "dget (ddel k d) k = None"
  by (simp add: dget_ddel)

lemma dget_ddel_other [simp]: "j \<noteq> k \<Longrightarrow> dget (ddel k d) j = dget d j"
  by (simp add: dget_ddel)

lemma fst_set_dput: "fst ` set (dput k v d) = insert k (fst ` set d)"
  by (induction k v d rule: dput.induct) auto

lemma set_dput_subset: "set (dput k v d) \<subseteq> insert (k, v) (set d)"
  by (induction k v d rule: dput.induct) auto

lemma set_ddel: "set (ddel k d) = {e \<in> set d. fst e \<noteq> k}"
  by (auto simp: ddel_def)

lemma dput_absent: "k \<notin> fst ` set d \<Longrightarrow> dput k v d = d @ [(k, v)]"
  by (induction k v d rule: dput.induct) auto

lemma ddel_absent: "k \<notin> fst ` set d \<Longrightarrow> ddel k d = d"
  by (induction d) (auto simp: ddel_def)

lemma dir_wf_Nil [simp]: "dir_wf []"
  by (simp add: dir_wf_def)

lemma dir_wf_dput [simp]: "dir_wf d \<Longrightarrow> dir_wf (dput k v d)"
proof (induction k v d rule: dput.induct)
  case (1 k v)
  show ?case by (simp add: dir_wf_def)
next
  case (2 k v a b d)
  have "fst ` set (dput k v d) = insert k (fst ` set d)" by (rule fst_set_dput)
  with 2 show ?case by (auto simp: dir_wf_def)
qed

lemma dir_wf_ddel [simp]: "dir_wf d \<Longrightarrow> dir_wf (ddel k d)"
  by (simp add: dir_wf_def ddel_def distinct_map_filter)

lemma dget_Some_in_set: "dget d k = Some v \<Longrightarrow> (k, v) \<in> set d"
  by (simp add: dget_def map_of_SomeD)

lemma dget_in_set_iff: "dir_wf d \<Longrightarrow> dget d k = Some v \<longleftrightarrow> (k, v) \<in> set d"
  by (simp add: dget_def dir_wf_def map_of_eq_Some_iff)

lemma dget_None_iff: "dget d k = None \<longleftrightarrow> k \<notin> fst ` set d"
  by (simp add: dget_def map_of_eq_None_iff)

lemma set_dput_wf:
  "dir_wf d \<Longrightarrow> set (dput k v d) = insert (k, v) {e \<in> set d. fst e \<noteq> k}"
proof (induction k v d rule: dput.induct)
  case (1 k v)
  show ?case by simp
next
  case (2 k v a b d)
  then show ?case by (auto simp: dir_wf_def)
qed

subsection \<open>Lists of results\<close>

text \<open>\<open>Array.prototype.map\<close> with a callback that may throw: the first throw ends it.\<close>

fun mapE :: "('a \<Rightarrow> 'e + 'b) \<Rightarrow> 'a list \<Rightarrow> 'e + 'b list" where
  "mapE f [] = Inr []"
| "mapE f (x # xs) =
     (case f x of Inl e \<Rightarrow> Inl e
      | Inr y \<Rightarrow> (case mapE f xs of Inl e \<Rightarrow> Inl e | Inr ys \<Rightarrow> Inr (y # ys)))"

lemma mapE_Inr_iff: "mapE f xs = Inr ys \<longleftrightarrow> map f xs = map Inr ys"
proof (induction xs arbitrary: ys)
  case Nil
  show ?case by auto
next
  case (Cons x xs)
  then show ?case by (cases ys; cases "f x"; cases "mapE f xs") auto
qed

lemma mapE_Inr_set: "mapE f xs = Inr ys \<Longrightarrow> y \<in> set ys \<longleftrightarrow> (\<exists>x\<in>set xs. f x = Inr y)"
  by (induction xs arbitrary: ys) (auto split: sum.splits)

lemma mapE_total: "(\<And>x. x \<in> set xs \<Longrightarrow> f x = Inr (g x)) \<Longrightarrow> mapE f xs = Inr (map g xs)"
  by (induction xs) auto

lemma mapE_Inl_iff: "(\<exists>e. mapE f xs = Inl e) \<longleftrightarrow> (\<exists>x\<in>set xs. \<exists>e. f x = Inl e)"
proof (induction xs)
  case Nil
  show ?case by simp
next
  case (Cons x xs)
  then show ?case by (cases "f x"; cases "mapE f xs") auto
qed

definition or_else :: "'a option \<Rightarrow> 'a option \<Rightarrow> 'a option" where
  "or_else a b = (case a of None \<Rightarrow> b | Some x \<Rightarrow> Some x)"

definition defaultTo :: "'a option \<Rightarrow> 'a \<Rightarrow> 'a" where
  "defaultTo a d = (case a of None \<Rightarrow> d | Some x \<Rightarrow> x)"

lemma defaultTo_simps [simp]: "defaultTo None d = d" "defaultTo (Some x) d = x"
  by (simp_all add: defaultTo_def)

lemma or_else_simps [simp]: "or_else None b = b" "or_else (Some x) b = Some x"
  by (simp_all add: or_else_def)

lemma find_Some_set: "find P xs = Some x \<Longrightarrow> x \<in> set xs \<and> P x"
  by (induction xs) (auto split: if_splits)

lemma find_None_all: "find P xs = None \<longleftrightarrow> (\<forall>x\<in>set xs. \<not> P x)"
  by (auto simp: find_None_iff)

subsection \<open>Transition systems\<close>

text \<open>The states a system can reach, and the contract that gives an invariant of all of them.\<close>

inductive reach :: "('s \<Rightarrow> bool) \<Rightarrow> ('s \<Rightarrow> 's \<Rightarrow> bool) \<Rightarrow> 's \<Rightarrow> bool" for init step where
  reach_init: "init s \<Longrightarrow> reach init step s"
| reach_step: "reach init step s \<Longrightarrow> step s t \<Longrightarrow> reach init step t"

locale invariant_system =
  fixes init :: "'s \<Rightarrow> bool"
    and step :: "'s \<Rightarrow> 's \<Rightarrow> bool"
    and inv :: "'s \<Rightarrow> bool"
  assumes inv_init: "init s \<Longrightarrow> inv s"
    and inv_step: "inv s \<Longrightarrow> step s t \<Longrightarrow> inv t"
begin

lemma reach_inv: "reach init step s \<Longrightarrow> inv s"
  by (induction rule: reach.induct) (auto intro: inv_init inv_step)

end

end
