(* ===== verification/JsText.thy ===== *)
theory JsText
  imports Prelude
begin

text \<open>
  The part of JavaScript's string and POSIX path library the program uses, on \<open>string\<close>:
  \<open>startsWith\<close>, \<open>endsWith\<close>, \<open>includes\<close>, \<open>split\<close>, \<open>join\<close>, \<open>trim\<close>, \<open>toLowerCase\<close>, decimal
  numerals, and \<open>node:path\<close>'s \<open>resolve\<close>, \<open>join\<close>, \<open>dirname\<close>, \<open>basename\<close>. Characters are
  bytes; every separator, letter and digit the program looks at is ASCII. Terminal screens,
  which the program scans for other characters, are \<open>ustr\<close>: lists of UTF-16 code units.
\<close>

subsection \<open>Substrings\<close>

definition starts_with :: "'a list \<Rightarrow> 'a list \<Rightarrow> bool" where
  "starts_with s p \<longleftrightarrow> take (length p) s = p"

definition ends_with :: "'a list \<Rightarrow> 'a list \<Rightarrow> bool" where
  "ends_with s p \<longleftrightarrow> starts_with (rev s) (rev p)"

fun contains :: "'a list \<Rightarrow> 'a list \<Rightarrow> bool" where
  "contains [] p \<longleftrightarrow> p = []"
| "contains (c # s) p \<longleftrightarrow> starts_with (c # s) p \<or> contains s p"

lemma starts_with_prefix: "starts_with s p \<longleftrightarrow> prefix p s"
  by (metis append_eq_conv_conj append_take_drop_id prefix_def starts_with_def)

lemma ends_with_suffix: "ends_with s p \<longleftrightarrow> suffix p s"
  by (simp add: ends_with_def starts_with_prefix suffix_to_prefix)

lemma includes_sublist: "contains s p \<longleftrightarrow> sublist p s"
  by (induction s) (auto simp: starts_with_prefix sublist_Cons_right)

lemma ends_with_append [simp]: "ends_with (s @ p) p"
  by (simp add: ends_with_suffix suffix_def)

fun split_on :: "'a \<Rightarrow> 'a list \<Rightarrow> 'a list list" where
  "split_on c [] = [[]]"
| "split_on c (x # xs) =
     (if x = c then [] # split_on c xs
      else (case split_on c xs of [] \<Rightarrow> [[x]] | w # ws \<Rightarrow> (x # w) # ws))"

fun join_with :: "'a list \<Rightarrow> 'a list list \<Rightarrow> 'a list" where
  "join_with sep [] = []"
| "join_with sep [w] = w"
| "join_with sep (w # v # ws) = w @ sep @ join_with sep (v # ws)"

lemma split_on_nonempty [simp]: "split_on c s \<noteq> []"
  by (induction s) (auto split: list.splits)

lemma join_with_Cons: "ws \<noteq> [] \<Longrightarrow> join_with sep (w # ws) = w @ sep @ join_with sep ws"
  by (cases ws) auto

lemma join_with_Cons_head: "join_with sep ((x # w) # ws) = x # join_with sep (w # ws)"
  by (cases ws) auto

lemma join_split: "join_with [c] (split_on c s) = s"
  by (induction s) (auto simp: join_with_Cons join_with_Cons_head split: list.splits)

lemma split_on_no_sep: "c \<notin> set s \<Longrightarrow> split_on c s = [s]"
  by (induction s) auto

lemma split_on_append_sep: "c \<notin> set w \<Longrightarrow> split_on c (w @ c # s) = w # split_on c s"
  by (induction w) auto

lemma split_join:
  "ws \<noteq> [] \<Longrightarrow> (\<And>w. w \<in> set ws \<Longrightarrow> c \<notin> set w) \<Longrightarrow> split_on c (join_with [c] ws) = ws"
proof (induction "[c]" ws rule: join_with.induct)
  case 1
  then show ?case by simp
next
  case (2 w)
  then show ?case by (simp add: split_on_no_sep)
next
  case (3 w v ws)
  then show ?case by (simp add: split_on_append_sep)
qed

lemma split_on_parts: "w \<in> set (split_on c s) \<Longrightarrow> c \<notin> set w"
  by (induction s arbitrary: w) (auto split: if_splits list.splits)

subsection \<open>Whitespace and letters\<close>

definition is_space :: "char \<Rightarrow> bool" where
  "is_space c \<longleftrightarrow> of_char c \<in> {9, 10, 11, 12, 13, 32 :: nat}"

definition trim_start :: "string \<Rightarrow> string" where
  "trim_start s = dropWhile is_space s"

definition trim_end :: "string \<Rightarrow> string" where
  "trim_end s = rev (dropWhile is_space (rev s))"

definition trim :: "string \<Rightarrow> string" where
  "trim s = trim_end (trim_start s)"

definition nl :: string where
  "nl = [CHR 0x0A]"

definition to_lower_char :: "char \<Rightarrow> char" where
  "to_lower_char c =
     (let n = of_char c :: nat in if 65 \<le> n \<and> n \<le> 90 then char_of (n + 32) else c)"

definition is_digit :: "char \<Rightarrow> bool" where
  "is_digit c \<longleftrightarrow> (48 :: nat) \<le> of_char c \<and> of_char c \<le> (57 :: nat)"

definition is_lower :: "char \<Rightarrow> bool" where
  "is_lower c \<longleftrightarrow> (97 :: nat) \<le> of_char c \<and> of_char c \<le> (122 :: nat)"

definition is_upper :: "char \<Rightarrow> bool" where
  "is_upper c \<longleftrightarrow> (65 :: nat) \<le> of_char c \<and> of_char c \<le> (90 :: nat)"

definition is_alnum :: "char \<Rightarrow> bool" where
  "is_alnum c \<longleftrightarrow> is_digit c \<or> is_lower c \<or> is_upper c"

subsection \<open>Decimal numerals\<close>

definition digit_char :: "nat \<Rightarrow> char" where
  "digit_char d = char_of (48 + d)"

fun nat_str :: "nat \<Rightarrow> string" where
  "nat_str n = (if n < 10 then [digit_char n] else nat_str (n div 10) @ [digit_char (n mod 10)])"

declare nat_str.simps [simp del]

definition str_nat :: "string \<Rightarrow> nat" where
  "str_nat s = foldl (\<lambda>n c. 10 * n + (of_char c - 48)) 0 s"

lemma of_char_digit: "d < 10 \<Longrightarrow> (of_char (digit_char d) :: nat) = 48 + d"
  by (simp add: digit_char_def of_char_of)

lemma str_nat_nat_str: "str_nat (nat_str n) = n"
proof (induction n rule: nat_str.induct)
  case (1 n)
  show ?case
  proof (cases "n < 10")
    case True
    then show ?thesis by (simp add: nat_str.simps [of n] str_nat_def of_char_digit)
  next
    case False
    then have "str_nat (nat_str (n div 10)) = n div 10" using 1 by blast
    with False show ?thesis
      by (simp add: nat_str.simps [of n] str_nat_def of_char_digit)
  qed
qed

lemma nat_str_inject [simp]: "nat_str a = nat_str b \<longleftrightarrow> a = b"
  by (metis str_nat_nat_str)

lemma nat_str_digits: "c \<in> set (nat_str n) \<Longrightarrow> is_digit c"
proof (induction n rule: nat_str.induct)
  case (1 n)
  have d: "is_digit (digit_char (m :: nat))" if "m < 10" for m
    using that by (simp add: is_digit_def of_char_digit)
  show ?case
  proof (cases "n < 10")
    case True
    with 1 d [of n] show ?thesis by (simp add: nat_str.simps [of n])
  next
    case False
    with 1 d [of "n mod 10"] show ?thesis by (auto simp: nat_str.simps [of n])
  qed
qed

lemma nat_str_nonempty [simp]: "nat_str n \<noteq> []"
  by (simp add: nat_str.simps [of n])

subsection \<open>POSIX paths\<close>

definition slash :: char where
  "slash = CHR ''/''"

definition is_absolute :: "string \<Rightarrow> bool" where
  "is_absolute p \<longleftrightarrow> starts_with p ''/''"

text \<open>Segments are kept in reverse while they are normalised.\<close>

fun norm_segs :: "string list \<Rightarrow> string list \<Rightarrow> string list" where
  "norm_segs acc [] = rev acc"
| "norm_segs acc (w # ws) =
     (if w = [] \<or> w = ''.'' then norm_segs acc ws
      else if w = ''..'' then norm_segs (tl acc) ws
      else norm_segs (w # acc) ws)"

definition path_segs :: "string \<Rightarrow> string list" where
  "path_segs p = norm_segs [] (split_on slash p)"

definition path_of :: "string list \<Rightarrow> string" where
  "path_of ws = slash # join_with [slash] ws"

text \<open>\<open>path.resolve(p)\<close> for a process whose working directory is \<open>cwd\<close>.\<close>

definition resolve_path :: "string \<Rightarrow> string \<Rightarrow> string" where
  "resolve_path cwd p =
     path_of (path_segs (if is_absolute p then p else cwd @ ''/'' @ p))"

definition path_join :: "string \<Rightarrow> string list \<Rightarrow> string" where
  "path_join root ws = join_with ''/'' (root # ws)"

definition basename :: "string \<Rightarrow> string" where
  "basename p = (let ws = filter (\<lambda>w. w \<noteq> []) (split_on slash p) in if ws = [] then [] else last ws)"

definition dirname :: "string \<Rightarrow> string" where
  "dirname p = (let ws = filter (\<lambda>w. w \<noteq> []) (split_on slash p) in
     if is_absolute p then path_of (butlast ws)
     else if length ws \<le> 1 then ''.'' else join_with ''/'' (butlast ws))"

definition normal_segs :: "string list \<Rightarrow> bool" where
  "normal_segs ws \<longleftrightarrow> (\<forall>w\<in>set ws. w \<noteq> [] \<and> w \<noteq> ''.'' \<and> w \<noteq> ''..'' \<and> slash \<notin> set w)"

lemma norm_segs_normal:
  "normal_segs acc \<Longrightarrow> (\<And>w. w \<in> set ws \<Longrightarrow> slash \<notin> set w) \<Longrightarrow> normal_segs (norm_segs acc ws)"
proof (induction acc ws rule: norm_segs.induct)
  case (1 acc)
  then show ?case by (simp add: normal_segs_def)
next
  case (2 acc w ws)
  have "normal_segs (tl acc)" using "2.prems"(1) by (cases acc) (auto simp: normal_segs_def)
  moreover have "\<And>v. v \<in> set ws \<Longrightarrow> slash \<notin> set v" using "2.prems"(2) by simp
  moreover have "normal_segs (w # acc)" if "w \<noteq> []" "w \<noteq> ''.''" "w \<noteq> ''..''"
    using that "2.prems" by (simp add: normal_segs_def)
  ultimately show ?case using "2.IH" "2.prems"(1) by (cases "w = [] \<or> w = ''.''"; cases "w = ''..''") auto
qed

lemma norm_segs_id: "normal_segs ws \<Longrightarrow> norm_segs acc ws = rev acc @ ws"
proof (induction ws arbitrary: acc)
  case Nil
  show ?case by simp
next
  case (Cons w ws)
  then have "normal_segs ws" and "w \<noteq> []" "w \<noteq> ''.''" "w \<noteq> ''..''"
    by (simp_all add: normal_segs_def)
  with Cons.IH show ?case by simp
qed

lemma path_segs_normal: "normal_segs (path_segs p)"
  unfolding path_segs_def
  by (rule norm_segs_normal) (auto simp: normal_segs_def dest: split_on_parts)

lemma path_segs_path_of: "normal_segs ws \<Longrightarrow> path_segs (path_of ws) = ws"
proof -
  assume n: "normal_segs ws"
  show ?thesis
  proof (cases "ws = []")
    case True
    then show ?thesis by (simp add: path_segs_def path_of_def)
  next
    case False
    then have "split_on slash (join_with [slash] ws) = ws"
      using n by (intro split_join) (auto simp: normal_segs_def)
    with n show ?thesis by (simp add: path_segs_def path_of_def norm_segs_id)
  qed
qed

lemma is_absolute_path_of [simp]: "is_absolute (path_of ws)"
  by (simp add: is_absolute_def path_of_def starts_with_def slash_def)

lemma resolve_path_absolute [simp]: "is_absolute (resolve_path cwd p)"
  by (simp add: resolve_path_def)

lemma resolve_path_idem [simp]: "resolve_path cwd (resolve_path d p) = resolve_path d p"
proof -
  have "resolve_path d p = path_of (path_segs (if is_absolute p then p else d @ ''/'' @ p))"
    by (simp add: resolve_path_def)
  then obtain ws where e: "resolve_path d p = path_of ws" and n: "normal_segs ws"
    using path_segs_normal by blast
  have "resolve_path cwd (path_of ws) = path_of (path_segs (path_of ws))"
    by (simp add: resolve_path_def)
  with e n show ?thesis by (simp add: path_segs_path_of)
qed

subsection \<open>Optional strings\<close>

text \<open>JavaScript's truthiness of a string: absent and empty count as false.\<close>

definition truthy :: "'a list option \<Rightarrow> 'a list option" where
  "truthy s = (case s of Some [] \<Rightarrow> None | _ \<Rightarrow> s)"

lemma truthy_simps [simp]: "truthy None = None" "truthy (Some []) = None" "truthy (Some (x # xs)) = Some (x # xs)"
  by (simp_all add: truthy_def)

lemma truthy_Some: "truthy s = Some t \<longleftrightarrow> s = Some t \<and> t \<noteq> []"
  by (auto simp: truthy_def split: option.splits list.splits)

subsection \<open>Text of a terminal screen\<close>

type_synonym ustr = "nat list"

definition ustr_of :: "string \<Rightarrow> ustr" where
  "ustr_of s = map of_char s"

text \<open>What \<open>\\s\<close> and \<open>trim\<close> count as white space, as UTF-16 code units.\<close>

definition uspace :: "nat \<Rightarrow> bool" where
  "uspace n \<longleftrightarrow> (9 \<le> n \<and> n \<le> 13) \<or> n = 32 \<or> n = 160 \<or> n = 5760 \<or> (8192 \<le> n \<and> n \<le> 8202) \<or>
     n = 8232 \<or> n = 8233 \<or> n = 8239 \<or> n = 8287 \<or> n = 12288 \<or> n = 65279"

definition utrim_end :: "ustr \<Rightarrow> ustr" where
  "utrim_end s = rev (dropWhile uspace (rev s))"

definition utrim :: "ustr \<Rightarrow> ustr" where
  "utrim s = utrim_end (dropWhile uspace s)"

text \<open>\<open>replace(/\\s+/g, ' ')\<close> and \<open>replace(/\\s+/g, '')\<close>.\<close>

fun collapse :: "ustr \<Rightarrow> ustr" where
  "collapse [] = []"
| "collapse (c # s) =
     (if uspace c then (case s of [] \<Rightarrow> [32] | d # _ \<Rightarrow> if uspace d then collapse s else 32 # collapse s)
      else c # collapse s)"

definition squeeze :: "ustr \<Rightarrow> ustr" where
  "squeeze s = filter (\<lambda>c. \<not> uspace c) s"

definition urows :: "ustr \<Rightarrow> ustr list" where
  "urows s = split_on 10 s"

lemma squeeze_idem [simp]: "squeeze (squeeze s) = squeeze s"
  by (simp add: squeeze_def)

lemma squeeze_append [simp]: "squeeze (s @ t) = squeeze s @ squeeze t"
  by (simp add: squeeze_def)

end
