(* ===== verification/Types.thy ===== *)
theory Types
  imports JsText
begin

text \<open>
  The domain types of \<open>store/store.ts\<close>, the files under a hub root, and the outside world.

  Timestamps that the code keeps as ISO strings are kept as milliseconds: \<open>toISOString\<close> and
  \<open>Date.parse\<close> are inverse and order-preserving on them. A field that may be absent is an
  \<open>option\<close>; \<open>null\<close> and absent are read alike everywhere in the source and are both \<open>None\<close>.
\<close>

subsection \<open>Errors\<close>

text \<open>One constructor per \<open>throw\<close> of the source, grouped by the component that throws it.\<close>

datatype store_error =
    InvalidId string string
  | CorruptRecord string
  | LockTimeout string
  | Errno string
  | NotUnread string
  | NotInInbox string

datatype ident_error =
    UnknownHarness string
  | NoHarness
  | AmbiguousHandle string "string list"
  | OnlyExited string "string list"
  | Unaddressable string
  | NoStandingOwner string
  | AmbiguousEndpoint string "string list"
  | NoMultiplexer
  | NoIdentity
  | SelectorRequired
  | NoUnitMatches
  | AmbiguousSelector "string list"

datatype service_error =
    NotARepository string
  | AmbiguousProject string "string list"
  | NoProject string
  | InvalidServiceName string
  | NoService string string
  | StaleOwnership nat
  | UnknownUnit string
  | UnitNotLive string

datatype runtime_error =
    NoRuntime string
  | SelfTarget string
  | StopNoEffect string
  | NotInLaunchMap string
  | CwdGone string
  | NoPaneToBind
  | PaneHeld string
  | MayStillRun string
  | UnstorableMultiplexer string
  | NoBackend
  | NoPane string

datatype teardown_error =
    NoUnit string
  | RefusedEndpoint string
  | RefusedPrimary string
  | DirtyWorktree string
  | UnknownRepository string

datatype spawn_error =
    NeedsHarness
  | NoBrief
  | CwdWithWorktreeFlags
  | CwdMissing string
  | FalseFriendReset string
  | UnmappedReset string
  | NoResetHarness string
  | NotInRepo string
  | NeedsPrimary
  | NoHome string
  | OwnerGone string

datatype home_error =
    HomeNotStanding
  | HomeContradiction
  | LaunchNeedsHome
  | HomeMissing string
  | HomeNeedsOneLaunch
  | HomeUnknownHarness string
  | HomeAgentUnresolved string
  | HomePrimary string

datatype console_error =
    DraftBusy string
  | DraftMultiRow string
  | NudgeGone string
  | NudgeLost string
  | NudgeStaged string
  | UnsupportedEvent string

datatype config_error =
    AgentFileMissing string
  | NoAgentName
  | NoAgentDef string
  | AgentUnknownHarness string
  | InvalidPin string
  | SettingsUnparseable string
  | SettingsNotObject string
  | SettingsMalformed string

datatype cli_error =
    NotRegistered
  | NoAgentRecord string
  | MessageNotHere string
  | NoReply string nat
  | RefAndSelector
  | NoMainPane
  | HarnessUndetected
  | AllowCliNotClaude string
  | SpawnHarnessUnresolved

datatype error =
    StoreE store_error
  | IdentE ident_error
  | ServiceE service_error
  | RuntimeE runtime_error
  | TeardownE teardown_error
  | SpawnE spawn_error
  | HomeE home_error
  | ConsoleE console_error
  | ConfigE config_error
  | CliE cli_error
  | NoBody
  | LaunchedNotOwner string error
  | RestartOpenFailed string error
  | RemovalFailed string error
  | HostError string

subsection \<open>Messages\<close>

record message =
  m_id :: string
  m_from :: string
  m_fromHandle :: string
  m_to :: string
  m_subject :: "string option"
  m_body :: string
  m_thread :: "string option"
  m_replyTo :: "string option"
  m_ts :: nat
  m_sentAt :: nat

subsection \<open>Agent records\<close>

datatype harness = Claude | Cursor | Codex

fun harness_name :: "harness \<Rightarrow> string" where
  "harness_name Claude = ''claude''"
| "harness_name Cursor = ''cursor''"
| "harness_name Codex = ''codex''"

definition parse_harness :: "string \<Rightarrow> harness option" where
  "parse_harness s =
     (if s = ''claude'' then Some Claude
      else if s = ''cursor'' then Some Cursor
      else if s = ''codex'' then Some Codex
      else None)"

lemma parse_harness_name [simp]: "parse_harness (harness_name h) = Some h"
  by (cases h) (simp_all add: parse_harness_def)

lemma parse_harness_Some: "parse_harness s = Some h \<longleftrightarrow> s = harness_name h"
  by (cases h) (auto simp: parse_harness_def)

text \<open>The open member of the status type: a retired status such as \<open>spawning\<close>.\<close>

datatype status = Active | Idle | Stale | Exited | Paused | Stopped | Other string

datatype kind = SessionKind | StandingKind | ServiceKind

datatype mux = Tmux | Herdr

fun mux_name :: "mux \<Rightarrow> string" where
  "mux_name Tmux = ''tmux''"
| "mux_name Herdr = ''herdr''"

definition parse_mux :: "string \<Rightarrow> mux option" where
  "parse_mux s = (if s = ''tmux'' then Some Tmux else if s = ''herdr'' then Some Herdr else None)"

record pane_loc =
  pn_mux :: mux
  pn_id :: string
  pn_window :: "string option"
  pn_session :: "string option"

record wt_lease =
  wl_leaseId :: string
  wl_holder :: string

record worktree =
  wt_root :: string
  wt_branch :: "string option"
  wt_primaryRoot :: "string option"
  wt_lease :: "wt_lease option"

datatype home_launch = HomeAgent string | HomeHarness harness

record standing_home =
  sh_dir :: string
  sh_launch :: home_launch

record agent =
  a_id :: string
  a_handle :: string
  a_harness :: "harness option"
  a_cwd :: string
  a_worktree :: "worktree option"
  a_pane :: "pane_loc option"
  a_status :: status
  a_createdAt :: nat
  a_lastSeen :: nat
  a_brief :: "string option"
  a_launch :: "string option"
  a_conversation :: "string option"
  a_spawnedBy :: "string option"
  a_kind :: "kind option"
  a_service :: "(string \<times> string) option"
  a_presence :: "string option"
  a_home :: "standing_home option"

subsection \<open>Projects and service leases\<close>

record project =
  p_id :: string
  p_name :: string
  p_root :: string
  p_commonDir :: string
  p_registeredAt :: nat
  p_subject :: "(string \<times> string) option"

datatype lease_state = Vacant | Reserved | Owned

record reservation =
  rs_token :: string
  rs_by :: "string option"
  rs_at :: nat
  rs_expiresAt :: nat
  rs_forced :: bool

record lease =
  l_project :: string
  l_service :: string
  l_endpoint :: string
  l_generation :: nat
  l_state :: lease_state
  l_holder :: "string option"
  l_reservation :: "reservation option"
  l_updatedAt :: nat

subsection \<open>The hub\<close>

text \<open>
  A record file holds the JSON of a record, or text that does not parse. A hub is the tree of
  files under its root: \<open>agents/<id>.json\<close>, \<open>inbox/<id>/<msg>.json\<close> and
  \<open>inbox/<id>/read/<msg>.json\<close>, \<open>data/<id>/brief.md\<close>, \<open>panes/<pane>.id\<close>, \<open>main-pane.id\<close>,
  \<open>projects/<id>.json\<close>, \<open>services/<project>/<service>.json\<close>, \<open>locks/<name>.lock/holder.json\<close> and
  the \<open>config.json\<close> marker. Directories are keyed by file name, extension included.
\<close>

datatype 'a jfile = Json 'a | Torn

record mailbox =
  mb_unread :: "(string, message jfile) dir"
  mb_read :: "(string, message jfile) dir"

record datadir =
  dd_brief :: "string option"
  dd_shim :: "string option"

record lock_holder =
  lh_pid :: nat
  lh_acquiredAt :: nat

record hub =
  h_root :: string
  h_marker :: bool
  h_agents :: "(string, agent jfile) dir"
  h_inbox :: "(string, mailbox) dir"
  h_data :: "(string, datadir) dir"
  h_panes :: "(string, string) dir"
  h_mainPane :: "string option"
  h_projects :: "(string, project jfile) dir"
  h_leases :: "(string \<times> string, lease jfile) dir"
  h_locks :: "(string, lock_holder option) dir"

definition empty_hub :: "string \<Rightarrow> hub" where
  "empty_hub r = \<lparr>h_root = r, h_marker = False, h_agents = [], h_inbox = [], h_data = [],
     h_panes = [], h_mainPane = None, h_projects = [], h_leases = [], h_locks = []\<rparr>"

subsection \<open>The outside world\<close>

text \<open>
  A world is a hub and the rest (processes, panes, git repositories, the clock), an opaque
  \<open>'x\<close>. What the program asks of the rest goes through a \<open>host\<close>: the operating system and
  the packages that are not part of this repository (\<open>cyber-mux\<close>). A host function given a
  whole world may change the hub too: other processes act while this one sleeps.
\<close>

record 'x world =
  hub :: hub
  ext :: 'x

type_synonym env = "(string \<times> string) list"

text \<open>
  A JSON value; the fields of an object are kept in their order. A settings file that is not the hub's
  is read and written as the value its text stands for (\<open>JSON.parse\<close> and \<open>JSON.stringify\<close>).
\<close>

datatype jvalue =
    JNull
  | JBool bool
  | JNum int
  | JStr string
  | JArr "jvalue list"
  | JObj "(string \<times> jvalue) list"

text \<open>A pane a multiplexer lists: its backend's name, the folder and harness it reports.\<close>

record live_pane =
  lp_mux :: string
  lp_id :: string
  lp_cwd :: "string option"
  lp_harness :: "string option"

record open_opts =
  oo_cwd :: string
  oo_launch :: string
  oo_at :: string
  oo_from :: "string option"
  oo_label :: "string option"

text \<open>\<open>cyber-mux\<close>'s \<open>MuxAdapter\<close>: queries read the outside world, the others change it.\<close>

record 'x adapter =
  ad_name :: string
  ad_listPanes :: "'x \<Rightarrow> live_pane list"
  ad_paneExists :: "string \<Rightarrow> 'x \<Rightarrow> bool"
  ad_isPaneFocused :: "string \<Rightarrow> 'x \<Rightarrow> error + bool option"
  ad_read :: "string \<Rightarrow> nat option \<Rightarrow> 'x \<Rightarrow> error + ustr option"
  ad_submit :: "string \<Rightarrow> ustr option \<Rightarrow> (error, 'x, unit) eff"
  ad_sendText :: "string \<Rightarrow> ustr \<Rightarrow> (error, 'x, unit) eff"
  ad_sendKeys :: "string \<Rightarrow> string list \<Rightarrow> (error, 'x, unit) eff"
  ad_teardown :: "string \<Rightarrow> (error, 'x, unit) eff"
  ad_focus :: "string \<Rightarrow> (error, 'x, unit) eff"
  ad_open :: "open_opts \<Rightarrow> (error, 'x, string) eff"

record 'x host =
  os_pid :: nat
  os_now :: "'x \<Rightarrow> nat"
  os_random :: "nat \<Rightarrow> 'x \<Rightarrow> string \<times> 'x"
  os_sleep :: "nat \<Rightarrow> 'x world \<Rightarrow> 'x world"
  os_kill0 :: "nat \<Rightarrow> 'x \<Rightarrow> string option"
  os_exec :: "string \<Rightarrow> string list \<Rightarrow> 'x \<Rightarrow> string option \<times> 'x"
  os_env :: env
  os_cwd :: string
  os_homedir :: string
  os_exists :: "string \<Rightarrow> 'x \<Rightarrow> bool"
  os_isDir :: "string \<Rightarrow> 'x \<Rightarrow> bool"
  os_realpath :: "string \<Rightarrow> 'x \<Rightarrow> string option"
  os_readFile :: "string \<Rightarrow> 'x \<Rightarrow> string option"
  os_sha256 :: "string \<Rightarrow> string"
  mx_currentPane :: "env \<Rightarrow> (string \<times> string) option"
  mx_callerPane :: "string \<Rightarrow> env \<Rightarrow> string option"
  mx_probe :: "env \<Rightarrow> 'x \<Rightarrow> string"
  mx_primaryRoot :: "string option \<Rightarrow> 'x \<Rightarrow> string option"
  mx_adapter :: "mux \<Rightarrow> 'x adapter"
  mx_isStaged :: "ustr option \<Rightarrow> ustr \<Rightarrow> bool"
  os_readdir :: "string \<Rightarrow> 'x \<Rightarrow> string list"
  os_stdin :: string
  ctx_self :: "string list option"
  os_writeFile :: "string \<Rightarrow> string \<Rightarrow> (error, 'x, unit) eff"
  os_readJson :: "string \<Rightarrow> 'x \<Rightarrow> jvalue jfile option"
  os_writeJson :: "string \<Rightarrow> jvalue \<Rightarrow> (error, 'x, unit) eff"

type_synonym ('x, 'a) op = "(error, 'x world, 'a) eff"

text \<open>Lifting: reads and writes of the hub, and effects on the outside world.\<close>

definition hubRead :: "(hub \<Rightarrow> error + 'a) \<Rightarrow> ('x, 'a) op" where
  "hubRead f = reads (\<lambda>w. f (hub w))"

definition hubGet :: "(hub \<Rightarrow> 'a) \<Rightarrow> ('x, 'a) op" where
  "hubGet f = reads (\<lambda>w. Inr (f (hub w)))"

definition hubWrite :: "(hub \<Rightarrow> error + hub) \<Rightarrow> ('x, unit) op" where
  "hubWrite f = writes (\<lambda>w. case f (hub w) of Inl e \<Rightarrow> Inl e | Inr h \<Rightarrow> Inr (w\<lparr>hub := h\<rparr>))"

definition hubSet :: "(hub \<Rightarrow> hub) \<Rightarrow> ('x, unit) op" where
  "hubSet f = update (\<lambda>w. w\<lparr>hub := f (hub w)\<rparr>)"

text \<open>A write of the hub that also returns a value.\<close>

definition hubStep :: "(hub \<Rightarrow> error + 'a \<times> hub) \<Rightarrow> ('x, 'a) op" where
  "hubStep f w = (case f (hub w) of Inl e \<Rightarrow> (Inl e, w) | Inr (x, h) \<Rightarrow> (Inr x, w\<lparr>hub := h\<rparr>))"

definition extGet :: "('x \<Rightarrow> 'a) \<Rightarrow> ('x, 'a) op" where
  "extGet f = reads (\<lambda>w. Inr (f (ext w)))"

definition extStep :: "('x \<Rightarrow> 'a \<times> 'x) \<Rightarrow> ('x, 'a) op" where
  "extStep f w = (case f (ext w) of (a, x) \<Rightarrow> (Inr a, w\<lparr>ext := x\<rparr>))"

definition extEff :: "(error, 'x, 'a) eff \<Rightarrow> ('x, 'a) op" where
  "extEff m w = (case m (ext w) of (r, x) \<Rightarrow> (r, w\<lparr>ext := x\<rparr>))"

definition exec :: "'x host \<Rightarrow> string \<Rightarrow> string list \<Rightarrow> ('x, string option) op" where
  "exec H cmd args = extStep (os_exec H cmd args)"

definition sleep :: "'x host \<Rightarrow> nat \<Rightarrow> ('x, unit) op" where
  "sleep H ms = update (os_sleep H ms)"

definition now :: "'x host \<Rightarrow> ('x, nat) op" where
  "now H = extGet (os_now H)"

definition env_get :: "env \<Rightarrow> string \<Rightarrow> string option" where
  "env_get e k = map_of e k"

lemmas op_defs = hubRead_def hubGet_def hubWrite_def hubSet_def extGet_def exec_def sleep_def now_def

lemma hubRead_run [eff_simps]: "hubRead f w = (f (hub w), w)"
  by (simp add: hubRead_def reads_def)

lemma hubGet_run [eff_simps]: "hubGet f w = (Inr (f (hub w)), w)"
  by (simp add: hubGet_def reads_def)

lemma hubWrite_run [eff_simps]:
  "hubWrite f w = (case f (hub w) of Inl e \<Rightarrow> (Inl e, w) | Inr h \<Rightarrow> (Inr (), w\<lparr>hub := h\<rparr>))"
  by (simp add: hubWrite_def writes_def split: sum.splits)

lemma hubSet_run [eff_simps]: "hubSet f w = (Inr (), w\<lparr>hub := f (hub w)\<rparr>)"
  by (simp add: hubSet_def update_def)

lemma extGet_run [eff_simps]: "extGet f w = (Inr (f (ext w)), w)"
  by (simp add: extGet_def reads_def)

lemma now_run [eff_simps]: "now H w = (Inr (os_now H (ext w)), w)"
  by (simp add: now_def extGet_run)

lemma exec_run [eff_simps]:
  "exec H c as w = (case os_exec H c as (ext w) of (a, x) \<Rightarrow> (Inr a, w\<lparr>ext := x\<rparr>))"
  by (simp add: exec_def extStep_def)

lemma sleep_run [eff_simps]: "sleep H ms w = (Inr (), os_sleep H ms w)"
  by (simp add: sleep_def update_def)

lemmas [eff_simps] = extStep_def extEff_def hubStep_def

text \<open>Reads, and effects on the outside world, leave the hub alone.\<close>

lemma keeps_hubRead [frame]: "keeps f (hubRead g)"
  by (simp add: keeps_def eff_simps)

lemma keeps_hubGet [frame]: "keeps f (hubGet g)"
  by (simp add: keeps_def eff_simps)

lemma keeps_extGet [frame]: "keeps f (extGet g)"
  by (simp add: keeps_def eff_simps)

lemma keeps_now [frame]: "keeps f (now H)"
  by (simp add: keeps_def eff_simps)

lemma keeps_hub_extStep [frame]: "keeps (\<lambda>w. g (hub w)) (extStep f)"
  by (simp add: keeps_def eff_simps split: prod.splits)

lemma keeps_hub_extEff [frame]: "keeps (\<lambda>w. g (hub w)) (extEff m)"
  by (simp add: keeps_def eff_simps split: prod.splits)

lemma keeps_hub_exec [frame]: "keeps (\<lambda>w. g (hub w)) (exec H c as)"
  by (simp add: keeps_def eff_simps split: prod.splits)

lemma keeps_hubWrite [frame]:
  "(\<And>h h'. f h = Inr h' \<Longrightarrow> g h' = g h) \<Longrightarrow> keeps (\<lambda>w. g (hub w)) (hubWrite f)"
  by (simp add: keeps_def eff_simps split: sum.splits)

lemma keeps_hubSet [frame]: "(\<And>h. g (f h) = g h) \<Longrightarrow> keeps (\<lambda>w. g (hub w)) (hubSet f)"
  by (simp add: keeps_def eff_simps)

lemma pres_hubRead [pres]: "preserves P (hubRead g)"
  by (simp add: preserves_def eff_simps)

lemma pres_hubGet [pres]: "preserves P (hubGet g)"
  by (simp add: preserves_def eff_simps)

lemma pres_extGet [pres]: "preserves P (extGet g)"
  by (simp add: preserves_def eff_simps)

lemma pres_now [pres]: "preserves P (now H)"
  by (simp add: preserves_def eff_simps)

lemma pres_hub_extStep [pres]: "preserves (\<lambda>w. P (hub w)) (extStep f)"
  by (simp add: preserves_def eff_simps split: prod.splits)

lemma pres_hub_extEff [pres]: "preserves (\<lambda>w. P (hub w)) (extEff m)"
  by (simp add: preserves_def eff_simps split: prod.splits)

lemma pres_hub_exec [pres]: "preserves (\<lambda>w. P (hub w)) (exec H c as)"
  by (simp add: preserves_def eff_simps split: prod.splits)

lemma pres_hubWrite [pres]:
  "(\<And>h h'. P h \<Longrightarrow> f h = Inr h' \<Longrightarrow> P h') \<Longrightarrow> preserves (\<lambda>w. P (hub w)) (hubWrite f)"
  by (simp add: preserves_def eff_simps split: sum.splits)

lemma pres_hubSet [pres]: "(\<And>h. P h \<Longrightarrow> P (f h)) \<Longrightarrow> preserves (\<lambda>w. P (hub w)) (hubSet f)"
  by (simp add: preserves_def eff_simps)

subsection \<open>A host for concrete runs\<close>

text \<open>
  The witnesses run the operations on this host: the outside world is its clock; no command
  succeeds, no pane exists, every process but its own answers a probe.
\<close>

definition demo_adapter :: "string \<Rightarrow> live_pane list \<Rightarrow> nat adapter" where
  "demo_adapter name panes = \<lparr>
     ad_name = name,
     ad_listPanes = (\<lambda>x. panes),
     ad_paneExists = (\<lambda>p x. p \<in> set (map lp_id panes)),
     ad_isPaneFocused = (\<lambda>p x. Inr None),
     ad_read = (\<lambda>p n x. Inr (Some [])),
     ad_submit = (\<lambda>p t. ret ()),
     ad_sendText = (\<lambda>p t. ret ()),
     ad_sendKeys = (\<lambda>p t. ret ()),
     ad_teardown = (\<lambda>p. ret ()),
     ad_focus = (\<lambda>p. ret ()),
     ad_open = (\<lambda>opts. ret ''w1:p9'')\<rparr>"

definition demo_host :: "nat host" where
  "demo_host = \<lparr>
     os_pid = 1,
     os_now = (\<lambda>x. x),
     os_random = (\<lambda>n x. (''c0ffee'', Suc x)),
     os_sleep = (\<lambda>ms w. w\<lparr>ext := ext w + ms\<rparr>),
     os_kill0 = (\<lambda>pid x. None),
     os_exec = (\<lambda>cmd args x. (None, x)),
     os_env = [],
     os_cwd = ''/home/u/repo'',
     os_homedir = ''/home/u'',
     os_exists = (\<lambda>p x. False),
     os_isDir = (\<lambda>p x. False),
     os_realpath = (\<lambda>p x. None),
     os_readFile = (\<lambda>p x. None),
     os_sha256 = (\<lambda>s. ''0123456789abcdef0123''),
     mx_currentPane = (\<lambda>e. None),
     mx_callerPane = (\<lambda>name e. None),
     mx_probe = (\<lambda>e x. ''none''),
     mx_primaryRoot = (\<lambda>dir x. None),
     mx_adapter = (\<lambda>m. demo_adapter (mux_name m) []),
     mx_isStaged = (\<lambda>screen message. False),
     os_readdir = (\<lambda>p x. []),
     os_stdin = [],
     ctx_self = None,
     os_writeFile = (\<lambda>p t. ret ()), os_readJson = (\<lambda>p x. None), os_writeJson = (\<lambda>p v. ret ())\<rparr>"

lemma demo_host_simps [simp]:
  "os_pid demo_host = 1" "os_now demo_host x = x" "os_random demo_host n x = (''c0ffee'', Suc x)"
  "os_sleep demo_host ms w = w\<lparr>ext := ext w + ms\<rparr>" "os_kill0 demo_host pid x = None"
  "os_exec demo_host cmd args x = (None, x)" "os_env demo_host = []" "os_cwd demo_host = ''/home/u/repo''"
  "os_homedir demo_host = ''/home/u''" "os_exists demo_host p x = False" "os_isDir demo_host p x = False"
  "os_realpath demo_host p x = None" "os_readFile demo_host p x = None"
  "os_sha256 demo_host s = ''0123456789abcdef0123''" "mx_currentPane demo_host e = None"
  "mx_callerPane demo_host nm e = None" "mx_probe demo_host e x = ''none''" "mx_primaryRoot demo_host d x = None"
  "mx_adapter demo_host m = demo_adapter (mux_name m) []" "mx_isStaged demo_host scr t = False"
  "os_readdir demo_host p x = []" "os_stdin demo_host = []" "ctx_self demo_host = None"
  "os_writeFile demo_host p txt = ret ()" "os_readJson demo_host p x = None" "os_writeJson demo_host p v = ret ()"
  by (simp_all add: demo_host_def)

definition demo_world :: "nat world" where
  "demo_world = \<lparr>hub = empty_hub ''/hub'', ext = 1000\<rparr>"

text \<open>An adapter and a host for any outside world: nothing answers, nothing changes, time stands still.\<close>

definition quiet_adapter :: "string \<Rightarrow> 'x adapter" where
  "quiet_adapter name = \<lparr>
     ad_name = name, ad_listPanes = (\<lambda>x. []), ad_paneExists = (\<lambda>p x. False),
     ad_isPaneFocused = (\<lambda>p x. Inr None), ad_read = (\<lambda>p n x. Inr None), ad_submit = (\<lambda>p t. ret ()),
     ad_sendText = (\<lambda>p t. ret ()), ad_sendKeys = (\<lambda>p t. ret ()), ad_teardown = (\<lambda>p. ret ()),
     ad_focus = (\<lambda>p. ret ()), ad_open = (\<lambda>p. ret [])\<rparr>"

definition quiet_host :: "'x host" where
  "quiet_host = \<lparr>
     os_pid = 1, os_now = (\<lambda>x. 0), os_random = (\<lambda>n x. ([], x)), os_sleep = (\<lambda>ms w. w),
     os_kill0 = (\<lambda>pid x. None), os_exec = (\<lambda>cmd args x. (None, x)), os_env = [], os_cwd = ''/home/u/repo'',
     os_homedir = ''/home/u'', os_exists = (\<lambda>p x. False), os_isDir = (\<lambda>p x. False), os_realpath = (\<lambda>p x. None),
     os_readFile = (\<lambda>p x. None), os_sha256 = (\<lambda>s. ''0123456789abcdef0123''), mx_currentPane = (\<lambda>e. None),
     mx_callerPane = (\<lambda>name e. None), mx_probe = (\<lambda>e x. ''none''), mx_primaryRoot = (\<lambda>dir x. None),
     mx_adapter = (\<lambda>m. quiet_adapter (mux_name m)), mx_isStaged = (\<lambda>s t. False), os_readdir = (\<lambda>p x. []),
     os_stdin = [], ctx_self = None,
     os_writeFile = (\<lambda>p t. ret ()), os_readJson = (\<lambda>p x. None), os_writeJson = (\<lambda>p v. ret ())\<rparr>"

text \<open>Sleeping lets at least the time asked for go by.\<close>

definition clock_advances :: "'x host \<Rightarrow> bool" where
  "clock_advances H \<longleftrightarrow> (\<forall>ms w. os_now H (ext w) + ms \<le> os_now H (ext (os_sleep H ms w)))"

end
