(* ===== verification/Paths.thy ===== *)
theory Paths
  imports Types
begin

text \<open>
  \<open>paths.ts\<close>: where the hub root is, how an id becomes a file name under it, and the pane
  name encoding. The main fact is containment: an id that passes \<open>assertSafeId\<close> names exactly
  one segment, so every record file lies in its own directory under the root.
\<close>

subsection \<open>Ids and pane names\<close>

definition unsafe_char :: "char \<Rightarrow> bool" where
  "unsafe_char c \<longleftrightarrow> c = CHR 0x5C \<or> c = slash \<or> c = CHR 0x00"

definition safe_id :: "string \<Rightarrow> bool" where
  "safe_id i \<longleftrightarrow> \<not> (i = [] \<or> i = ''.'' \<or> i = ''..'' \<or> (\<exists>c\<in>set i. unsafe_char c))"

definition assertSafeId :: "string \<Rightarrow> string \<Rightarrow> error + string" where
  "assertSafeId i kind = (if safe_id i then Inr i else Inl (StoreE (InvalidId kind i)))"

definition sanitizePane :: "string \<Rightarrow> string" where
  "sanitizePane pane =
     map (\<lambda>c. if is_alnum c \<or> c = CHR ''_'' \<or> c = CHR ''-'' then c else CHR ''_'') pane"

lemma assertSafeId_Inr [simp]: "assertSafeId i k = Inr j \<longleftrightarrow> safe_id i \<and> j = i"
  by (auto simp: assertSafeId_def)

lemma assertSafeId_Inl: "assertSafeId i k = Inl e \<longleftrightarrow> \<not> safe_id i \<and> e = StoreE (InvalidId k i)"
  by (auto simp: assertSafeId_def)

lemma sanitizePane_idem [simp]: "sanitizePane (sanitizePane p) = sanitizePane p"
  by (simp add: sanitizePane_def)

lemma sanitizePane_append [simp]: "sanitizePane (p @ q) = sanitizePane p @ sanitizePane q"
  by (simp add: sanitizePane_def)

lemma length_sanitizePane [simp]: "length (sanitizePane p) = length p"
  by (simp add: sanitizePane_def)

lemma sanitizePane_fixed:
  "sanitizePane p = p \<longleftrightarrow> (\<forall>c\<in>set p. is_alnum c \<or> c = CHR ''_'' \<or> c = CHR ''-'')"
  by (induction p) (auto simp: sanitizePane_def)

text \<open>What \<open>sanitizePane\<close> lets through.\<close>

definition pane_safe :: "char \<Rightarrow> bool" where
  "pane_safe c \<longleftrightarrow> is_alnum c \<or> c = CHR ''_'' \<or> c = CHR ''-''"

lemma sanitizePane_safe: "c \<in> set (sanitizePane p) \<Longrightarrow> pane_safe c"
  by (auto simp: sanitizePane_def pane_safe_def is_alnum_def)

lemma pane_safe_not_unsafe: "pane_safe c \<Longrightarrow> \<not> unsafe_char c \<and> c \<noteq> CHR ''.''"
  by (auto simp: pane_safe_def unsafe_char_def slash_def is_alnum_def is_digit_def is_lower_def is_upper_def)

subsection \<open>Files under the root\<close>

definition json :: string where
  "json = ''.json''"

definition agentFile :: "string \<Rightarrow> string \<Rightarrow> error + string" where
  "agentFile root i = (case assertSafeId i ''agent id'' of Inl e \<Rightarrow> Inl e
     | Inr j \<Rightarrow> Inr (path_join root [''agents'', j @ json]))"

definition paneFile :: "string \<Rightarrow> string \<Rightarrow> string" where
  "paneFile root pane = path_join root [''panes'', sanitizePane pane @ ''.id'']"

definition inboxDir :: "string \<Rightarrow> string \<Rightarrow> error + string" where
  "inboxDir root i = (case assertSafeId i ''agent id'' of Inl e \<Rightarrow> Inl e
     | Inr j \<Rightarrow> Inr (path_join root [''inbox'', j]))"

definition inboxReadDir :: "string \<Rightarrow> string \<Rightarrow> error + string" where
  "inboxReadDir root i = (case assertSafeId i ''agent id'' of Inl e \<Rightarrow> Inl e
     | Inr j \<Rightarrow> Inr (path_join root [''inbox'', j, ''read'']))"

definition dataDir :: "string \<Rightarrow> string \<Rightarrow> error + string" where
  "dataDir root i = (case assertSafeId i ''agent id'' of Inl e \<Rightarrow> Inl e
     | Inr j \<Rightarrow> Inr (path_join root [''data'', j]))"

definition briefFile :: "string \<Rightarrow> string \<Rightarrow> error + string" where
  "briefFile root i = (case assertSafeId i ''agent id'' of Inl e \<Rightarrow> Inl e
     | Inr j \<Rightarrow> Inr (path_join root [''data'', j, ''brief.md'']))"

definition mainPaneFile :: "string \<Rightarrow> string" where
  "mainPaneFile root = path_join root [''main-pane.id'']"

definition projectFile :: "string \<Rightarrow> string \<Rightarrow> error + string" where
  "projectFile root i = (case assertSafeId i ''project id'' of Inl e \<Rightarrow> Inl e
     | Inr j \<Rightarrow> Inr (path_join root [''projects'', j @ json]))"

definition serviceLeaseFile :: "string \<Rightarrow> string \<Rightarrow> string \<Rightarrow> error + string" where
  "serviceLeaseFile root project service = (case assertSafeId project ''project id'' of Inl e \<Rightarrow> Inl e
     | Inr p \<Rightarrow> (case assertSafeId service ''service name'' of Inl e \<Rightarrow> Inl e
        | Inr s \<Rightarrow> Inr (path_join root [''services'', p, s @ json])))"

definition messageFile :: "string \<Rightarrow> string \<Rightarrow> string \<Rightarrow> error + string" where
  "messageFile root toId msgId = (case inboxDir root toId of Inl e \<Rightarrow> Inl e
     | Inr d \<Rightarrow> (case assertSafeId msgId ''message id'' of Inl e \<Rightarrow> Inl e
        | Inr m \<Rightarrow> Inr (path_join d [m @ json])))"

definition messageReadFile :: "string \<Rightarrow> string \<Rightarrow> string \<Rightarrow> error + string" where
  "messageReadFile root toId msgId = (case inboxReadDir root toId of Inl e \<Rightarrow> Inl e
     | Inr d \<Rightarrow> (case assertSafeId msgId ''message id'' of Inl e \<Rightarrow> Inl e
        | Inr m \<Rightarrow> Inr (path_join d [m @ json])))"

text \<open>A segment that \<open>path.resolve\<close> neither drops nor follows upwards.\<close>

definition plain_seg :: "string \<Rightarrow> bool" where
  "plain_seg w \<longleftrightarrow> w \<noteq> [] \<and> w \<noteq> ''.'' \<and> w \<noteq> ''..'' \<and> slash \<notin> set w"

lemma safe_id_plain: "safe_id i \<Longrightarrow> plain_seg i"
  by (auto simp: safe_id_def plain_seg_def unsafe_char_def)

lemma plain_seg_json: "slash \<notin> set i \<Longrightarrow> plain_seg (i @ json)"
  by (auto simp: plain_seg_def json_def slash_def append_eq_Cons_conv)

lemma safe_id_slash: "safe_id i \<Longrightarrow> slash \<notin> set i"
  using safe_id_plain plain_seg_def by blast

lemma split_on_append:
  "split_on c (s @ c # t) = split_on c s @ split_on c t"
  by (induction s) (auto split: list.splits)

lemma norm_segs_append:
  "norm_segs acc (xs @ ys) = norm_segs (rev (norm_segs acc xs)) ys"
  by (induction acc xs rule: norm_segs.induct) auto

lemma path_segs_child:
  assumes "plain_seg w"
  shows "path_segs (root @ slash # w) = path_segs root @ [w]"
  using assms
  by (auto simp: path_segs_def split_on_append norm_segs_append split_on_no_sep plain_seg_def)

lemma path_segs_join:
  "(\<And>w. w \<in> set ws \<Longrightarrow> plain_seg w) \<Longrightarrow> path_segs (path_join root ws) = path_segs root @ ws"
proof (induction ws arbitrary: root)
  case Nil
  show ?case by (simp add: path_join_def)
next
  case (Cons w ws)
  have j: "path_join root (w # ws) = path_join (root @ slash # w) ws"
    by (cases ws) (simp_all add: path_join_def slash_def)
  have "path_segs (path_join (root @ slash # w) ws) = path_segs (root @ slash # w) @ ws"
    by (rule Cons.IH) (simp add: Cons.prems)
  then show ?case using Cons.prems by (simp add: j path_segs_child)
qed

text \<open>Where each record lives. \<open>path_segs\<close> is the path after \<open>..\<close> and \<open>.\<close> are followed.\<close>

lemma plain_dirs:
  "plain_seg ''agents''" "plain_seg ''inbox''" "plain_seg ''read''" "plain_seg ''data''"
  "plain_seg ''projects''" "plain_seg ''services''" "plain_seg ''panes''" "plain_seg ''brief.md''"
  by (simp_all add: plain_seg_def slash_def)

lemma agentFile_segs:
  "agentFile root i = Inr f \<Longrightarrow> path_segs f = path_segs root @ [''agents'', i @ json]"
  by (auto simp: agentFile_def plain_dirs plain_seg_json safe_id_slash
      intro!: path_segs_join split: sum.splits)

lemma inboxDir_segs: "inboxDir root i = Inr f \<Longrightarrow> path_segs f = path_segs root @ [''inbox'', i]"
  by (auto simp: inboxDir_def plain_dirs safe_id_plain intro!: path_segs_join split: sum.splits)

lemma inboxReadDir_segs:
  "inboxReadDir root i = Inr f \<Longrightarrow> path_segs f = path_segs root @ [''inbox'', i, ''read'']"
  by (auto simp: inboxReadDir_def plain_dirs safe_id_plain intro!: path_segs_join split: sum.splits)

lemma dataDir_segs: "dataDir root i = Inr f \<Longrightarrow> path_segs f = path_segs root @ [''data'', i]"
  by (auto simp: dataDir_def plain_dirs safe_id_plain intro!: path_segs_join split: sum.splits)

lemma briefFile_segs:
  "briefFile root i = Inr f \<Longrightarrow> path_segs f = path_segs root @ [''data'', i, ''brief.md'']"
  by (auto simp: briefFile_def plain_dirs safe_id_plain intro!: path_segs_join split: sum.splits)

lemma messageFile_segs:
  assumes "messageFile root i m = Inr f"
  shows "path_segs f = path_segs root @ [''inbox'', i, m @ json]"
proof -
  from assms obtain d where d: "inboxDir root i = Inr d" and f: "f = path_join d [m @ json]"
    and m: "safe_id m" by (auto simp: messageFile_def split: sum.splits)
  have "path_segs f = path_segs d @ [m @ json]"
    unfolding f by (rule path_segs_join) (simp add: m plain_seg_json safe_id_slash)
  with inboxDir_segs [OF d] show ?thesis by simp
qed

lemma messageReadFile_segs:
  assumes "messageReadFile root i m = Inr f"
  shows "path_segs f = path_segs root @ [''inbox'', i, ''read'', m @ json]"
proof -
  from assms obtain d where d: "inboxReadDir root i = Inr d" and f: "f = path_join d [m @ json]"
    and m: "safe_id m" by (auto simp: messageReadFile_def split: sum.splits)
  have "path_segs f = path_segs d @ [m @ json]"
    unfolding f by (rule path_segs_join) (simp add: m plain_seg_json safe_id_slash)
  with inboxReadDir_segs [OF d] show ?thesis by simp
qed

lemma projectFile_segs:
  "projectFile root i = Inr f \<Longrightarrow> path_segs f = path_segs root @ [''projects'', i @ json]"
  by (auto simp: projectFile_def plain_dirs plain_seg_json safe_id_slash
      intro!: path_segs_join split: sum.splits)

lemma serviceLeaseFile_segs:
  "serviceLeaseFile root p s = Inr f \<Longrightarrow> path_segs f = path_segs root @ [''services'', p, s @ json]"
  by (auto simp: serviceLeaseFile_def plain_dirs plain_seg_json safe_id_slash safe_id_plain
      intro!: path_segs_join split: sum.splits)

lemma paneFile_segs:
  "path_segs (paneFile root pane) = path_segs root @ [''panes'', sanitizePane pane @ ''.id'']"
proof -
  have "slash \<notin> set (sanitizePane pane)"
    using sanitizePane_safe pane_safe_not_unsafe by (force simp: unsafe_char_def)
  then have "plain_seg (sanitizePane pane @ ''.id'')"
    by (auto simp: plain_seg_def slash_def append_eq_Cons_conv)
  then show ?thesis
    by (auto simp: paneFile_def plain_dirs intro!: path_segs_join)
qed

subsection \<open>The hub root\<close>

text \<open>
  \<open>projectRoot\<close> walks up from a directory to the nearest one that holds a \<open>.git\<close>; the
  directory is kept as its segments, so the loop drops the last one each time round.
\<close>

function git_root :: "(string \<Rightarrow> bool) \<Rightarrow> string list \<Rightarrow> string list option" where
  "git_root exists segs =
     (if exists (path_of (segs @ [''.git''])) then Some segs
      else if segs = [] then None
      else git_root exists (butlast segs))"
  by pat_completeness auto
termination
  by (relation "measure (\<lambda>(_, segs). length segs)") auto

declare git_root.simps [simp del]

definition projectRoot :: "'x host \<Rightarrow> 'x \<Rightarrow> string option \<Rightarrow> string" where
  "projectRoot H x cwd =
     (let dir = resolve_path (os_cwd H) (defaultTo cwd (os_cwd H))
      in case git_root (\<lambda>p. os_exists H p x) (path_segs dir) of
           Some segs \<Rightarrow> path_of segs
         | None \<Rightarrow> dir)"

record root_options =
  ro_root :: "string option"
  ro_space :: "string option"
  ro_cwd :: "string option"

definition resolveRoot :: "'x host \<Rightarrow> 'x \<Rightarrow> root_options \<Rightarrow> string" where
  "resolveRoot H x opts =
     (let explicit = or_else (ro_root opts) (or_else (ro_space opts) (env_get (os_env H) ''CYBERLEGION_ROOT''))
      in case truthy explicit of
           Some p \<Rightarrow> resolve_path (os_cwd H) p
         | None \<Rightarrow>
             if os_homedir H \<noteq> [] then path_join (os_homedir H) [''.agents'', ''cyberlegion'']
             else path_join (projectRoot H x (ro_cwd opts)) [''.agents'', ''cyberlegion''])"

text \<open>\<open>mx_primaryRoot\<close> is \<open>cyber-mux\<close>'s \<open>resolvePrimaryRoot\<close>, \<open>None\<close> where it throws.\<close>

definition resolveProjectLocalRoot :: "'x host \<Rightarrow> 'x \<Rightarrow> string option \<Rightarrow> string" where
  "resolveProjectLocalRoot H x cwd =
     path_join (defaultTo (mx_primaryRoot H cwd x) (projectRoot H x cwd)) [''.agents'', ''cyberlegion'']"

definition ensureMarker :: "hub \<Rightarrow> hub" where
  "ensureMarker h = h\<lparr>h_marker := True\<rparr>"

lemma ensureMarker_idem [simp]: "ensureMarker (ensureMarker h) = ensureMarker h"
  by (simp add: ensureMarker_def)

lemma ensureMarker_simps [simp]:
  "h_agents (ensureMarker h) = h_agents h" "h_inbox (ensureMarker h) = h_inbox h"
  "h_data (ensureMarker h) = h_data h" "h_panes (ensureMarker h) = h_panes h"
  "h_mainPane (ensureMarker h) = h_mainPane h" "h_projects (ensureMarker h) = h_projects h"
  "h_leases (ensureMarker h) = h_leases h" "h_locks (ensureMarker h) = h_locks h"
  "h_root (ensureMarker h) = h_root h" "h_marker (ensureMarker h)"
  by (simp_all add: ensureMarker_def)

text \<open>The nearest ancestor: it holds a \<open>.git\<close>, and no deeper ancestor does.\<close>

lemma git_root_nearest:
  "git_root ex segs = Some r \<Longrightarrow>
   prefix r segs \<and> ex (path_of (r @ [''.git''])) \<and>
   (\<forall>q. prefix q segs \<and> length r < length q \<longrightarrow> \<not> ex (path_of (q @ [''.git''])))"
proof (induction ex segs rule: git_root.induct)
  case (1 ex segs)
  show ?case
  proof (cases "ex (path_of (segs @ [''.git'']))")
    case True
    with "1.prems" have "r = segs" by (simp add: git_root.simps [of ex segs])
    with True show ?thesis by (auto dest: prefix_length_le)
  next
    case False
    with "1.prems" have ne: "segs \<noteq> []" and r: "git_root ex (butlast segs) = Some r"
      by (auto simp: git_root.simps [of ex segs] split: if_splits)
    from "1.IH" [OF False ne r] have IH: "prefix r (butlast segs)" "ex (path_of (r @ [''.git'']))"
      "\<And>q. prefix q (butlast segs) \<Longrightarrow> length r < length q \<Longrightarrow> \<not> ex (path_of (q @ [''.git'']))"
      by auto
    have up: "q = segs \<or> prefix q (butlast segs)" if "prefix q segs" for q
      using that ne by (metis append_butlast_last_id prefix_snoc)
    have "prefix r segs" by (rule prefix_order.trans [OF IH(1) prefixeq_butlast])
    moreover have "\<not> ex (path_of (q @ [''.git'']))" if "prefix q segs" "length r < length q" for q
      using up [OF that(1)] IH(3) [OF _ that(2)] False by blast
    ultimately show ?thesis using IH(2) by blast
  qed
qed

lemma git_root_None:
  "git_root ex segs = None \<Longrightarrow> prefix q segs \<Longrightarrow> \<not> ex (path_of (q @ [''.git'']))"
proof (induction ex segs rule: git_root.induct)
  case (1 ex segs)
  then have no: "\<not> ex (path_of (segs @ [''.git'']))"
    by (auto simp: git_root.simps [of ex segs] split: if_splits)
  show ?case
  proof (cases "q = segs")
    case True
    with no show ?thesis by simp
  next
    case False
    with "1.prems"(2) have ne: "segs \<noteq> []" by auto
    with False "1.prems"(2) have "prefix q (butlast segs)"
      by (metis append_butlast_last_id prefix_snoc)
    moreover from "1.prems"(1) no ne have "git_root ex (butlast segs) = None"
      by (simp add: git_root.simps [of ex segs])
    ultimately show ?thesis using "1.IH" [OF no ne] by blast
  qed
qed

end
