(* ===== verification/Lock.thy ===== *)
theory Lock
  imports Paths
begin

text \<open>
  \<open>store/lock.ts\<close> and \<open>store/process-liveness.ts\<close>, twice.

  \<^item> The operations as one process runs them (\<open>acquireLock\<close>, \<open>tryReclaimStale\<close>, \<open>withLock\<close>):
    every other component uses these. \<open>acquireLock\<close> polls, so its loop has fuel;
    \<open>acquireLock_outcome\<close> shows the fuel suffices when sleeping lets the clock advance.
  \<^item> The protocol as any number of processes run it, one system call per step, any of them
    dying at any point (\<open>lock_step\<close>). Mutual exclusion holds when nobody dies, and when the
    reclaims of abandoned locks do not overlap; two overlapping reclaims break it.
\<close>

subsection \<open>Process liveness\<close>

datatype liveness = Alive | Dead | UnknownAlive

definition probeProcess :: "'x host \<Rightarrow> nat \<Rightarrow> 'x \<Rightarrow> liveness" where
  "probeProcess H pid x =
     (if pid = os_pid H then Alive
      else case os_kill0 H pid x of
        None \<Rightarrow> Alive
      | Some errno \<Rightarrow> if errno = ''ESRCH'' then Dead else UnknownAlive)"

definition heldByLiveOrUnknownPid :: "'x host \<Rightarrow> nat \<Rightarrow> 'x \<Rightarrow> bool" where
  "heldByLiveOrUnknownPid H pid x \<longleftrightarrow> probeProcess H pid x \<noteq> Dead"

lemma held_iff:
  "heldByLiveOrUnknownPid H pid x \<longleftrightarrow> pid = os_pid H \<or> os_kill0 H pid x \<noteq> Some ''ESRCH''"
  by (auto simp: heldByLiveOrUnknownPid_def probeProcess_def split: option.splits)

subsection \<open>The operations of one process\<close>

definition lockDirFor :: "string \<Rightarrow> string" where
  "lockDirFor name = name @ ''.lock''"

lemma lockDirFor_inject [simp]: "lockDirFor a = lockDirFor b \<longleftrightarrow> a = b"
  by (simp add: lockDirFor_def)

text \<open>Absent, and present with no readable \<open>holder.json\<close>, both read as no known holder.\<close>

definition readHolder :: "hub \<Rightarrow> string \<Rightarrow> lock_holder option" where
  "readHolder h dir = (case dget (h_locks h) dir of Some (Some k) \<Rightarrow> Some k | _ \<Rightarrow> None)"

definition graveFor :: "string \<Rightarrow> string" where
  "graveFor dir = dir @ ''.stale''"

definition tryReclaimStale :: "'x host \<Rightarrow> string \<Rightarrow> 'x world \<Rightarrow> bool \<times> 'x world" where
  "tryReclaimStale H dir w =
     (case dget (h_locks (hub w)) dir of
        None \<Rightarrow> (False, w)
      | Some content \<Rightarrow>
          let grave = graveFor dir;
              moved = (hub w)\<lparr>h_locks := dput grave content (ddel dir (h_locks (hub w)))\<rparr>
          in case readHolder moved grave of
               Some k \<Rightarrow>
                 if heldByLiveOrUnknownPid H (lh_pid k) (ext w)
                 then (False, w\<lparr>hub := moved\<lparr>h_locks := dput dir content (ddel grave (h_locks moved))\<rparr>\<rparr>)
                 else (True, w\<lparr>hub := moved\<lparr>h_locks := ddel grave (h_locks moved)\<rparr>\<rparr>)
             | None \<Rightarrow> (True, w\<lparr>hub := moved\<lparr>h_locks := ddel grave (h_locks moved)\<rparr>\<rparr>))"

definition out_of_fuel :: error where
  "out_of_fuel = HostError ''fuel''"

fun acquire_loop :: "'x host \<Rightarrow> string \<Rightarrow> nat \<Rightarrow> nat \<Rightarrow> nat \<Rightarrow> ('x, unit) op" where
  "acquire_loop H name retryDelay deadline 0 w = (Inl out_of_fuel, w)"
| "acquire_loop H name retryDelay deadline (Suc fuel) w =
     (let dir = lockDirFor name
      in case dget (h_locks (hub w)) dir of
        None \<Rightarrow>
          (Inr (), w\<lparr>hub := (hub w)\<lparr>h_locks :=
             dput dir (Some \<lparr>lh_pid = os_pid H, lh_acquiredAt = os_now H (ext w)\<rparr>) (h_locks (hub w))\<rparr>\<rparr>)
      | Some _ \<Rightarrow>
          let (reclaimed, w') =
            (case readHolder (hub w) dir of
               None \<Rightarrow> (False, w)
             | Some k \<Rightarrow> if heldByLiveOrUnknownPid H (lh_pid k) (ext w) then (False, w)
                         else tryReclaimStale H dir w)
          in if reclaimed then acquire_loop H name retryDelay deadline fuel w'
             else if deadline < os_now H (ext w') then (Inl (StoreE (LockTimeout name)), w')
             else acquire_loop H name retryDelay deadline fuel (os_sleep H retryDelay w'))"

definition retryDelayMs :: nat where
  "retryDelayMs = 20"

definition timeoutMs :: nat where
  "timeoutMs = 5000"

text \<open>At most 251 sleeps of 20 ms fit into 5 s, and a reclaim is followed by an acquisition.\<close>

definition lock_fuel :: nat where
  "lock_fuel = Suc (Suc (timeoutMs div retryDelayMs + 2))"

definition acquireLock :: "'x host \<Rightarrow> string \<Rightarrow> ('x, unit) op" where
  "acquireLock H name w =
     acquire_loop H name retryDelayMs (os_now H (ext w) + timeoutMs) lock_fuel w"

definition releaseLock :: "string \<Rightarrow> hub \<Rightarrow> hub" where
  "releaseLock name h = h\<lparr>h_locks := ddel (lockDirFor name) (h_locks h)\<rparr>"

text \<open>\<open>try { return fn() } finally { handle.release() }\<close>.\<close>

definition withLock :: "'x host \<Rightarrow> string \<Rightarrow> ('x, 'a) op \<Rightarrow> ('x, 'a) op" where
  "withLock H name fn =
     andThen (acquireLock H name) (\<lambda>_.
     andThen (tryE fn) (\<lambda>r.
     andThen (hubSet (releaseLock name)) (\<lambda>_. ofSum r)))"

text \<open>A free lock is taken at the first attempt.\<close>

definition lock_free :: "hub \<Rightarrow> string \<Rightarrow> bool" where
  "lock_free h name \<longleftrightarrow> dget (h_locks h) (lockDirFor name) = None"

definition takeLock :: "'x host \<Rightarrow> string \<Rightarrow> 'x world \<Rightarrow> 'x world" where
  "takeLock H name w = w\<lparr>hub := (hub w)\<lparr>h_locks :=
     dput (lockDirFor name) (Some \<lparr>lh_pid = os_pid H, lh_acquiredAt = os_now H (ext w)\<rparr>)
       (h_locks (hub w))\<rparr>\<rparr>"

lemma acquireLock_free: "lock_free (hub w) name \<Longrightarrow> acquireLock H name w = (Inr (), takeLock H name w)"
  by (simp add: acquireLock_def lock_fuel_def lock_free_def takeLock_def Let_def)

lemma withLock_free:
  "lock_free (hub w) name \<Longrightarrow>
   withLock H name fn w =
     (case fn (takeLock H name w) of (r, w') \<Rightarrow> (r, w'\<lparr>hub := releaseLock name (hub w')\<rparr>))"
  by (simp add: withLock_def andThen_def acquireLock_free tryE_def eff_simps split: prod.splits)

lemma takeLock_simps [simp]:
  "ext (takeLock H n w) = ext w" "h_root (hub (takeLock H n w)) = h_root (hub w)"
  "h_agents (hub (takeLock H n w)) = h_agents (hub w)"
  "h_inbox (hub (takeLock H n w)) = h_inbox (hub w)"
  "h_data (hub (takeLock H n w)) = h_data (hub w)"
  "h_panes (hub (takeLock H n w)) = h_panes (hub w)"
  "h_mainPane (hub (takeLock H n w)) = h_mainPane (hub w)"
  "h_projects (hub (takeLock H n w)) = h_projects (hub w)"
  "h_leases (hub (takeLock H n w)) = h_leases (hub w)"
  "h_marker (hub (takeLock H n w)) = h_marker (hub w)"
  by (simp_all add: takeLock_def)

lemma releaseLock_simps [simp]:
  "h_root (releaseLock n h) = h_root h" "h_agents (releaseLock n h) = h_agents h"
  "h_inbox (releaseLock n h) = h_inbox h" "h_data (releaseLock n h) = h_data h"
  "h_panes (releaseLock n h) = h_panes h" "h_mainPane (releaseLock n h) = h_mainPane h"
  "h_projects (releaseLock n h) = h_projects h" "h_leases (releaseLock n h) = h_leases h"
  "h_marker (releaseLock n h) = h_marker h"
  by (simp_all add: releaseLock_def)

lemma releaseLock_free [simp]: "lock_free (releaseLock n h) n"
  by (simp add: lock_free_def releaseLock_def)

lemma lock_free_cong: "h_locks h = h_locks h' \<Longrightarrow> lock_free h n = lock_free h' n"
  by (simp add: lock_free_def)

text \<open>
  An abandoned lock is taken over, a live or unknown holder's never: the holder on record when
  the loop acquires is either nobody's or a confirmed dead process's.
\<close>

lemma tryReclaim_dead:
  assumes "dget (h_locks (hub w)) dir = Some (Some k)" "\<not> heldByLiveOrUnknownPid H (lh_pid k) (ext w)"
  shows "\<exists>w'. tryReclaimStale H dir w = (True, w') \<and> ext w' = ext w \<and> dget (h_locks (hub w')) dir = None"
  using assms
  by (auto simp: tryReclaimStale_def readHolder_def Let_def dget_dput dget_ddel graveFor_def)

lemma acquire_loop_live:
  assumes "dget (h_locks (hub w)) (lockDirFor name) = Some (Some k)"
    and "heldByLiveOrUnknownPid H (lh_pid k) (ext w)"
  shows "acquire_loop H name d dl (Suc n) w =
     (if dl < os_now H (ext w) then (Inl (StoreE (LockTimeout name)), w)
      else acquire_loop H name d dl n (os_sleep H d w))"
  using assms by (simp add: readHolder_def Let_def)

text \<open>One round: the lock is taken, the wait is over, or another round follows a sleep.\<close>

lemma acquire_loop_round:
  assumes run: "acquire_loop H name d dl (Suc (Suc n)) w = (r, w')"
  shows "r = Inr () \<or> r = Inl (StoreE (LockTimeout name)) \<or>
    (\<exists>v. ext v = ext w \<and> os_now H (ext w) \<le> dl \<and>
      acquire_loop H name d dl (Suc n) (os_sleep H d v) = (r, w'))"
proof (cases "dget (h_locks (hub w)) (lockDirFor name)")
  case None
  with run show ?thesis by (auto simp: Let_def)
next
  case (Some c)
  obtain b v where rc: "(case readHolder (hub w) (lockDirFor name) of
               None \<Rightarrow> (False, w)
             | Some k \<Rightarrow> if heldByLiveOrUnknownPid H (lh_pid k) (ext w) then (False, w)
                         else tryReclaimStale H (lockDirFor name) w) = (b, v)"
    by (metis surj_pair)
  show ?thesis
  proof (cases b)
    case True
    then obtain k where k: "c = Some k" "\<not> heldByLiveOrUnknownPid H (lh_pid k) (ext w)"
      using rc Some by (auto simp: readHolder_def split: option.splits if_splits)
    with Some obtain v' where "tryReclaimStale H (lockDirFor name) w = (True, v')"
      "dget (h_locks (hub v')) (lockDirFor name) = None"
      using tryReclaim_dead [of w _ k H] by blast
    with run Some k show ?thesis by (auto simp: readHolder_def Let_def)
  next
    case False
    then have "ext v = ext w"
      using rc by (auto simp: tryReclaimStale_def Let_def split: option.splits if_splits)
    moreover have "(if dl < os_now H (ext v) then (Inl (StoreE (LockTimeout name)), v)
        else acquire_loop H name d dl (Suc n) (os_sleep H d v)) = (r, w')"
      using run Some rc False by (subst (asm) acquire_loop.simps(2)) (simp add: Let_def)
    ultimately show ?thesis by (auto split: if_splits)
  qed
qed

lemma acquire_loop_outcome:
  assumes "clock_advances H"
  shows "dl < os_now H (ext w) + d * n \<Longrightarrow>
    acquire_loop H name d dl (Suc (Suc n)) w = (r, w') \<Longrightarrow>
    r = Inr () \<or> r = Inl (StoreE (LockTimeout name))"
proof (induction n arbitrary: w)
  case 0
  then show ?case using acquire_loop_round [OF "0.prems"(2)] by auto
next
  case (Suc n)
  from acquire_loop_round [OF Suc.prems(2)] consider
      "r = Inr () \<or> r = Inl (StoreE (LockTimeout name))"
    | v where "ext v = ext w" "os_now H (ext w) \<le> dl"
        "acquire_loop H name d dl (Suc (Suc n)) (os_sleep H d v) = (r, w')" by auto
  then show ?case
  proof cases
    case 1
    then show ?thesis .
  next
    case (2 v)
    have "os_now H (ext v) + d \<le> os_now H (ext (os_sleep H d v))"
      using assms by (simp add: clock_advances_def)
    with Suc.prems(1) 2(1) have "dl < os_now H (ext (os_sleep H d v)) + d * n" by simp
    then show ?thesis using 2(3) by (rule Suc.IH)
  qed
qed

subsection \<open>The protocol of many processes\<close>

text \<open>
  One lock directory and the graves it is renamed to. The directory is absent, or present with
  or without the process recorded in its \<open>holder.json\<close>. Each process is at one of the points
  between the system calls of \<open>acquireLock\<close>, \<open>tryReclaimStale\<close> and \<open>release\<close>:
  \<open>Trying\<close> (before \<open>mkdir\<close>), \<open>Made\<close> (directory made, holder not yet written), \<open>Holding\<close>,
  \<open>SawDead\<close> (read a dead holder, about to rename), \<open>Captured\<close> (renamed, about to re-check what
  it captured), \<open>Restoring\<close> (captured a live lock, about to rename it back), \<open>Gone\<close> (dead).
\<close>

datatype pc = Trying | Made | Holding | SawDead | Captured "nat option" | Restoring "nat option" | Gone

record lsys =
  ls_dir :: "nat option option"
  ls_pc :: "nat \<Rightarrow> pc"

definition init_lsys :: lsys where
  "init_lsys = \<lparr>ls_dir = None, ls_pc = (\<lambda>_. Trying)\<rparr>"

definition at :: "lsys \<Rightarrow> nat \<Rightarrow> pc \<Rightarrow> lsys" where
  "at s p c = s\<lparr>ls_pc := (ls_pc s)(p := c)\<rparr>"

definition dir_to :: "lsys \<Rightarrow> nat option option \<Rightarrow> lsys" where
  "dir_to s d = s\<lparr>ls_dir := d\<rparr>"

lemma at_dir_simps [simp]:
  "ls_dir (at s p c) = ls_dir s" "ls_pc (at s p c) = (ls_pc s)(p := c)"
  "ls_dir (dir_to s d) = d" "ls_pc (dir_to s d) = ls_pc s"
  by (simp_all add: at_def dir_to_def)

datatype lock_act =
    Mkdir | WriteHolder | WriteFails | ReadDead | RenameAway | RenameLost
  | FindDead | FindLive | Restore | Drop | Release | Crash

text \<open>
  \<open>writeFileSync\<close> into a directory that was captured away fails with \<open>ENOENT\<close>, which
  \<open>acquireLock\<close> throws. \<open>renameSync\<close> of a directory onto an empty directory replaces it.
\<close>

inductive lock_step :: "nat \<Rightarrow> lock_act \<Rightarrow> lsys \<Rightarrow> lsys \<Rightarrow> bool" where
  mkdir: "ls_pc s p = Trying \<Longrightarrow> ls_dir s = None \<Longrightarrow>
    lock_step p Mkdir s (dir_to (at s p Made) (Some None))"
| write_holder: "ls_pc s p = Made \<Longrightarrow> ls_dir s = Some c \<Longrightarrow>
    lock_step p WriteHolder s (dir_to (at s p Holding) (Some (Some p)))"
| write_fails: "ls_pc s p = Made \<Longrightarrow> ls_dir s = None \<Longrightarrow>
    lock_step p WriteFails s (at s p Trying)"
| read_dead: "ls_pc s p = Trying \<Longrightarrow> ls_dir s = Some (Some q) \<Longrightarrow> ls_pc s q = Gone \<Longrightarrow>
    lock_step p ReadDead s (at s p SawDead)"
| rename_away: "ls_pc s p = SawDead \<Longrightarrow> ls_dir s = Some c \<Longrightarrow>
    lock_step p RenameAway s (dir_to (at s p (Captured c)) None)"
| rename_lost: "ls_pc s p = SawDead \<Longrightarrow> ls_dir s = None \<Longrightarrow>
    lock_step p RenameLost s (at s p Trying)"
| find_dead: "ls_pc s p = Captured c \<Longrightarrow> (\<forall>q. c = Some q \<longrightarrow> ls_pc s q = Gone) \<Longrightarrow>
    lock_step p FindDead s (at s p Trying)"
| find_live: "ls_pc s p = Captured (Some q) \<Longrightarrow> ls_pc s q \<noteq> Gone \<Longrightarrow>
    lock_step p FindLive s (at s p (Restoring (Some q)))"
| restore: "ls_pc s p = Restoring c \<Longrightarrow> ls_dir s = None \<or> ls_dir s = Some None \<Longrightarrow>
    lock_step p Restore s (dir_to (at s p Trying) (Some c))"
| drop: "ls_pc s p = Restoring c \<Longrightarrow> ls_dir s = Some (Some q) \<Longrightarrow>
    lock_step p Drop s (at s p Trying)"
| release: "ls_pc s p = Holding \<Longrightarrow>
    lock_step p Release s (dir_to (at s p Trying) None)"
| crash: "lock_step p Crash s (at s p Gone)"

inductive_cases lock_stepE: "lock_step p a s t"

text \<open>A run is restricted by which steps may happen where.\<close>

definition lock_run :: "(lsys \<Rightarrow> nat \<Rightarrow> lock_act \<Rightarrow> bool) \<Rightarrow> lsys \<Rightarrow> lsys \<Rightarrow> bool" where
  "lock_run allowed s t \<longleftrightarrow> (\<exists>p a. allowed s p a \<and> lock_step p a s t)"

definition any_step :: "lsys \<Rightarrow> nat \<Rightarrow> lock_act \<Rightarrow> bool" where
  "any_step s p a \<longleftrightarrow> True"

text \<open>Nobody starts to reclaim while another process is still reclaiming.\<close>

definition reclaiming :: "pc \<Rightarrow> bool" where
  "reclaiming c \<longleftrightarrow> c = SawDead \<or> (\<exists>x. c = Captured x) \<or> (\<exists>x. c = Restoring x)"

definition serial_reclaim :: "lsys \<Rightarrow> nat \<Rightarrow> lock_act \<Rightarrow> bool" where
  "serial_reclaim s p a \<longleftrightarrow> (a = ReadDead \<longrightarrow> (\<forall>q. \<not> reclaiming (ls_pc s q)))"

abbreviation lock_reach :: "(lsys \<Rightarrow> nat \<Rightarrow> lock_act \<Rightarrow> bool) \<Rightarrow> lsys \<Rightarrow> bool" where
  "lock_reach allowed \<equiv> reach (\<lambda>s. s = init_lsys) (lock_run allowed)"

text \<open>
  The invariant of serial runs: the directory records who holds it, what a reclaimer has seen
  or captured is dead, and at most one process reclaims.
\<close>

definition owner_gone :: "lsys \<Rightarrow> nat option option \<Rightarrow> bool" where
  "owner_gone s d \<longleftrightarrow> (case d of Some (Some q) \<Rightarrow> ls_pc s q = Gone | _ \<Rightarrow> False)"

lemma owner_gone_simps [simp]:
  "\<not> owner_gone s None" "\<not> owner_gone s (Some None)"
  "owner_gone s (Some (Some q)) \<longleftrightarrow> ls_pc s q = Gone"
  "owner_gone (dir_to s d') d = owner_gone s d"
  by (simp_all add: owner_gone_def split: option.split)

lemma owner_gone_at: "owner_gone s d \<Longrightarrow> ls_pc s p \<noteq> Gone \<or> c = Gone \<Longrightarrow> owner_gone (at s p c) d"
  by (auto simp: owner_gone_def split: option.splits)

definition serial_inv :: "lsys \<Rightarrow> bool" where
  "serial_inv s \<longleftrightarrow>
     (\<forall>p. ls_pc s p = Holding \<longrightarrow> ls_dir s = Some (Some p)) \<and>
     (\<forall>p. ls_pc s p = Made \<longrightarrow> ls_dir s = Some None) \<and>
     (\<forall>p q. ls_pc s p = Made \<and> ls_pc s q = Made \<longrightarrow> p = q) \<and>
     (\<forall>p. ls_pc s p = SawDead \<longrightarrow> owner_gone s (ls_dir s)) \<and>
     (\<forall>p c. ls_pc s p = Captured c \<longrightarrow> owner_gone s (Some c)) \<and>
     (\<forall>p c. ls_pc s p \<noteq> Restoring c) \<and>
     (\<forall>p q. reclaiming (ls_pc s p) \<and> reclaiming (ls_pc s q) \<longrightarrow> p = q)"

lemma reclaiming_simps [simp]:
  "reclaiming SawDead" "reclaiming (Captured x)" "reclaiming (Restoring x)"
  "\<not> reclaiming Trying" "\<not> reclaiming Made" "\<not> reclaiming Holding" "\<not> reclaiming Gone"
  by (simp_all add: reclaiming_def)

lemma serial_inv_holding: "serial_inv s \<Longrightarrow> ls_pc s p = Holding \<Longrightarrow> ls_dir s = Some (Some p)"
  by (simp add: serial_inv_def)

lemma serial_inv_init: "serial_inv init_lsys"
  by (simp add: serial_inv_def init_lsys_def)

lemma serial_inv_step: "serial_inv s \<Longrightarrow> lock_run serial_reclaim s t \<Longrightarrow> serial_inv t"
  unfolding lock_run_def
proof (elim exE conjE)
  fix p a
  assume inv: "serial_inv s" and ok: "serial_reclaim s p a" and st: "lock_step p a s t"
  from st inv ok show "serial_inv t"
  proof (cases rule: lock_step.cases)
    case mkdir
    with inv ok show ?thesis by (auto simp: serial_inv_def serial_reclaim_def owner_gone_at)
  next
    case (write_holder c)
    with inv ok show ?thesis by (auto simp: serial_inv_def serial_reclaim_def owner_gone_at)
  next
    case write_fails
    with inv ok show ?thesis by (auto simp: serial_inv_def serial_reclaim_def owner_gone_at)
  next
    case (read_dead q)
    with inv ok show ?thesis by (auto simp: serial_inv_def serial_reclaim_def owner_gone_at)
  next
    case (rename_away c)
    with inv ok show ?thesis by (auto simp: serial_inv_def serial_reclaim_def owner_gone_at)
  next
    case rename_lost
    with inv ok show ?thesis by (auto simp: serial_inv_def serial_reclaim_def owner_gone_at)
  next
    case (find_dead c)
    with inv ok show ?thesis by (auto simp: serial_inv_def serial_reclaim_def owner_gone_at)
  next
    case (find_live q)
    have "\<forall>p c. ls_pc s p = Captured c \<longrightarrow> owner_gone s (Some c)"
      using inv unfolding serial_inv_def by blast
    with find_live have "owner_gone s (Some (Some q))" by blast
    with find_live show ?thesis by simp
  next
    case (restore c)
    with inv ok show ?thesis by (auto simp: serial_inv_def serial_reclaim_def owner_gone_at)
  next
    case (drop c q)
    with inv ok show ?thesis by (auto simp: serial_inv_def serial_reclaim_def owner_gone_at)
  next
    case release
    have d: "ls_dir s = Some (Some p)" using inv release(3) by (rule serial_inv_holding)
    have one: "q = p" if "ls_pc s q = Holding" for q
      using serial_inv_holding [OF inv that] d by simp
    have made: "ls_pc s q \<noteq> Made" for q
    proof
      assume "ls_pc s q = Made"
      then have "ls_dir s = Some None" using inv unfolding serial_inv_def by blast
      then show False using d by simp
    qed
    have saw: "ls_pc s q \<noteq> SawDead" for q
    proof
      assume "ls_pc s q = SawDead"
      then have "owner_gone s (ls_dir s)" using inv unfolding serial_inv_def by blast
      then show False using d release(3) by simp
    qed
    have rest: "\<And>q c. ls_pc s q = Captured c \<Longrightarrow> owner_gone s (Some c)"
      "\<And>q c. ls_pc s q \<noteq> Restoring c"
      "\<And>q r. reclaiming (ls_pc s q) \<Longrightarrow> reclaiming (ls_pc s r) \<Longrightarrow> q = r"
      using inv unfolding serial_inv_def by blast+
    have "owner_gone (at s p Trying) (Some c)" if "ls_pc s q = Captured c" for q c
      by (rule owner_gone_at [OF rest(1) [OF that]]) (simp add: release(3))
    then show ?thesis
      unfolding release(2) serial_inv_def using one made saw rest(2,3) by auto
  next
    case crash
    with inv ok show ?thesis by (auto simp: serial_inv_def serial_reclaim_def owner_gone_at)
  qed
qed

interpretation serial_lock: invariant_system "\<lambda>s. s = init_lsys" "lock_run serial_reclaim" serial_inv
  by unfold_locales (auto intro: serial_inv_init serial_inv_step)

subsection \<open>Properties\<close>


lemma lock_run_anyI: "lock_step p a s t \<Longrightarrow> lock_run any_step s t"
  by (auto simp: lock_run_def any_step_def)

lemma reach_any: "lock_reach any_step s \<Longrightarrow> lock_step p a s t \<Longrightarrow> lock_reach any_step t"
  by (blast intro: reach_step lock_run_anyI)

lemma lock_run_serialI: "lock_step p a s t \<Longrightarrow> a \<noteq> ReadDead \<Longrightarrow> lock_run serial_reclaim s t"
  by (auto simp: lock_run_def serial_reclaim_def)

definition held_by_0 :: lsys where
  "held_by_0 = dir_to (at (dir_to (at init_lsys 0 Made) (Some None)) 0 Holding) (Some (Some 0))"

lemma reach_held_by_0:
  "reach (\<lambda>s. s = init_lsys) (lock_run f) (dir_to (at init_lsys 0 Made) (Some None)) \<Longrightarrow>
   (\<And>s t. lock_step 0 WriteHolder s t \<Longrightarrow> lock_run f s t) \<Longrightarrow> lock_reach f held_by_0"
  unfolding held_by_0_def
  by (erule reach_step) (simp add: lock_step.write_holder)


text \<open>The state of the race, step by step: the holder 0 dies; 1 and 2 both see it dead; 2
  reclaims and takes the lock; 1 captures 2's live lock; 3 takes the free path.\<close>

definition race0 :: lsys where "race0 = at held_by_0 0 Gone"
definition race1 :: lsys where "race1 = at (at race0 1 SawDead) 2 SawDead"
definition race2 :: lsys where "race2 = at (dir_to (at race1 2 (Captured (Some 0))) None) 2 Trying"
definition race3 :: lsys where
  "race3 = dir_to (at (dir_to (at race2 2 Made) (Some None)) 2 Holding) (Some (Some 2))"
definition race4 :: lsys where "race4 = dir_to (at race3 1 (Captured (Some 2))) None"
definition race5 :: lsys where
  "race5 = dir_to (at (dir_to (at race4 3 Made) (Some None)) 3 Holding) (Some (Some 3))"

lemmas race_defs = race0_def race1_def race2_def race3_def race4_def race5_def held_by_0_def init_lsys_def

lemma reach_race2: "lock_reach any_step race2"
proof -
  note st = reach_any
  have "lock_reach any_step held_by_0"
    by (rule reach_held_by_0 [OF st [OF reach_init lock_step.mkdir]])
      (auto simp: init_lsys_def intro: lock_run_anyI)
  then have "lock_reach any_step race0"
    unfolding race0_def by (rule st [OF _ lock_step.crash])
  then have "lock_reach any_step (at race0 1 SawDead)"
    by (rule st [OF _ lock_step.read_dead [where q = 0]]) (simp_all add: race_defs)
  then have "lock_reach any_step race1"
    unfolding race1_def by (rule st [OF _ lock_step.read_dead [where q = 0]]) (simp_all add: race_defs)
  then have "lock_reach any_step (dir_to (at race1 2 (Captured (Some 0))) None)"
    by (rule st [OF _ lock_step.rename_away]) (simp_all add: race_defs)
  then show ?thesis
    unfolding race2_def by (rule st [OF _ lock_step.find_dead]) (auto simp: race_defs)
qed

lemma reach_race5: "lock_reach any_step race5"
proof -
  note st = reach_any
  note reach_race2
  then have "lock_reach any_step (dir_to (at race2 2 Made) (Some None))"
    by (rule st [OF _ lock_step.mkdir]) (simp_all add: race_defs)
  then have "lock_reach any_step race3"
    unfolding race3_def by (rule st [OF _ lock_step.write_holder]) (simp_all add: race_defs)
  then have "lock_reach any_step race4"
    unfolding race4_def by (rule st [OF _ lock_step.rename_away]) (simp_all add: race_defs)
  then have "lock_reach any_step (dir_to (at race4 3 Made) (Some None))"
    by (rule st [OF _ lock_step.mkdir]) (simp_all add: race_defs)
  then show ?thesis
    unfolding race5_def by (rule st [OF _ lock_step.write_holder]) (simp_all add: race_defs)
qed




lemma acquire_loop_blocked:
  assumes "clock_advances H"
    and live: "\<And>x. heldByLiveOrUnknownPid H (lh_pid k) x"
    and stay: "\<And>w. dget (h_locks (hub w)) (lockDirFor name) = Some (Some k) \<Longrightarrow>
      dget (h_locks (hub (os_sleep H d w))) (lockDirFor name) = Some (Some k)"
  shows "dget (h_locks (hub w)) (lockDirFor name) = Some (Some k) \<Longrightarrow> dl < os_now H (ext w) + d * n \<Longrightarrow>
    \<exists>w'. acquire_loop H name d dl (Suc (Suc n)) w = (Inl (StoreE (LockTimeout name)), w') \<and>
      dget (h_locks (hub w')) (lockDirFor name) = Some (Some k)"
proof (induction n arbitrary: w)
  case 0
  then show ?case by (subst acquire_loop_live [OF _ live]) auto
next
  case (Suc n)
  show ?case
  proof (cases "dl < os_now H (ext w)")
    case True
    with Suc.prems(1) show ?thesis by (subst acquire_loop_live [OF _ live]) auto
  next
    case False
    have "os_now H (ext w) + d \<le> os_now H (ext (os_sleep H d w))"
      using assms(1) by (simp add: clock_advances_def)
    with Suc.prems(2) have "dl < os_now H (ext (os_sleep H d w)) + d * n" by simp
    from Suc.IH [OF stay [OF Suc.prems(1)] this] False Suc.prems(1) show ?thesis
      by (subst acquire_loop_live [OF _ live]) auto
  qed
qed


definition held_world :: "nat world" where
  "held_world = demo_world\<lparr>hub := (hub demo_world)\<lparr>h_locks :=
     [(''main-pane.lock'', Some \<lparr>lh_pid = 7, lh_acquiredAt = 0\<rparr>)]\<rparr>\<rparr>"


end
