(* ===== verification/FileStore.thy ===== *)
theory FileStore
  imports Lock
begin

text \<open>
  \<open>store/file-store.ts\<close>: the records of the hub as files.

  \<^item> The atomic write: the states a crash can leave behind, and that each of them reads as the
    old record or as the whole new one.
  \<^item> The operations of \<open>FileStore\<close>, on the hub.
  \<^item> The contracts the other components use: \<open>keyed_store\<close> (what a read returns after a
    write), \<open>record_files\<close> (every readable record lies in the file its id names) and
    \<open>mailbox_store\<close> (a message is unread, then read, and never lost), each interpreted here.
\<close>

subsection \<open>Reading and writing a record file\<close>

definition readJsonRecord :: "string \<Rightarrow> 'a jfile \<Rightarrow> error + 'a" where
  "readJsonRecord file j = (case j of Json x \<Rightarrow> Inr x | Torn \<Rightarrow> Inl (StoreE (CorruptRecord file)))"

lemma readJsonRecord_simps [simp]:
  "readJsonRecord f (Json x) = Inr x"
  "readJsonRecord f Torn = Inl (StoreE (CorruptRecord f))"
  "readJsonRecord f j = Inr x \<longleftrightarrow> j = Json x"
  by (simp_all add: readJsonRecord_def split: jfile.split)

text \<open>\<open>if (!existsSync(file)) return undefined; return readJsonRecord(file)\<close>.\<close>

definition readRecord :: "string \<Rightarrow> 'a jfile option \<Rightarrow> error + 'a option" where
  "readRecord file f = (case f of
       None \<Rightarrow> Inr None
     | Some j \<Rightarrow> (case readJsonRecord file j of Inl e \<Rightarrow> Inl e | Inr r \<Rightarrow> Inr (Some r)))"

lemma readRecord_simps [simp]:
  "readRecord f None = Inr None"
  "readRecord f (Some (Json r)) = Inr (Some r)"
  "readRecord f (Some Torn) = Inl (StoreE (CorruptRecord f))"
  "readRecord f x = Inr None \<longleftrightarrow> x = None"
  "readRecord f x = Inr (Some r) \<longleftrightarrow> x = Some (Json r)"
  by (auto simp: readRecord_def split: option.splits sum.splits jfile.splits)

lemma readRecord_Inl: "readRecord f x = Inl e \<longleftrightarrow> x = Some Torn \<and> e = StoreE (CorruptRecord f)"
  by (auto simp: readRecord_def readJsonRecord_def split: option.splits sum.splits jfile.splits)

definition is_json :: "string \<Rightarrow> bool" where
  "is_json f \<longleftrightarrow> ends_with f json"

text \<open>\<open>readdirSync(dir).filter(f => f.endsWith('.json')).map(readJsonRecord)\<close>.\<close>

definition readAll :: "string \<Rightarrow> (string, 'a jfile) dir \<Rightarrow> error + 'a list" where
  "readAll path d =
     mapE (\<lambda>(f, j). readJsonRecord (path_join path [f]) j) (filter (\<lambda>(f, _). is_json f) d)"

text \<open>
  \<open>writeFileAtomic\<close>: a temporary sibling, then a rename over the final name. The states are
  those before and after each system call, and the one in the middle of the write.
\<close>

definition tmpName :: "nat \<Rightarrow> nat \<Rightarrow> string \<Rightarrow> string" where
  "tmpName pid counter file = file @ ''.'' @ nat_str pid @ ''.'' @ nat_str counter @ ''.tmp''"

definition renameFile :: "string \<Rightarrow> string \<Rightarrow> (string, 'a) dir \<Rightarrow> (string, 'a) dir" where
  "renameFile a b d = (case dget d a of None \<Rightarrow> d | Some x \<Rightarrow> dput b x (ddel a d))"

definition write_states ::
  "nat \<Rightarrow> nat \<Rightarrow> string \<Rightarrow> 'a \<Rightarrow> (string, 'a jfile) dir \<Rightarrow> (string, 'a jfile) dir list" where
  "write_states pid counter file x d =
     (let tmp = tmpName pid counter file;
          torn = dput tmp Torn d;
          written = dput tmp (Json x) d
      in [d, torn, written, renameFile tmp file written])"

definition writeFileAtomic ::
  "nat \<Rightarrow> nat \<Rightarrow> string \<Rightarrow> 'a \<Rightarrow> (string, 'a jfile) dir \<Rightarrow> (string, 'a jfile) dir" where
  "writeFileAtomic pid counter file x d = last (write_states pid counter file x d)"

lemma last_app_tmp: "tmpName pid n f = g @ json \<Longrightarrow> False"
proof -
  assume a: "tmpName pid n f = g @ json"
  have "last (tmpName pid n f) = CHR ''p''" by (simp add: tmpName_def)
  moreover have "last (g @ json) = CHR ''n''" by (simp add: json_def)
  ultimately show False using a by simp
qed

lemma is_json_iff: "is_json f \<longleftrightarrow> (\<exists>g. f = g @ json)"
  by (auto simp: is_json_def ends_with_suffix suffix_def)

lemma tmpName_not_json [simp]: "\<not> is_json (tmpName pid n f)"
  using last_app_tmp by (auto simp: is_json_iff)

lemma is_json_id [simp]: "is_json (i @ json)"
  by (auto simp: is_json_iff)

lemma tmpName_neq [simp]: "tmpName pid n f \<noteq> f" "f \<noteq> tmpName pid n f"
  by (simp_all add: tmpName_def)

lemma dput_ddel_absent:
  "dget d t = None \<Longrightarrow> t \<noteq> k \<Longrightarrow> dput k v (ddel t (dput t y d)) = dput k v d"
proof (induction d)
  case Nil
  then show ?case by (simp add: ddel_def)
next
  case (Cons e d)
  obtain a b where e: "e = (a, b)" by (cases e)
  from Cons.prems e have t: "t \<noteq> a" "dget d t = None" by (auto simp: dget_Cons split: if_splits)
  have d: "ddel t (dput t y d) = d"
    using t(2) by (induction d) (auto simp: ddel_def dget_Cons split: if_splits)
  show ?case
    using Cons.IH [OF t(2) Cons.prems(2)] t e d by (auto simp: ddel_def)
qed

text \<open>What the operations below take the write to be: the whole entry, put in place.\<close>

lemma writeFileAtomic_dput:
  "dget d (tmpName pid n file) = None \<Longrightarrow> writeFileAtomic pid n file x d = dput file (Json x) d"
  by (simp add: writeFileAtomic_def write_states_def renameFile_def Let_def dput_ddel_absent)

lemma filter_dput_skip: "\<not> P k \<Longrightarrow> filter (\<lambda>(f, _). P f) (dput k v d) = filter (\<lambda>(f, _). P f) d"
  by (induction k v d rule: dput.induct) auto

lemma readAll_dput_tmp [simp]: "readAll p (dput (tmpName pid n f) v d) = readAll p d"
  by (simp add: readAll_def filter_dput_skip)

lemma readAll_writeFileAtomic:
  "dget d (tmpName pid n f) = None \<Longrightarrow>
   s \<in> set (write_states pid n f x d) \<Longrightarrow> readAll p s \<in> {readAll p d, readAll p (dput f (Json x) d)}"
  by (auto simp: write_states_def renameFile_def Let_def dput_ddel_absent)

text \<open>
  Errors of the path builders that a lookup takes for "not found".
\<close>

definition readPathOrUndefined :: "error + 'a \<Rightarrow> error + 'a option" where
  "readPathOrUndefined build = (case build of
       Inr p \<Rightarrow> Inr (Some p)
     | Inl (StoreE (InvalidId k i)) \<Rightarrow> Inr None
     | Inl e \<Rightarrow> Inl e)"

lemma readPathOrUndefined_simps [simp]:
  "readPathOrUndefined (Inr p) = Inr (Some p)"
  "readPathOrUndefined (Inl (StoreE (InvalidId k i))) = Inr None"
  by (simp_all add: readPathOrUndefined_def)

lemma assertSafeId_simps [simp]:
  "safe_id i \<Longrightarrow> assertSafeId i k = Inr i"
  "\<not> safe_id i \<Longrightarrow> assertSafeId i k = Inl (StoreE (InvalidId k i))"
  by (simp_all add: assertSafeId_def)

subsection \<open>Agents\<close>

definition agentsDir :: "hub \<Rightarrow> string" where
  "agentsDir h = path_join (h_root h) [''agents'']"

definition putAgent :: "agent \<Rightarrow> hub \<Rightarrow> error + hub" where
  "putAgent r h = (case agentFile (h_root h) (a_id r) of
       Inl e \<Rightarrow> Inl e
     | Inr _ \<Rightarrow> Inr (h\<lparr>h_agents := dput (a_id r @ json) (Json r) (h_agents h)\<rparr>))"

definition getAgent :: "string \<Rightarrow> hub \<Rightarrow> error + agent option" where
  "getAgent i h = (case readPathOrUndefined (agentFile (h_root h) i) of
       Inl e \<Rightarrow> Inl e
     | Inr None \<Rightarrow> Inr None
     | Inr (Some file) \<Rightarrow> readRecord file (dget (h_agents h) (i @ json)))"

definition listAgents :: "hub \<Rightarrow> error + agent list" where
  "listAgents h = (case readAll (agentsDir h) (h_agents h) of
       Inl e \<Rightarrow> Inl e | Inr rs \<Rightarrow> Inr (sort_key a_createdAt rs))"

definition removeAgent :: "string \<Rightarrow> hub \<Rightarrow> error + hub" where
  "removeAgent i h = (case agentFile (h_root h) i of
       Inl e \<Rightarrow> Inl e | Inr _ \<Rightarrow> Inr (h\<lparr>h_agents := ddel (i @ json) (h_agents h)\<rparr>))"

subsection \<open>Mailboxes\<close>

definition empty_mailbox :: mailbox where
  "empty_mailbox = \<lparr>mb_unread = [], mb_read = []\<rparr>"

definition mailboxOf :: "hub \<Rightarrow> string \<Rightarrow> mailbox" where
  "mailboxOf h i = defaultTo (dget (h_inbox h) i) empty_mailbox"

definition putMailbox :: "string \<Rightarrow> mailbox \<Rightarrow> hub \<Rightarrow> hub" where
  "putMailbox i b h = h\<lparr>h_inbox := dput i b (h_inbox h)\<rparr>"

definition putMessage :: "string \<Rightarrow> message \<Rightarrow> hub \<Rightarrow> error + hub" where
  "putMessage i m h = (case messageFile (h_root h) i (m_id m) of
       Inl e \<Rightarrow> Inl e
     | Inr _ \<Rightarrow>
         let b = mailboxOf h i
         in Inr (putMailbox i (b\<lparr>mb_unread := dput (m_id m @ json) (Json m) (mb_unread b)\<rparr>) h))"

definition listInbox :: "string \<Rightarrow> hub \<Rightarrow> error + (message list \<times> message list)" where
  "listInbox i h =
     (case readPathOrUndefined (inboxDir (h_root h) i) of Inl e \<Rightarrow> Inl e | Inr inbox \<Rightarrow>
      case readPathOrUndefined (inboxReadDir (h_root h) i) of Inl e \<Rightarrow> Inl e | Inr rd \<Rightarrow>
      case (case inbox of None \<Rightarrow> Inr [] | Some p \<Rightarrow> readAll p (mb_unread (mailboxOf h i))) of
        Inl e \<Rightarrow> Inl e | Inr unread \<Rightarrow>
      case (case rd of None \<Rightarrow> Inr [] | Some p \<Rightarrow> readAll p (mb_read (mailboxOf h i))) of
        Inl e \<Rightarrow> Inl e | Inr done \<Rightarrow> Inr (unread, done))"

definition ackMessage :: "string \<Rightarrow> string \<Rightarrow> hub \<Rightarrow> error + (message \<times> hub)" where
  "ackMessage i mid h =
     (case readPathOrUndefined (messageFile (h_root h) i mid) of
        Inl e \<Rightarrow> Inl e
      | Inr None \<Rightarrow> Inl (StoreE (NotUnread mid))
      | Inr (Some src) \<Rightarrow>
          let b = mailboxOf h i
          in case dget (mb_unread b) (mid @ json) of
            None \<Rightarrow> Inl (StoreE (NotUnread mid))
          | Some j \<Rightarrow> (case readJsonRecord src j of
              Inl e \<Rightarrow> Inl e
            | Inr m \<Rightarrow> (case messageReadFile (h_root h) i mid of
                Inl e \<Rightarrow> Inl e
              | Inr dest \<Rightarrow> Inr (m, putMailbox i
                  \<lparr>mb_unread = ddel (mid @ json) (mb_unread b),
                   mb_read = dput (mid @ json) j (mb_read b)\<rparr> h))))"

definition removeMessage :: "string \<Rightarrow> string \<Rightarrow> hub \<Rightarrow> error + hub" where
  "removeMessage i mid h =
     (let b = mailboxOf h i
      in case readPathOrUndefined (messageFile (h_root h) i mid) of
        Inl e \<Rightarrow> Inl e
      | Inr unread \<Rightarrow>
          if unread \<noteq> None \<and> dget (mb_unread b) (mid @ json) \<noteq> None
          then Inr (putMailbox i (b\<lparr>mb_unread := ddel (mid @ json) (mb_unread b)\<rparr>) h)
          else (case readPathOrUndefined (messageReadFile (h_root h) i mid) of
              Inl e \<Rightarrow> Inl e
            | Inr rd \<Rightarrow>
                if rd \<noteq> None \<and> dget (mb_read b) (mid @ json) \<noteq> None
                then Inr (putMailbox i (b\<lparr>mb_read := ddel (mid @ json) (mb_read b)\<rparr>) h)
                else Inl (StoreE (NotInInbox mid))))"

definition removeMailbox :: "string \<Rightarrow> hub \<Rightarrow> error + hub" where
  "removeMailbox i h = (case inboxDir (h_root h) i of
       Inl e \<Rightarrow> Inl e | Inr _ \<Rightarrow> Inr (h\<lparr>h_inbox := ddel i (h_inbox h)\<rparr>))"

subsection \<open>Projects and leases\<close>

definition projectsDir :: "hub \<Rightarrow> string" where
  "projectsDir h = path_join (h_root h) [''projects'']"

definition putProject :: "project \<Rightarrow> hub \<Rightarrow> error + hub" where
  "putProject r h = (case projectFile (h_root h) (p_id r) of
       Inl e \<Rightarrow> Inl e
     | Inr _ \<Rightarrow> Inr (h\<lparr>h_projects := dput (p_id r @ json) (Json r) (h_projects h)\<rparr>))"

definition getProject :: "string \<Rightarrow> hub \<Rightarrow> error + project option" where
  "getProject i h = (case readPathOrUndefined (projectFile (h_root h) i) of
       Inl e \<Rightarrow> Inl e
     | Inr None \<Rightarrow> Inr None
     | Inr (Some file) \<Rightarrow> readRecord file (dget (h_projects h) (i @ json)))"

definition listProjects :: "hub \<Rightarrow> error + project list" where
  "listProjects h = (case readAll (projectsDir h) (h_projects h) of
       Inl e \<Rightarrow> Inl e | Inr rs \<Rightarrow> Inr (sort_key p_registeredAt rs))"

definition putServiceLease :: "lease \<Rightarrow> hub \<Rightarrow> error + hub" where
  "putServiceLease l h = (case serviceLeaseFile (h_root h) (l_project l) (l_service l) of
       Inl e \<Rightarrow> Inl e
     | Inr _ \<Rightarrow> Inr (h\<lparr>h_leases := dput (l_project l, l_service l @ json) (Json l) (h_leases h)\<rparr>))"

definition getServiceLease :: "string \<Rightarrow> string \<Rightarrow> hub \<Rightarrow> error + lease option" where
  "getServiceLease p s h = (case readPathOrUndefined (serviceLeaseFile (h_root h) p s) of
       Inl e \<Rightarrow> Inl e
     | Inr None \<Rightarrow> Inr None
     | Inr (Some file) \<Rightarrow> readRecord file (dget (h_leases h) (p, s @ json)))"

subsection \<open>Panes, briefs, the main pane\<close>

definition paneKey :: "string \<Rightarrow> string" where
  "paneKey pane = sanitizePane pane @ ''.id''"

definition putPaneIndex :: "string \<Rightarrow> string \<Rightarrow> hub \<Rightarrow> hub" where
  "putPaneIndex pane agentId h = h\<lparr>h_panes := dput (paneKey pane) agentId (h_panes h)\<rparr>"

definition resolvePaneId :: "string \<Rightarrow> hub \<Rightarrow> string option" where
  "resolvePaneId pane h = map_option trim (dget (h_panes h) (paneKey pane))"

definition findPaneByAgentId :: "string \<Rightarrow> hub \<Rightarrow> string option" where
  "findPaneByAgentId agentId h =
     (case find (\<lambda>(f, i). ends_with f ''.id'' \<and> trim i = agentId) (h_panes h) of
        None \<Rightarrow> None
      | Some (f, i) \<Rightarrow> Some (take (length f - 3) f))"

definition removePaneIndex :: "string \<Rightarrow> hub \<Rightarrow> hub" where
  "removePaneIndex pane h = h\<lparr>h_panes := ddel (paneKey pane) (h_panes h)\<rparr>"

definition empty_data :: datadir where
  "empty_data = \<lparr>dd_brief = None, dd_shim = None\<rparr>"

definition writeBrief :: "string \<Rightarrow> string \<Rightarrow> hub \<Rightarrow> error + hub" where
  "writeBrief i t h = (case briefFile (h_root h) i of
       Inl e \<Rightarrow> Inl e
     | Inr _ \<Rightarrow> Inr (h\<lparr>h_data := dput i ((defaultTo (dget (h_data h) i) empty_data)\<lparr>dd_brief := Some t\<rparr>) (h_data h)\<rparr>))"

definition readBrief :: "string \<Rightarrow> hub \<Rightarrow> error + string option" where
  "readBrief i h = (case readPathOrUndefined (briefFile (h_root h) i) of
       Inl e \<Rightarrow> Inl e
     | Inr None \<Rightarrow> Inr None
     | Inr (Some _) \<Rightarrow> Inr (dd_brief (defaultTo (dget (h_data h) i) empty_data)))"

definition removeAgentData :: "string \<Rightarrow> hub \<Rightarrow> error + hub" where
  "removeAgentData i h = (case dataDir (h_root h) i of
       Inl e \<Rightarrow> Inl e | Inr _ \<Rightarrow> Inr (h\<lparr>h_data := ddel i (h_data h)\<rparr>))"

definition setMainPane :: "'x host \<Rightarrow> string option \<Rightarrow> ('x, unit) op" where
  "setMainPane H pane = withLock H ''main-pane'' (hubSet (\<lambda>h. h\<lparr>h_mainPane := truthy pane\<rparr>))"

definition getMainPane :: "hub \<Rightarrow> string option" where
  "getMainPane h = map_option trim (h_mainPane h)"

subsection \<open>Record directories\<close>

text \<open>Every record is readable and lies in the file its id names.\<close>

definition files_wf :: "('r \<Rightarrow> string) \<Rightarrow> (string, 'r jfile) dir \<Rightarrow> bool" where
  "files_wf key d \<longleftrightarrow> dir_wf d \<and>
     (\<forall>(f, j) \<in> set d. is_json f \<longrightarrow> (\<exists>r. j = Json r \<and> f = key r @ json \<and> safe_id (key r)))"

lemma files_wf_Nil [simp]: "files_wf key []"
  by (simp add: files_wf_def)

lemma files_wf_dput [simp]:
  "files_wf key d \<Longrightarrow> safe_id (key r) \<Longrightarrow> files_wf key (dput (key r @ json) (Json r) d)"
  by (auto simp: files_wf_def set_dput_wf)

lemma files_wf_dput':
  "files_wf key d \<Longrightarrow> safe_id k \<Longrightarrow> key r = k \<Longrightarrow> files_wf key (dput (k @ json) (Json r) d)"
  by auto

lemma files_wf_ddel [simp]: "files_wf key d \<Longrightarrow> files_wf key (ddel k d)"
  by (auto simp: files_wf_def set_ddel)

lemma files_wf_get:
  assumes "files_wf key d" "dget d (k @ json) = Some j"
  shows "\<exists>r. j = Json r \<and> key r = k \<and> safe_id k"
proof -
  have "(k @ json, j) \<in> set d" using assms(2) by (rule dget_Some_in_set)
  with assms(1) show ?thesis by (fastforce simp: files_wf_def)
qed

lemma files_wf_get_iff:
  "files_wf key d \<Longrightarrow> dget d (k @ json) = Some (Json r) \<longleftrightarrow> key r = k \<and> (key r @ json, Json r) \<in> set d"
  using files_wf_get [of key d k "Json r"] dget_in_set_iff [of d] by (auto simp: files_wf_def)

definition json_of :: "'a jfile \<Rightarrow> 'a" where
  "json_of j = (case j of Json x \<Rightarrow> x)"

lemma json_of_Json [simp]: "json_of (Json x) = x"
  by (simp add: json_of_def)

lemma readAll_wf:
  assumes wf: "files_wf key d"
  obtains rs where "readAll p d = Inr rs" "set rs = {r. dget d (key r @ json) = Some (Json r)}"
    "distinct (map key rs)"
proof -
  let ?es = "filter (\<lambda>(f, _). is_json f) d"
  let ?rs = "map (\<lambda>(f, j). json_of j) ?es"
  have e: "\<exists>r. j = Json r \<and> f = key r @ json" if "(f, j) \<in> set ?es" for f j
    using wf that by (auto simp: files_wf_def)
  have 1: "readAll p d = Inr ?rs"
    unfolding readAll_def by (rule mapE_total) (use e in fastforce)
  have "set ?rs = {r. (key r @ json, Json r) \<in> set d}"
  proof (intro set_eqI iffI)
    fix r assume "r \<in> set ?rs"
    then obtain f j where "(f, j) \<in> set ?es" "r = json_of j" by auto
    with e show "r \<in> {r. (key r @ json, Json r) \<in> set d}" by fastforce
  next
    fix r assume "r \<in> {r. (key r @ json, Json r) \<in> set d}"
    then have "(key r @ json, Json r) \<in> set ?es" by simp
    then show "r \<in> set ?rs" by force
  qed
  then have 2: "set ?rs = {r. dget d (key r @ json) = Some (Json r)}"
    using wf by (auto simp: files_wf_def dget_in_set_iff)
  have "map (\<lambda>r. key r @ json) ?rs = map fst ?es"
    unfolding map_map by (rule map_cong [OF refl]) (use e in fastforce)
  moreover have "distinct (map fst ?es)"
    using wf unfolding files_wf_def dir_wf_def by (meson distinct_map_filter)
  ultimately have "distinct (map (\<lambda>r. key r @ json) ?rs)" by metis
  then have 3: "distinct (map key ?rs)"
    by (auto simp: distinct_map inj_on_def)
  from 1 2 3 show thesis by (rule that)
qed

subsection \<open>The hub\<close>

definition lease_files_wf :: "(string \<times> string, lease jfile) dir \<Rightarrow> bool" where
  "lease_files_wf d \<longleftrightarrow> dir_wf d \<and>
     (\<forall>((p, f), j) \<in> set d. is_json f \<longrightarrow>
        (\<exists>l. j = Json l \<and> p = l_project l \<and> f = l_service l @ json \<and> safe_id p \<and> safe_id (l_service l)))"

definition mailbox_wf :: "mailbox \<Rightarrow> bool" where
  "mailbox_wf b \<longleftrightarrow> files_wf m_id (mb_unread b) \<and> files_wf m_id (mb_read b)"

definition hub_wf :: "hub \<Rightarrow> bool" where
  "hub_wf h \<longleftrightarrow> files_wf a_id (h_agents h) \<and> dir_wf (h_inbox h) \<and>
     (\<forall>(i, b) \<in> set (h_inbox h). safe_id i \<and> mailbox_wf b) \<and>
     files_wf p_id (h_projects h) \<and> lease_files_wf (h_leases h) \<and> dir_wf (h_panes h) \<and>
     dir_wf (h_data h) \<and> dir_wf (h_locks h)"

lemma mailbox_wf_empty [simp]: "mailbox_wf empty_mailbox"
  by (simp add: mailbox_wf_def empty_mailbox_def)

lemma hub_wf_mailbox: "hub_wf h \<Longrightarrow> mailbox_wf (mailboxOf h i)"
  by (auto simp: mailboxOf_def hub_wf_def defaultTo_def split: option.split dest!: dget_Some_in_set)

lemma hub_wf_empty [simp]: "hub_wf (empty_hub r)"
  by (simp add: hub_wf_def empty_hub_def lease_files_wf_def)

lemma lease_files_wf_dput:
  "lease_files_wf d \<Longrightarrow> safe_id (l_project l) \<Longrightarrow> safe_id (l_service l) \<Longrightarrow>
   lease_files_wf (dput (l_project l, l_service l @ json) (Json l) d)"
  by (auto simp: lease_files_wf_def set_dput_wf)

text \<open>The path builders accept exactly the safe ids.\<close>

lemma path_ok_simps:
  "(\<exists>p. agentFile root i = Inr p) \<longleftrightarrow> safe_id i"
  "(\<exists>p. projectFile root i = Inr p) \<longleftrightarrow> safe_id i"
  "(\<exists>p. inboxDir root i = Inr p) \<longleftrightarrow> safe_id i"
  "(\<exists>p. dataDir root i = Inr p) \<longleftrightarrow> safe_id i"
  "(\<exists>p. briefFile root i = Inr p) \<longleftrightarrow> safe_id i"
  "(\<exists>p. serviceLeaseFile root i s = Inr p) \<longleftrightarrow> safe_id i \<and> safe_id s"
  "(\<exists>p. messageFile root i m = Inr p) \<longleftrightarrow> safe_id i \<and> safe_id m"
  "(\<exists>p. messageReadFile root i m = Inr p) \<longleftrightarrow> safe_id i \<and> safe_id m"
  by (auto simp: agentFile_def projectFile_def inboxDir_def inboxReadDir_def dataDir_def briefFile_def
      serviceLeaseFile_def messageFile_def messageReadFile_def assertSafeId_def)

lemmas path_defs = agentFile_def projectFile_def inboxDir_def inboxReadDir_def dataDir_def briefFile_def
  serviceLeaseFile_def messageFile_def messageReadFile_def assertSafeId_def

text \<open>The reads, with the paths gone.\<close>

lemma getAgent_simp:
  "getAgent i h = (if safe_id i
     then readRecord (path_join (h_root h) [''agents'', i @ json]) (dget (h_agents h) (i @ json)) else Inr None)"
  by (simp add: getAgent_def path_defs)

lemma getProject_simp:
  "getProject i h = (if safe_id i
     then readRecord (path_join (h_root h) [''projects'', i @ json]) (dget (h_projects h) (i @ json)) else Inr None)"
  by (simp add: getProject_def path_defs)

lemma getServiceLease_simp:
  "getServiceLease p s h = (if safe_id p \<and> safe_id s
     then readRecord (path_join (h_root h) [''services'', p, s @ json]) (dget (h_leases h) (p, s @ json)) else Inr None)"
  by (simp add: getServiceLease_def path_defs)

lemma readBrief_simp:
  "readBrief i h = Inr (if safe_id i then dd_brief (defaultTo (dget (h_data h) i) empty_data) else None)"
  by (auto simp: readBrief_def path_defs)

lemma getAgent_Some:
  "getAgent i h = Inr (Some r) \<longleftrightarrow> safe_id i \<and> dget (h_agents h) (i @ json) = Some (Json r)"
  by (simp add: getAgent_simp)

lemma getProject_Some:
  "getProject i h = Inr (Some r) \<longleftrightarrow> safe_id i \<and> dget (h_projects h) (i @ json) = Some (Json r)"
  by (simp add: getProject_simp)

lemma getServiceLease_Some:
  "getServiceLease p s h = Inr (Some l) \<longleftrightarrow>
   safe_id p \<and> safe_id s \<and> dget (h_leases h) (p, s @ json) = Some (Json l)"
  by (auto simp: getServiceLease_simp)

lemma putAgent_simp:
  "putAgent r h = (if safe_id (a_id r) then Inr (h\<lparr>h_agents := dput (a_id r @ json) (Json r) (h_agents h)\<rparr>)
     else Inl (StoreE (InvalidId ''agent id'' (a_id r))))"
  by (simp add: putAgent_def path_defs)

lemma putProject_simp:
  "putProject r h = (if safe_id (p_id r) then Inr (h\<lparr>h_projects := dput (p_id r @ json) (Json r) (h_projects h)\<rparr>)
     else Inl (StoreE (InvalidId ''project id'' (p_id r))))"
  by (simp add: putProject_def path_defs)

lemma removeAgent_simp:
  "removeAgent i h = (if safe_id i then Inr (h\<lparr>h_agents := ddel (i @ json) (h_agents h)\<rparr>)
     else Inl (StoreE (InvalidId ''agent id'' i)))"
  by (simp add: removeAgent_def path_defs)

lemma removeMailbox_simp:
  "removeMailbox i h = (if safe_id i then Inr (h\<lparr>h_inbox := ddel i (h_inbox h)\<rparr>)
     else Inl (StoreE (InvalidId ''agent id'' i)))"
  by (simp add: removeMailbox_def path_defs)

lemma removeAgentData_simp:
  "removeAgentData i h = (if safe_id i then Inr (h\<lparr>h_data := ddel i (h_data h)\<rparr>)
     else Inl (StoreE (InvalidId ''agent id'' i)))"
  by (simp add: removeAgentData_def path_defs)

text \<open>Every write keeps the hub well formed.\<close>

lemma putAgent_wf: "hub_wf h \<Longrightarrow> putAgent r h = Inr h' \<Longrightarrow> hub_wf h'"
  by (auto simp: putAgent_simp hub_wf_def split: if_splits)

lemma removeAgent_wf: "hub_wf h \<Longrightarrow> removeAgent i h = Inr h' \<Longrightarrow> hub_wf h'"
  by (auto simp: removeAgent_simp hub_wf_def split: if_splits)

lemma putProject_wf: "hub_wf h \<Longrightarrow> putProject r h = Inr h' \<Longrightarrow> hub_wf h'"
  by (auto simp: putProject_simp hub_wf_def split: if_splits)

lemma putServiceLease_wf: "hub_wf h \<Longrightarrow> putServiceLease l h = Inr h' \<Longrightarrow> hub_wf h'"
  by (auto simp: putServiceLease_def path_defs hub_wf_def lease_files_wf_dput split: if_splits)

lemma putMailbox_wf: "hub_wf h \<Longrightarrow> safe_id i \<Longrightarrow> mailbox_wf b \<Longrightarrow> hub_wf (putMailbox i b h)"
  by (auto simp: hub_wf_def putMailbox_def set_dput_wf)

lemma putMessage_wf: "hub_wf h \<Longrightarrow> putMessage i m h = Inr h' \<Longrightarrow> hub_wf h'"
  using hub_wf_mailbox [of h i]
  by (auto simp: putMessage_def path_defs Let_def mailbox_wf_def intro!: putMailbox_wf split: if_splits)

lemma ackMessage_wf:
  assumes "hub_wf h" "ackMessage i mid h = Inr (m, h')"
  shows "hub_wf h'"
proof -
  have b: "files_wf m_id (mb_unread (mailboxOf h i))" "files_wf m_id (mb_read (mailboxOf h i))"
    using hub_wf_mailbox [OF assms(1)] by (simp_all add: mailbox_wf_def)
  from assms(2) have ok: "safe_id i" "safe_id mid"
    and get: "dget (mb_unread (mailboxOf h i)) (mid @ json) = Some (Json m)"
    and h': "h' = putMailbox i \<lparr>mb_unread = ddel (mid @ json) (mb_unread (mailboxOf h i)),
      mb_read = dput (mid @ json) (Json m) (mb_read (mailboxOf h i))\<rparr> h"
    by (auto simp: ackMessage_def path_defs Let_def split: if_splits option.splits sum.splits)
  have "m_id m = mid" using files_wf_get [OF b(1) get] by simp
  with b ok have "files_wf m_id (dput (mid @ json) (Json m) (mb_read (mailboxOf h i)))"
    by (simp add: files_wf_dput')
  with assms(1) ok b h' show ?thesis by (simp add: putMailbox_wf mailbox_wf_def)
qed

lemma removeMessage_wf: "hub_wf h \<Longrightarrow> removeMessage i mid h = Inr h' \<Longrightarrow> hub_wf h'"
  using hub_wf_mailbox [of h i]
  by (auto simp: removeMessage_def path_defs Let_def mailbox_wf_def intro!: putMailbox_wf split: if_splits)

lemma removeMailbox_wf: "hub_wf h \<Longrightarrow> removeMailbox i h = Inr h' \<Longrightarrow> hub_wf h'"
  by (auto simp: removeMailbox_simp hub_wf_def set_ddel split: if_splits)

lemma removeAgentData_wf: "hub_wf h \<Longrightarrow> removeAgentData i h = Inr h' \<Longrightarrow> hub_wf h'"
  by (auto simp: removeAgentData_simp hub_wf_def split: if_splits)

lemma writeBrief_wf: "hub_wf h \<Longrightarrow> writeBrief i t h = Inr h' \<Longrightarrow> hub_wf h'"
  by (auto simp: writeBrief_def path_defs hub_wf_def split: if_splits)

lemma hub_wf_simple [simp]:
  "hub_wf h \<Longrightarrow> hub_wf (putPaneIndex p i h)" "hub_wf h \<Longrightarrow> hub_wf (removePaneIndex p h)"
  "hub_wf h \<Longrightarrow> hub_wf (ensureMarker h)" "hub_wf h \<Longrightarrow> hub_wf (releaseLock n h)"
  "hub_wf (h\<lparr>h_mainPane := x\<rparr>) = hub_wf h"
  by (simp_all add: hub_wf_def putPaneIndex_def removePaneIndex_def releaseLock_def)

text \<open>Other processes keep the hub well formed while this one sleeps.\<close>

definition others_wf :: "'x host \<Rightarrow> bool" where
  "others_wf H \<longleftrightarrow> (\<forall>ms w. hub_wf (hub w) \<longrightarrow> hub_wf (hub (os_sleep H ms w)))"

abbreviation wf_op :: "('x, 'a) op \<Rightarrow> bool" where
  "wf_op m \<equiv> preserves (\<lambda>w. hub_wf (hub w)) m"

lemma hub_wf_locks: "hub_wf h \<Longrightarrow> dir_wf d \<Longrightarrow> hub_wf (h\<lparr>h_locks := d\<rparr>)"
  by (simp add: hub_wf_def)

lemma hub_wf_locksD: "hub_wf h \<Longrightarrow> dir_wf (h_locks h)"
  by (simp add: hub_wf_def)

text \<open>A predicate of the hub that neither the lock directories nor other processes break.\<close>

lemma tryReclaimStale_pres:
  assumes "\<And>h d. P h \<Longrightarrow> (dir_wf (h_locks h) \<longrightarrow> dir_wf d) \<Longrightarrow> P (h\<lparr>h_locks := d\<rparr>)" "P (hub w)"
  shows "P (hub (snd (tryReclaimStale H dir w)))"
  using assms(2) by (auto simp: tryReclaimStale_def Let_def intro!: assms(1) split: option.splits)

lemma acquire_loop_pres:
  assumes locks: "\<And>h d. P h \<Longrightarrow> (dir_wf (h_locks h) \<longrightarrow> dir_wf d) \<Longrightarrow> P (h\<lparr>h_locks := d\<rparr>)"
    and others: "\<And>ms w. P (hub w) \<Longrightarrow> P (hub (os_sleep H ms w))"
  shows "P (hub w) \<Longrightarrow> P (hub (snd (acquire_loop H name dly dl n w)))"
proof (induction n arbitrary: w)
  case 0
  then show ?case by simp
next
  case (Suc n)
  have "P (hub (snd (tryReclaimStale H (lockDirFor name) w)))"
    by (rule tryReclaimStale_pres [OF locks Suc.prems])
  then show ?case
    using Suc by (auto simp: Let_def locks others split: option.splits prod.splits if_splits)
qed

lemma pres_withLock:
  assumes locks: "\<And>h d. P h \<Longrightarrow> (dir_wf (h_locks h) \<longrightarrow> dir_wf d) \<Longrightarrow> P (h\<lparr>h_locks := d\<rparr>)"
    and others: "\<And>ms w. P (hub w) \<Longrightarrow> P (hub (os_sleep H ms w))"
    and fn: "preserves (\<lambda>w. P (hub w)) fn"
  shows "preserves (\<lambda>w. P (hub w)) (withLock H name fn)"
proof -
  have "preserves (\<lambda>w. P (hub w)) (acquireLock H name)"
    by (simp add: preserves_def acquireLock_def acquire_loop_pres [of P, OF locks others])
  moreover have "P (releaseLock name h)" if "P h" for h
    using that locks by (simp add: releaseLock_def)
  ultimately show ?thesis
    unfolding withLock_def by (intro pres fn)
qed

lemma wf_withLock [pres]:
  assumes "others_wf H" "wf_op fn"
  shows "wf_op (withLock H name fn)"
  by (rule pres_withLock [OF _ _ assms(2)])
    (use assms(1) in \<open>auto simp: hub_wf_locks hub_wf_locksD others_wf_def\<close>)

lemma wf_setMainPane [pres]: "others_wf H \<Longrightarrow> wf_op (setMainPane H p)"
  unfolding setMainPane_def by (intro pres) simp_all

text \<open>Other processes keep a predicate of the hub while this one sleeps.\<close>

definition sleep_keeps :: "'x host \<Rightarrow> (hub \<Rightarrow> bool) \<Rightarrow> bool" where
  "sleep_keeps H P \<longleftrightarrow> (\<forall>ms w. P (hub w) \<longrightarrow> P (hub (os_sleep H ms w)))"

abbreviation hub_op :: "(hub \<Rightarrow> bool) \<Rightarrow> ('x, 'a) op \<Rightarrow> bool" where
  "hub_op P m \<equiv> preserves (\<lambda>w. P (hub w)) m"

lemma others_wf_keeps [pres]: "others_wf H \<Longrightarrow> sleep_keeps H hub_wf"
  by (simp add: others_wf_def sleep_keeps_def)

lemma hub_op_sleep [pres]: "sleep_keeps H P \<Longrightarrow> hub_op P (sleep H ms)"
  by (simp add: preserves_def sleep_run sleep_keeps_def)

lemma wf_sleep [pres]: "others_wf H \<Longrightarrow> wf_op (sleep H ms)"
  by (simp add: preserves_def sleep_run others_wf_def)

lemma wf_hubStep [pres]:
  "(\<And>h x h'. hub_wf h \<Longrightarrow> f h = Inr (x, h') \<Longrightarrow> hub_wf h') \<Longrightarrow> wf_op (hubStep f)"
  by (auto simp: preserves_def hubStep_def split: sum.split prod.split)

lemmas store_wf = putAgent_wf removeAgent_wf putProject_wf putServiceLease_wf putMessage_wf
  ackMessage_wf removeMessage_wf removeMailbox_wf removeAgentData_wf writeBrief_wf

subsection \<open>The keyed stores\<close>

text \<open>What a client of a record store relies on.\<close>

locale keyed_store =
  fixes put :: "'r \<Rightarrow> 's \<Rightarrow> error + 's"
    and get :: "'k \<Rightarrow> 's \<Rightarrow> error + 'r option"
    and key :: "'r \<Rightarrow> 'k"
    and valid :: "'k \<Rightarrow> bool"
  assumes put_valid: "(\<exists>h'. put r h = Inr h') \<longleftrightarrow> valid (key r)"
    and get_put: "put r h = Inr h' \<Longrightarrow> get k h' = (if k = key r then Inr (Some r) else get k h)"
    and get_invalid: "\<not> valid k \<Longrightarrow> get k h = Inr None"
begin

lemma get_put_same: "put r h = Inr h' \<Longrightarrow> get (key r) h' = Inr (Some r)"
  by (simp add: get_put)

lemma get_put_other: "put r h = Inr h' \<Longrightarrow> k \<noteq> key r \<Longrightarrow> get k h' = get k h"
  by (simp add: get_put)

lemma put_total: "valid (key r) \<Longrightarrow> \<exists>h'. put r h = Inr h'"
  by (simp add: put_valid)

lemma put_put:
  "put r h = Inr h1 \<Longrightarrow> put r' h1 = Inr h2 \<Longrightarrow> key r' = key r \<Longrightarrow> put r' h = Inr h3 \<Longrightarrow>
   get k h2 = get k h3"
  by (simp add: get_put)

lemma put_commute:
  "put r h = Inr h1 \<Longrightarrow> put r' h1 = Inr h2 \<Longrightarrow> put r' h = Inr h3 \<Longrightarrow> put r h3 = Inr h4 \<Longrightarrow>
   key r \<noteq> key r' \<Longrightarrow> get k h2 = get k h4"
  by (simp add: get_put)

text \<open>A sequence of writes: the last write of a key is what is read.\<close>

fun putAll :: "'r list \<Rightarrow> 's \<Rightarrow> error + 's" where
  "putAll [] h = Inr h"
| "putAll (r # rs) h = (case put r h of Inl e \<Rightarrow> Inl e | Inr h' \<Rightarrow> putAll rs h')"

lemma get_putAll:
  "putAll rs h = Inr h' \<Longrightarrow>
   get k h' = (case find (\<lambda>r. key r = k) (rev rs) of Some r \<Rightarrow> Inr (Some r) | None \<Rightarrow> get k h)"
proof (induction rs arbitrary: h)
  case Nil
  then show ?case by simp
next
  case (Cons r rs)
  then obtain h1 where h1: "put r h = Inr h1" "putAll rs h1 = Inr h'" by (auto split: sum.splits)
  have f: "find P (xs @ [r]) = or_else (find P xs) (if P r then Some r else None)" for P xs
    by (induction xs) auto
  from Cons.IH [OF h1(2)] get_put [OF h1(1)] show ?case
    by (auto simp: f split: option.splits)
qed

end

interpretation agent_store: keyed_store putAgent getAgent a_id safe_id
  by unfold_locales (auto simp: putAgent_simp getAgent_simp dget_dput split: if_splits)

interpretation project_store: keyed_store putProject getProject p_id safe_id
  by unfold_locales (auto simp: putProject_simp getProject_simp dget_dput split: if_splits)

definition lease_key :: "lease \<Rightarrow> string \<times> string" where
  "lease_key l = (l_project l, l_service l)"

definition valid_lease_key :: "string \<times> string \<Rightarrow> bool" where
  "valid_lease_key k \<longleftrightarrow> safe_id (fst k) \<and> safe_id (snd k)"

lemma putServiceLease_simp:
  "putServiceLease l h =
     (if \<not> safe_id (l_project l) then Inl (StoreE (InvalidId ''project id'' (l_project l)))
      else if \<not> safe_id (l_service l) then Inl (StoreE (InvalidId ''service name'' (l_service l)))
      else Inr (h\<lparr>h_leases := dput (l_project l, l_service l @ json) (Json l) (h_leases h)\<rparr>))"
  by (simp add: putServiceLease_def path_defs)

interpretation lease_store: keyed_store putServiceLease "\<lambda>(p, s). getServiceLease p s" lease_key valid_lease_key
  by unfold_locales
    (auto simp: putServiceLease_simp getServiceLease_simp dget_dput lease_key_def valid_lease_key_def
      split: if_splits)

text \<open>A listing of agents: exactly the stored records, oldest first.\<close>

lemma listAgents_wf:
  assumes "hub_wf h"
  obtains rs where "listAgents h = Inr rs" "set rs = {r. getAgent (a_id r) h = Inr (Some r)}"
    "distinct (map a_id rs)" "sorted (map a_createdAt rs)"
proof -
  have wf: "files_wf a_id (h_agents h)" using assms by (simp add: hub_wf_def)
  obtain rs where rs: "readAll (agentsDir h) (h_agents h) = Inr rs"
    "set rs = {r. dget (h_agents h) (a_id r @ json) = Some (Json r)}" "distinct (map a_id rs)" by (rule readAll_wf [OF wf])
  have "dget (h_agents h) (a_id r @ json) = Some (Json r) \<longleftrightarrow> getAgent (a_id r) h = Inr (Some r)" for r
    using files_wf_get [OF wf, of "a_id r" "Json r"] by (auto simp: getAgent_Some)
  then have s: "set (sort_key a_createdAt rs) = {r. getAgent (a_id r) h = Inr (Some r)}"
    using rs(2) by simp
  have d: "distinct (map a_id (sort_key a_createdAt rs))"
    using rs(3) by (simp add: distinct_map)
  show thesis
    by (rule that [OF _ s d]) (simp_all add: listAgents_def rs(1))
qed

lemma listAgents_in:
  "hub_wf h \<Longrightarrow> listAgents h = Inr rs \<Longrightarrow> r \<in> set rs \<longleftrightarrow> getAgent (a_id r) h = Inr (Some r)"
  by (erule listAgents_wf [of h]) auto

lemma getAgent_wf_id: "hub_wf h \<Longrightarrow> getAgent i h = Inr (Some r) \<Longrightarrow> a_id r = i \<and> safe_id i"
  using files_wf_get [of a_id "h_agents h" i "Json r"] by (simp add: hub_wf_def getAgent_Some)

lemma getAgent_wf_total: "hub_wf h \<Longrightarrow> \<exists>r. getAgent i h = Inr r"
  using files_wf_get [of a_id "h_agents h" i]
  by (cases "getAgent i h") (auto simp: hub_wf_def getAgent_simp readRecord_Inl split: if_splits)

lemma listProjects_wf:
  assumes "hub_wf h"
  obtains rs where "listProjects h = Inr rs" "set rs = {r. getProject (p_id r) h = Inr (Some r)}"
    "distinct (map p_id rs)" "sorted (map p_registeredAt rs)"
proof -
  have wf: "files_wf p_id (h_projects h)" using assms by (simp add: hub_wf_def)
  obtain rs where rs: "readAll (projectsDir h) (h_projects h) = Inr rs"
    "set rs = {r. dget (h_projects h) (p_id r @ json) = Some (Json r)}" "distinct (map p_id rs)" by (rule readAll_wf [OF wf])
  have "dget (h_projects h) (p_id r @ json) = Some (Json r) \<longleftrightarrow> getProject (p_id r) h = Inr (Some r)" for r
    using files_wf_get [OF wf, of "p_id r" "Json r"] by (auto simp: getProject_Some)
  then have s: "set (sort_key p_registeredAt rs) = {r. getProject (p_id r) h = Inr (Some r)}"
    using rs(2) by simp
  have d: "distinct (map p_id (sort_key p_registeredAt rs))"
    using rs(3) by (simp add: distinct_map)
  show thesis
    by (rule that [OF _ s d]) (simp_all add: listProjects_def rs(1))
qed

lemma getProject_wf_id: "hub_wf h \<Longrightarrow> getProject i h = Inr (Some r) \<Longrightarrow> p_id r = i \<and> safe_id i"
  using files_wf_get [of p_id "h_projects h" i "Json r"] by (simp add: hub_wf_def getProject_Some)

lemma getProject_wf_total: "hub_wf h \<Longrightarrow> \<exists>r. getProject i h = Inr r"
  using files_wf_get [of p_id "h_projects h" i]
  by (cases "getProject i h") (auto simp: hub_wf_def getProject_simp readRecord_Inl split: if_splits)

lemma getServiceLease_wf:
  assumes "hub_wf h" "getServiceLease p s h = Inr (Some l)"
  shows "l_project l = p \<and> l_service l = s \<and> safe_id p \<and> safe_id s"
proof -
  from assms(2) have "((p, s @ json), Json l) \<in> set (h_leases h)"
    by (auto simp: getServiceLease_Some dest: dget_Some_in_set)
  with assms(1) show ?thesis by (fastforce simp: hub_wf_def lease_files_wf_def)
qed

subsection \<open>Mailboxes\<close>

lemma mailboxOf_put [simp]: "mailboxOf (putMailbox i b h) j = (if j = i then b else mailboxOf h j)"
  by (simp add: mailboxOf_def putMailbox_def dget_dput)

lemma h_root_putMailbox [simp]: "h_root (putMailbox i b h) = h_root h"
  by (simp add: putMailbox_def)

definition unreadOf :: "string \<Rightarrow> hub \<Rightarrow> message list" where
  "unreadOf i h = (case listInbox i h of Inl e \<Rightarrow> [] | Inr (un, rd) \<Rightarrow> un)"

definition readOf :: "string \<Rightarrow> hub \<Rightarrow> message list" where
  "readOf i h = (case listInbox i h of Inl e \<Rightarrow> [] | Inr (un, rd) \<Rightarrow> rd)"

definition filed :: "(string, message jfile) dir \<Rightarrow> message set" where
  "filed d = {m. dget d (m_id m @ json) = Some (Json m)}"

lemma filed_dput: "safe_id (m_id m) \<Longrightarrow> filed (dput (m_id m @ json) (Json m) d) = insert m {x \<in> filed d. m_id x \<noteq> m_id m}"
  by (auto simp: filed_def dget_dput)

lemma filed_ddel: "filed (ddel (k @ json) d) = {x \<in> filed d. m_id x \<noteq> k}"
  by (auto simp: filed_def dget_ddel)

lemma filed_unique: "m \<in> filed d \<Longrightarrow> m' \<in> filed d \<Longrightarrow> m_id m = m_id m' \<Longrightarrow> m = m'"
  by (auto simp: filed_def)

lemma listInbox_wf:
  assumes "hub_wf h" "safe_id i"
  obtains un r where "listInbox i h = Inr (un, r)"
    "set un = filed (mb_unread (mailboxOf h i))" "set r = filed (mb_read (mailboxOf h i))"
    "distinct (map m_id un)" "distinct (map m_id r)"
proof -
  have b: "files_wf m_id (mb_unread (mailboxOf h i))" "files_wf m_id (mb_read (mailboxOf h i))"
    using hub_wf_mailbox [OF assms(1)] by (simp_all add: mailbox_wf_def)
  obtain un where u: "readAll (path_join (h_root h) [''inbox'', i]) (mb_unread (mailboxOf h i)) = Inr un"
    "set un = filed (mb_unread (mailboxOf h i))" "distinct (map m_id un)"
    unfolding filed_def by (rule readAll_wf [OF b(1)])
  obtain r where r: "readAll (path_join (h_root h) [''inbox'', i, ''read'']) (mb_read (mailboxOf h i)) = Inr r"
    "set r = filed (mb_read (mailboxOf h i))" "distinct (map m_id r)"
    unfolding filed_def by (rule readAll_wf [OF b(2)])
  show thesis
    by (rule that [OF _ u(2) r(2) u(3) r(3)]) (simp add: listInbox_def path_defs assms(2) u(1) r(1))
qed

lemma unreadOf_wf: "hub_wf h \<Longrightarrow> safe_id i \<Longrightarrow> set (unreadOf i h) = filed (mb_unread (mailboxOf h i))"
  by (erule listInbox_wf) (auto simp: unreadOf_def)

lemma readOf_wf: "hub_wf h \<Longrightarrow> safe_id i \<Longrightarrow> set (readOf i h) = filed (mb_read (mailboxOf h i))"
  by (erule listInbox_wf) (auto simp: readOf_def)

lemma listInbox_unsafe: "\<not> safe_id i \<Longrightarrow> listInbox i h = Inr ([], [])"
  by (simp add: listInbox_def path_defs)

text \<open>
  What a client of a mailbox relies on. Delivering files a message under its id; acking moves
  the message of that id from unread to read, and fails only if there is none.
\<close>

datatype mail_act = Deliver message | Ack string

locale mailbox_store =
  fixes deliver :: "message \<Rightarrow> 's \<Rightarrow> error + 's"
    and ack :: "string \<Rightarrow> 's \<Rightarrow> error + message \<times> 's"
    and unread :: "'s \<Rightarrow> message list"
    and readm :: "'s \<Rightarrow> message list"
    and ok :: "'s \<Rightarrow> bool"
    and valid :: "string \<Rightarrow> bool"
  assumes deliver_valid: "valid (m_id m) \<Longrightarrow> \<exists>h'. deliver m h = Inr h'"
    and deliver_ok: "ok h \<Longrightarrow> deliver m h = Inr h' \<Longrightarrow> ok h'"
    and deliver_unread: "ok h \<Longrightarrow> deliver m h = Inr h' \<Longrightarrow>
      set (unread h') = insert m {x \<in> set (unread h). m_id x \<noteq> m_id m}"
    and deliver_read: "ok h \<Longrightarrow> deliver m h = Inr h' \<Longrightarrow> set (readm h') = set (readm h)"
    and ack_ok: "ok h \<Longrightarrow> ack k h = Inr (m, h') \<Longrightarrow> ok h' \<and> m \<in> set (unread h) \<and> m_id m = k"
    and ack_unread: "ok h \<Longrightarrow> ack k h = Inr (m, h') \<Longrightarrow>
      set (unread h') = {x \<in> set (unread h). m_id x \<noteq> k}"
    and ack_read: "ok h \<Longrightarrow> ack k h = Inr (m, h') \<Longrightarrow>
      set (readm h') = insert m {x \<in> set (readm h). m_id x \<noteq> k}"
    and ack_fails: "ok h \<Longrightarrow> ack k h = Inl e \<Longrightarrow> m \<in> set (unread h) \<Longrightarrow> m_id m \<noteq> k"
    and unread_unique: "ok h \<Longrightarrow> m \<in> set (unread h) \<Longrightarrow> m' \<in> set (unread h) \<Longrightarrow> m_id m = m_id m' \<Longrightarrow> m = m'"
begin

text \<open>A history of the mailbox. A failed operation changes nothing.\<close>

fun runMail :: "mail_act list \<Rightarrow> 's \<Rightarrow> 's" where
  "runMail [] h = h"
| "runMail (Deliver m # as) h = (case deliver m h of Inl e \<Rightarrow> runMail as h | Inr h' \<Rightarrow> runMail as h')"
| "runMail (Ack k # as) h = (case ack k h of Inl e \<Rightarrow> runMail as h | Inr (m, h') \<Rightarrow> runMail as h')"

fun delivered :: "mail_act list \<Rightarrow> message list" where
  "delivered [] = []"
| "delivered (Deliver m # as) = m # delivered as"
| "delivered (Ack k # as) = delivered as"

definition all_mail :: "'s \<Rightarrow> message set" where
  "all_mail h = set (unread h) \<union> set (readm h)"

definition apart :: "'s \<Rightarrow> bool" where
  "apart h \<longleftrightarrow> m_id ` set (unread h) \<inter> m_id ` set (readm h) = {}"

lemma deliver_all:
  assumes "ok h" "deliver m h = Inr h'" "m_id m \<notin> m_id ` all_mail h"
  shows "all_mail h' = insert m (all_mail h) \<and> (apart h \<longrightarrow> apart h')"
proof -
  have "m_id x \<noteq> m_id m" if "x \<in> set (unread h)" for x
    using assms(3) that by (metis UnI1 all_mail_def image_eqI)
  then have "{x \<in> set (unread h). m_id x \<noteq> m_id m} = set (unread h)" by auto
  then have u: "set (unread h') = insert m (set (unread h))"
    using deliver_unread [OF assms(1,2)] by simp
  note r = deliver_read [OF assms(1,2)]
  have "m_id m \<notin> m_id ` set (readm h)" using assms(3) by (auto simp: all_mail_def)
  with u r show ?thesis by (simp add: all_mail_def apart_def)
qed

lemma ack_all:
  assumes "ok h" "apart h" "ack k h = Inr (m, h')"
  shows "all_mail h' = all_mail h \<and> apart h'"
proof -
  from ack_ok [OF assms(1,3)] have m: "m \<in> set (unread h)" and k: "m_id m = k" by auto
  have one: "x = m" if "x \<in> set (unread h)" "m_id x = k" for x
    by (rule unread_unique [OF assms(1) that(1) m]) (simp add: that(2) k)
  then have "{x \<in> set (unread h). m_id x \<noteq> k} = set (unread h) - {m}"
    using k by auto
  then have u: "set (unread h') = set (unread h) - {m}" using ack_unread [OF assms(1,3)] by simp
  have "k \<in> m_id ` set (unread h)" using m k by blast
  then have nk: "k \<notin> m_id ` set (readm h)" using assms(2) unfolding apart_def by blast
  then have "{x \<in> set (readm h). m_id x \<noteq> k} = set (readm h)" by auto
  then have r: "set (readm h') = insert m (set (readm h))" using ack_read [OF assms(1,3)] by simp
  have "k \<notin> m_id ` (set (unread h) - {m})"
    using one by auto
  with assms(2) nk have "apart h'" unfolding apart_def u r by (auto simp: k)
  moreover have "all_mail h' = all_mail h" unfolding all_mail_def u r using m by blast
  ultimately show ?thesis by simp
qed

lemma nothing_lost:
  assumes "ok h" "apart h"
    and "\<forall>m \<in> set (delivered as). valid (m_id m)"
    and "distinct (map m_id (delivered as))"
    and "m_id ` set (delivered as) \<inter> m_id ` all_mail h = {}"
  shows "all_mail (runMail as h) = all_mail h \<union> set (delivered as) \<and> apart (runMail as h)"
  using assms
proof (induction as arbitrary: h)
  case Nil
  then show ?case by simp
next
  case (Cons a as)
  show ?case
  proof (cases a)
    case (Deliver m)
    with Cons.prems(3) obtain h' where h': "deliver m h = Inr h'" using deliver_valid by fastforce
    have "m_id m \<notin> m_id ` all_mail h" using Cons.prems(5) Deliver by auto
    note step = deliver_all [OF Cons.prems(1) h' this]
    have "all_mail (runMail as h') = all_mail h' \<union> set (delivered as) \<and> apart (runMail as h')"
      by (rule Cons.IH) (use Cons.prems Deliver step deliver_ok [OF Cons.prems(1) h'] in auto)
    with Deliver h' step show ?thesis by auto
  next
    case (Ack k)
    show ?thesis
    proof (cases "ack k h")
      case (Inl e)
      with Cons Ack show ?thesis by simp
    next
      case (Inr mh)
      then obtain m h' where h': "ack k h = Inr (m, h')" by (cases mh) auto
      note step = ack_all [OF Cons.prems(1,2) h']
      have "all_mail (runMail as h') = all_mail h' \<union> set (delivered as) \<and> apart (runMail as h')"
        by (rule Cons.IH) (use Cons.prems Ack step ack_ok [OF Cons.prems(1) h'] in auto)
      with Ack h' step show ?thesis by simp
    qed
  qed
qed

lemma ack_once:
  assumes "ok h" "ack k h = Inr (m, h')"
  shows "\<exists>e. ack k h' = Inl e"
proof (cases "ack k h'")
  case (Inl e)
  then show ?thesis by blast
next
  case (Inr mh)
  obtain m' h2 where mh: "mh = (m', h2)" by (cases mh)
  have "ok h'" using ack_ok [OF assms] by simp
  from ack_ok [OF this] Inr mh have "m' \<in> set (unread h')" "m_id m' = k" by blast+
  then show ?thesis using ack_unread [OF assms] by simp
qed

end

definition mail_ok :: "string \<Rightarrow> hub \<Rightarrow> bool" where
  "mail_ok i h \<longleftrightarrow> hub_wf h \<and> safe_id i"

lemma putMessage_simp:
  "putMessage i m h =
     (if \<not> safe_id i then Inl (StoreE (InvalidId ''agent id'' i))
      else if \<not> safe_id (m_id m) then Inl (StoreE (InvalidId ''message id'' (m_id m)))
      else Inr (putMailbox i ((mailboxOf h i)
        \<lparr>mb_unread := dput (m_id m @ json) (Json m) (mb_unread (mailboxOf h i))\<rparr>) h))"
  by (simp add: putMessage_def path_defs Let_def)

lemma ackMessage_simp:
  "ackMessage i k h =
     (if safe_id i \<and> safe_id k then (case dget (mb_unread (mailboxOf h i)) (k @ json) of
         None \<Rightarrow> Inl (StoreE (NotUnread k))
       | Some Torn \<Rightarrow> Inl (StoreE (CorruptRecord (path_join (path_join (h_root h) [''inbox'', i]) [k @ json])))
       | Some (Json m) \<Rightarrow> Inr (m, putMailbox i \<lparr>mb_unread = ddel (k @ json) (mb_unread (mailboxOf h i)),
           mb_read = dput (k @ json) (Json m) (mb_read (mailboxOf h i))\<rparr> h))
      else Inl (StoreE (NotUnread k)))"
  by (auto simp: ackMessage_def path_defs Let_def split: option.split jfile.split)

lemma ackMessage_Inr:
  "ackMessage i k h = Inr (m, h') \<longleftrightarrow> safe_id i \<and> safe_id k \<and>
     dget (mb_unread (mailboxOf h i)) (k @ json) = Some (Json m) \<and>
     h' = putMailbox i \<lparr>mb_unread = ddel (k @ json) (mb_unread (mailboxOf h i)),
        mb_read = dput (k @ json) (Json m) (mb_read (mailboxOf h i))\<rparr> h"
  by (auto simp: ackMessage_simp split: option.splits jfile.splits)

lemma ackMessage_wf_id: "hub_wf h \<Longrightarrow> ackMessage i k h = Inr (m, h') \<Longrightarrow> m_id m = k"
  using hub_wf_mailbox [of h i] files_wf_get [of m_id "mb_unread (mailboxOf h i)" k "Json m"]
  by (auto simp: ackMessage_Inr mailbox_wf_def)

lemma ackMessage_Inl:
  assumes "hub_wf h" "ackMessage i k h = Inl e"
  shows "e = StoreE (NotUnread k) \<and> (safe_id i \<longrightarrow> safe_id k \<longrightarrow> dget (mb_unread (mailboxOf h i)) (k @ json) = None)"
proof -
  have "files_wf m_id (mb_unread (mailboxOf h i))"
    using hub_wf_mailbox [OF assms(1)] by (simp add: mailbox_wf_def)
  then have "dget (mb_unread (mailboxOf h i)) (k @ json) \<noteq> Some Torn"
    using files_wf_get by blast
  with assms(2) show ?thesis
    by (auto simp: ackMessage_simp split: if_splits option.splits jfile.splits)
qed

interpretation hub_mail: mailbox_store "putMessage i" "ackMessage i" "unreadOf i" "readOf i" "mail_ok i"
    "\<lambda>k. safe_id i \<and> safe_id k" for i
proof (unfold_locales, goal_cases)
  case (1 m h)
  then show ?case by (simp add: putMessage_simp)
next
  case (2 h m h')
  then show ?case using putMessage_wf by (auto simp: mail_ok_def)
next
  case (3 h m h')
  then have "hub_wf h'" using putMessage_wf by (auto simp: mail_ok_def)
  with 3 show ?case
    by (auto simp: mail_ok_def unreadOf_wf putMessage_simp filed_dput split: if_splits)
next
  case (4 h m h')
  then have "hub_wf h'" using putMessage_wf by (auto simp: mail_ok_def)
  with 4 show ?case by (auto simp: mail_ok_def readOf_wf putMessage_simp split: if_splits)
next
  case (5 h k m h')
  then have wf: "hub_wf h" "hub_wf h'" and id: "m_id m = k"
    using ackMessage_wf ackMessage_wf_id by (auto simp: mail_ok_def)
  with 5 show ?case by (auto simp: mail_ok_def unreadOf_wf ackMessage_Inr filed_def)
next
  case (6 h k m h')
  then have wf: "hub_wf h" "hub_wf h'" using ackMessage_wf by (auto simp: mail_ok_def)
  with 6 show ?case by (auto simp: mail_ok_def unreadOf_wf ackMessage_Inr filed_ddel)
next
  case (7 h k m h')
  then have wf: "hub_wf h" "hub_wf h'" and id: "m_id m = k"
    using ackMessage_wf ackMessage_wf_id by (auto simp: mail_ok_def)
  with 7 show ?case by (auto simp: mail_ok_def readOf_wf ackMessage_Inr filed_dput)
next
  case (8 h k e m)
  then have m: "m \<in> filed (mb_unread (mailboxOf h i))" and wf: "hub_wf h" "safe_id i"
    by (auto simp: mail_ok_def unreadOf_wf)
  then have "safe_id (m_id m)"
    using files_wf_get [of m_id "mb_unread (mailboxOf h i)" "m_id m"] hub_wf_mailbox [OF wf(1), of i]
    by (auto simp: filed_def mailbox_wf_def)
  with ackMessage_Inl [OF wf(1) 8(2)] m wf(2) show ?case by (auto simp: filed_def)
next
  case (9 h m m')
  then show ?case using filed_unique by (auto simp: mail_ok_def unreadOf_wf)
qed

text \<open>A history of one mailbox of the hub.\<close>

fun mail_step :: "string \<Rightarrow> mail_act \<Rightarrow> hub \<Rightarrow> hub" where
  "mail_step i (Deliver m) h = (case putMessage i m h of Inl e \<Rightarrow> h | Inr h' \<Rightarrow> h')"
| "mail_step i (Ack k) h = (case ackMessage i k h of Inl e \<Rightarrow> h | Inr (m, h') \<Rightarrow> h')"

definition mailbox_run :: "string \<Rightarrow> mail_act list \<Rightarrow> hub \<Rightarrow> hub" where
  "mailbox_run i as h = fold (mail_step i) as h"

lemma mailbox_run_eq: "mailbox_run i as h = hub_mail.runMail i as h"
  by (induction as arbitrary: h rule: hub_mail.delivered.induct)
    (auto simp: mailbox_run_def split: sum.split)

definition delivered_in :: "mail_act list \<Rightarrow> message list" where
  "delivered_in as = concat (map (\<lambda>a. case a of Deliver m \<Rightarrow> [m] | Ack k \<Rightarrow> []) as)"

lemma delivered_in_eq: "delivered_in as = hub_mail.delivered as"
  by (induction as rule: hub_mail.delivered.induct) (auto simp: delivered_in_def)

subsection \<open>Properties\<close>

text \<open>
  C10. Every path the store builds from ids is where its record belongs and nowhere else: with
  \<open>.\<close> and \<open>..\<close> followed, an accepted id is exactly one segment of the path, and an id that
  could escape the directory is refused.
\<close>
theorem record_paths_confined:
  "(case agentFile root i of Inl e \<Rightarrow> \<not> safe_id i
      | Inr f \<Rightarrow> path_segs f = path_segs root @ [''agents'', i @ json]) \<and>
   (case projectFile root i of Inl e \<Rightarrow> \<not> safe_id i
      | Inr f \<Rightarrow> path_segs f = path_segs root @ [''projects'', i @ json]) \<and>
   (case messageFile root i k of Inl e \<Rightarrow> \<not> (safe_id i \<and> safe_id k)
      | Inr f \<Rightarrow> path_segs f = path_segs root @ [''inbox'', i, k @ json]) \<and>
   (case messageReadFile root i k of Inl e \<Rightarrow> \<not> (safe_id i \<and> safe_id k)
      | Inr f \<Rightarrow> path_segs f = path_segs root @ [''inbox'', i, ''read'', k @ json]) \<and>
   (case serviceLeaseFile root i k of Inl e \<Rightarrow> \<not> (safe_id i \<and> safe_id k)
      | Inr f \<Rightarrow> path_segs f = path_segs root @ [''services'', i, k @ json]) \<and>
   (case briefFile root i of Inl e \<Rightarrow> \<not> safe_id i
      | Inr f \<Rightarrow> path_segs f = path_segs root @ [''data'', i, ''brief.md'']) \<and>
   (case inboxDir root i of Inl e \<Rightarrow> \<not> safe_id i
      | Inr f \<Rightarrow> path_segs f = path_segs root @ [''inbox'', i]) \<and>
   (case dataDir root i of Inl e \<Rightarrow> \<not> safe_id i
      | Inr f \<Rightarrow> path_segs f = path_segs root @ [''data'', i]) \<and>
   path_segs (paneFile root i) = path_segs root @ [''panes'', sanitizePane i @ ''.id'']"
  (is "?A \<and> ?P \<and> ?M \<and> ?R \<and> ?S \<and> ?B \<and> ?I \<and> ?D \<and> ?N")
proof (intro conjI)
  show ?A by (cases "agentFile root i") (use path_ok_simps(1) [of root i] agentFile_segs in auto)
  show ?P by (cases "projectFile root i") (use path_ok_simps(2) [of root i] projectFile_segs in auto)
  show ?M by (cases "messageFile root i k") (use path_ok_simps(7) [of root i k] messageFile_segs in auto)
  show ?R by (cases "messageReadFile root i k") (use path_ok_simps(8) [of root i k] messageReadFile_segs in auto)
  show ?S by (cases "serviceLeaseFile root i k") (use path_ok_simps(6) [of root i k] serviceLeaseFile_segs in auto)
  show ?B by (cases "briefFile root i") (use path_ok_simps(5) [of root i] briefFile_segs in auto)
  show ?I by (cases "inboxDir root i") (use path_ok_simps(3) [of root i] inboxDir_segs in auto)
  show ?D by (cases "dataDir root i") (use path_ok_simps(4) [of root i] dataDir_segs in auto)
  show ?N by (rule paneFile_segs)
qed


definition demo_agent :: "string \<Rightarrow> agent" where
  "demo_agent i = \<lparr>a_id = i, a_handle = ''bob'', a_harness = Some Claude, a_cwd = ''/home/u/repo'',
     a_worktree = None, a_pane = None, a_status = Idle, a_createdAt = 5, a_lastSeen = 5,
     a_brief = None, a_launch = None, a_conversation = None, a_spawnedBy = None, a_kind = None,
     a_service = None, a_presence = None, a_home = None\<rparr>"

definition hub1 :: hub where
  "hub1 = (empty_hub ''/hub'')\<lparr>h_agents := [(''a.json'', Json (demo_agent ''a''))]\<rparr>"

lemma hub1_wf: "hub_wf hub1"
  by (simp add: hub1_def hub_wf_def files_wf_def dir_wf_def empty_hub_def lease_files_wf_def
      demo_agent_def json_def safe_id_def unsafe_char_def slash_def)

lemma is_json_a: "is_json ''a.json''"
  using is_json_id [of "''a''"] by (simp add: json_def)


text \<open>
  A listing of agents is exactly the stored records, each once, oldest first; an agent that
  was put is there afterwards and all others are as before.
\<close>
theorem listAgents_after_put:
  assumes "hub_wf h" and "putAgent r h = Inr h'"
  shows "\<exists>rs rs'. listAgents h = Inr rs \<and> listAgents h' = Inr rs' \<and>
    set rs' = insert r {x \<in> set rs. a_id x \<noteq> a_id r} \<and>
    distinct (map a_id rs') \<and> sorted (map a_createdAt rs')"
proof -
  obtain rs where rs: "listAgents h = Inr rs" "set rs = {r. getAgent (a_id r) h = Inr (Some r)}"
    by (rule listAgents_wf [OF assms(1)])
  obtain rs' where rs': "listAgents h' = Inr rs'" "set rs' = {r. getAgent (a_id r) h' = Inr (Some r)}"
    "distinct (map a_id rs')" "sorted (map a_createdAt rs')"
    by (rule listAgents_wf [OF putAgent_wf [OF assms]])
  have "set rs' = insert r {x \<in> set rs. a_id x \<noteq> a_id r}"
    unfolding rs(2) rs'(2) by (auto simp: agent_store.get_put [OF assms(2)])
  with rs(1) rs' show ?thesis by blast
qed

theorem listAgents_after_put_witness:
  "\<exists>rs'. listAgents (hub1\<lparr>h_agents := dput ''b.json'' (Json (demo_agent ''b'')) (h_agents hub1)\<rparr>) = Inr rs' \<and>
     set rs' = {demo_agent ''a'', demo_agent ''b''}"
proof -
  have p: "putAgent (demo_agent ''b'') hub1 =
      Inr (hub1\<lparr>h_agents := dput ''b.json'' (Json (demo_agent ''b'')) (h_agents hub1)\<rparr>)"
    by (simp add: putAgent_simp demo_agent_def safe_id_def unsafe_char_def slash_def json_def)
  have l: "listAgents hub1 = Inr [demo_agent ''a'']"
    by (simp add: listAgents_def readAll_def hub1_def is_json_a agentsDir_def)
  have "{x \<in> set [demo_agent ''a'']. a_id x \<noteq> a_id (demo_agent ''b'')} = {demo_agent ''a''}"
    by (auto simp: demo_agent_def)
  with listAgents_after_put [OF hub1_wf p] l show ?thesis by (auto simp: insert_commute)
qed

text \<open>
  C3. Mail is never lost. Over any history of deliveries (under fresh ids) and acknowledgements,
  in any order, failed ones included, a mailbox holds exactly what it held and what was
  delivered, and no message is unread and read at once.
\<close>
theorem mailbox_nothing_lost:
  assumes "hub_wf h" and "safe_id i"
    and "m_id ` set (unreadOf i h) \<inter> m_id ` set (readOf i h) = {}"
    and "\<forall>m \<in> set (delivered_in as). safe_id (m_id m)"
    and "distinct (map m_id (delivered_in as))"
    and "m_id ` set (delivered_in as) \<inter> m_id ` (set (unreadOf i h) \<union> set (readOf i h)) = {}"
  shows "set (unreadOf i (mailbox_run i as h)) \<union> set (readOf i (mailbox_run i as h)) =
      set (unreadOf i h) \<union> set (readOf i h) \<union> set (delivered_in as) \<and>
    m_id ` set (unreadOf i (mailbox_run i as h)) \<inter> m_id ` set (readOf i (mailbox_run i as h)) = {}"
  using hub_mail.nothing_lost [of i h as] assms
  by (simp add: mail_ok_def hub_mail.all_mail_def hub_mail.apart_def mailbox_run_eq delivered_in_eq)

definition demo_message :: "string \<Rightarrow> message" where
  "demo_message i = \<lparr>m_id = i, m_from = ''a'', m_fromHandle = ''bob'', m_to = ''b'', m_subject = None,
     m_body = ''hi'', m_thread = None, m_replyTo = None, m_ts = 7, m_sentAt = 7\<rparr>"

lemma demo_mail_run:
  "mailbox_run ''b'' [Ack ''m1'', Deliver (demo_message ''m1''), Deliver (demo_message ''m2''), Ack ''m1''] (empty_hub ''/hub'')
   = (empty_hub ''/hub'')\<lparr>h_inbox := [(''b'', \<lparr>mb_unread = [(''m2.json'', Json (demo_message ''m2''))],
        mb_read = [(''m1.json'', Json (demo_message ''m1''))]\<rparr>)]\<rparr>"
  by (simp add: mailbox_run_def ackMessage_simp putMessage_simp mailboxOf_def putMailbox_def empty_mailbox_def
      empty_hub_def demo_message_def safe_id_def unsafe_char_def slash_def json_def ddel_def dget_def)

theorem mailbox_nothing_lost_witness:
  "set (unreadOf ''b'' (mailbox_run ''b'' [Ack ''m1'', Deliver (demo_message ''m1''),
       Deliver (demo_message ''m2''), Ack ''m1''] (empty_hub ''/hub''))) \<union>
   set (readOf ''b'' (mailbox_run ''b'' [Ack ''m1'', Deliver (demo_message ''m1''),
       Deliver (demo_message ''m2''), Ack ''m1''] (empty_hub ''/hub''))) =
   {demo_message ''m1'', demo_message ''m2''}"
proof -
  let ?as = "[Ack ''m1'', Deliver (demo_message ''m1''), Deliver (demo_message ''m2''), Ack ''m1'']"
  have b: "safe_id ''b''" by (simp add: safe_id_def unsafe_char_def slash_def)
  have e: "unreadOf ''b'' (empty_hub ''/hub'') = []" "readOf ''b'' (empty_hub ''/hub'') = []"
    by (simp_all add: unreadOf_def readOf_def listInbox_def path_defs b mailboxOf_def empty_hub_def
        empty_mailbox_def readAll_def)
  show ?thesis
    using mailbox_nothing_lost [of "empty_hub ''/hub''" "''b''" ?as]
    by (simp add: b e delivered_in_def demo_message_def safe_id_def unsafe_char_def slash_def)
qed


definition hub2 :: hub where
  "hub2 = (empty_hub ''/hub'')\<lparr>h_inbox := [(''b'',
     \<lparr>mb_unread = [(''m1.json'', Json (demo_message ''m1''))], mb_read = []\<rparr>)]\<rparr>"

lemma hub2_wf: "hub_wf hub2"
  by (simp add: hub2_def hub_wf_def files_wf_def dir_wf_def empty_hub_def lease_files_wf_def mailbox_wf_def
      demo_message_def json_def safe_id_def unsafe_char_def slash_def)


end
