(* ===== verification/Identity.thy ===== *)
theory Identity
  imports FileStore
begin

text \<open>
  \<open>identity.ts\<close>, \<open>mux-env.ts\<close> and \<open>mux-select.ts\<close>: who this session is, how a name finds a unit,
  standing owners and their presence, and the culling of units whose session is gone.
  The context of the source (store, environment, command runner, clock) is the hub of the world
  and the host.
\<close>

subsection \<open>The multiplexer environment\<close>

definition env_put :: "string \<Rightarrow> string option \<Rightarrow> env \<Rightarrow> env" where
  "env_put k v e = (case v of None \<Rightarrow> [] | Some x \<Rightarrow> [(k, x)]) @ filter (\<lambda>p. fst p \<noteq> k) e"

lemma env_get_put [simp]: "env_get (env_put k v e) j = (if j = k then v else env_get e j)"
proof -
  have "map_of (filter (\<lambda>p. fst p \<noteq> k) e) j = (if j = k then None else map_of e j)"
    by (induction e) auto
  then show ?thesis by (auto simp: env_get_def env_put_def split: option.split)
qed

definition normalizeMuxEnv :: "env \<Rightarrow> env" where
  "normalizeMuxEnv e =
     (let hasCurrent = env_get e ''CYBER_MUX'' \<noteq> None \<or> env_get e ''CYBER_MUX_PANE'' \<noteq> None;
          hasLegacy = env_get e ''CYBERLEGION_MUX'' \<noteq> None \<or> env_get e ''CYBERLEGION_MUX_PANE'' \<noteq> None
      in if hasCurrent \<or> \<not> hasLegacy then e
         else env_put ''CYBER_MUX'' (env_get e ''CYBERLEGION_MUX'')
                (env_put ''CYBER_MUX_PANE'' (env_get e ''CYBERLEGION_MUX_PANE'') e))"

lemma normalizeMuxEnv_idem [simp]: "normalizeMuxEnv (normalizeMuxEnv e) = normalizeMuxEnv e"
  by (simp add: normalizeMuxEnv_def Let_def)

definition currentPane :: "'x host \<Rightarrow> (string \<times> string) option" where
  "currentPane H = mx_currentPane H (normalizeMuxEnv (os_env H))"

definition storablePane :: "'x host \<Rightarrow> (mux \<times> string) option" where
  "storablePane H = (case currentPane H of
       None \<Rightarrow> None
     | Some (m, p) \<Rightarrow> map_option (\<lambda>mx. (mx, p)) (parse_mux m))"

definition selectSessionAdapter :: "'x host \<Rightarrow> 'x \<Rightarrow> error + mux" where
  "selectSessionAdapter H x =
     (let m = mx_probe H (normalizeMuxEnv (os_env H)) x
      in if m = ''tmux'' then Inr Tmux
         else if m = ''herdr'' then Inr Herdr
         else if m = ''wezterm'' \<or> m = ''zellij'' then Inl (RuntimeE (UnstorableMultiplexer m))
         else Inl (RuntimeE NoBackend))"

subsection \<open>Harness and own id\<close>

definition harnessFromCommand :: "string \<Rightarrow> harness option" where
  "harnessFromCommand cmd =
     (if contains cmd ''cursor'' then Some Cursor
      else if contains cmd ''codex'' then Some Codex
      else if contains cmd ''claude'' then Some Claude
      else None)"

definition detectHarness :: "'x host \<Rightarrow> string option \<Rightarrow> ('x, harness option) op" where
  "detectHarness H explicit = (case truthy explicit of
       Some e \<Rightarrow> (case parse_harness e of Some h \<Rightarrow> ret (Some h) | None \<Rightarrow> throw (IdentE (UnknownHarness e)))
     | None \<Rightarrow>
         let env = os_env H
         in if truthy (env_get env ''CLAUDECODE'') \<noteq> None \<or> truthy (env_get env ''CLAUDE_CODE_ENTRYPOINT'') \<noteq> None
            then ret (Some Claude)
            else if \<exists>e\<in>set env. starts_with (fst e) ''CURSOR'' then ret (Some Cursor)
            else if \<exists>e\<in>set env. starts_with (fst e) ''CODEX'' then ret (Some Codex)
            else (case truthy (env_get env ''TMUX_PANE'') of
                None \<Rightarrow> ret None
              | Some pane \<Rightarrow>
                  andThen (exec H ''tmux'' [''display-message'', ''-p'', ''-t'', pane, ''#{pane_current_command}'']) (\<lambda>cmd.
                  ret (Option.bind cmd harnessFromCommand))))"

definition resolveSelfId :: "'x host \<Rightarrow> hub \<Rightarrow> string option" where
  "resolveSelfId H h = (case currentPane H of
       Some (m, pane) \<Rightarrow> resolvePaneId pane h
     | None \<Rightarrow> truthy (env_get (os_env H) ''CYBERLEGION_AGENT_ID''))"

definition randomId :: "'x host \<Rightarrow> ('x, string) op" where
  "randomId H = extStep (os_random H 8)"

subsection \<open>Register\<close>

definition gitWorktree :: "'x host \<Rightarrow> ('x, worktree option) op" where
  "gitWorktree H =
     andThen (exec H ''git'' [''rev-parse'', ''--show-toplevel'']) (\<lambda>root.
     case truthy root of
       None \<Rightarrow> ret None
     | Some r \<Rightarrow>
         andThen (exec H ''git'' [''rev-parse'', ''--abbrev-ref'', ''HEAD'']) (\<lambda>branch.
         andThen (extGet (mx_primaryRoot H None)) (\<lambda>primary.
         ret (Some \<lparr>wt_root = r, wt_branch = branch, wt_primaryRoot = primary, wt_lease = None\<rparr>))))"

definition keptWorktree :: "'x host \<Rightarrow> worktree \<Rightarrow> ('x, worktree option) op" where
  "keptWorktree H existing =
     (if wt_primaryRoot existing \<noteq> None then ret (Some existing)
      else andThen (gitWorktree H) (\<lambda>here.
        case here of
          None \<Rightarrow> ret (Some existing)
        | Some w \<Rightarrow>
            if wt_root w \<noteq> wt_root existing \<or> wt_primaryRoot w = None then ret (Some existing)
            else ret (Some (existing\<lparr>wt_primaryRoot := wt_primaryRoot w\<rparr>))))"

definition paneLocator :: "'x host \<Rightarrow> mux \<Rightarrow> string \<Rightarrow> ('x, pane_loc) op" where
  "paneLocator H m pane = (case m of
       Tmux \<Rightarrow>
         andThen (exec H ''tmux'' [''display-message'', ''-p'', ''-t'', pane, ''#{window_id}'']) (\<lambda>window.
         ret \<lparr>pn_mux = Tmux, pn_id = pane, pn_window = window,
              pn_session = map_option (\<lambda>t. hd (split_on CHR '','' t)) (env_get (os_env H) ''TMUX'')\<rparr>)
     | Herdr \<Rightarrow> ret \<lparr>pn_mux = Herdr, pn_id = pane, pn_window = None, pn_session = None\<rparr>)"

definition register :: "'x host \<Rightarrow> string option \<Rightarrow> string option \<Rightarrow> ('x, agent) op" where
  "register H handle harness =
     andThen (hubSet ensureMarker) (\<lambda>_.
     andThen (detectHarness H harness) (\<lambda>detected.
     case detected of None \<Rightarrow> throw (IdentE NoHarness) | Some hn \<Rightarrow>
     andThen (hubGet (resolveSelfId H)) (\<lambda>existingId.
     andThen (case truthy existingId of None \<Rightarrow> ret None | Some i \<Rightarrow> hubRead (getAgent i)) (\<lambda>existing.
     andThen (case existing of Some e \<Rightarrow> ret (a_id e)
        | None \<Rightarrow> (case existingId of Some i \<Rightarrow> ret i | None \<Rightarrow> randomId H)) (\<lambda>i.
     andThen (now H) (\<lambda>ts.
     andThen (case Option.bind existing a_worktree of Some w \<Rightarrow> keptWorktree H w | None \<Rightarrow> gitWorktree H) (\<lambda>wt.
     andThen (case storablePane H of None \<Rightarrow> ret None
        | Some (m, p) \<Rightarrow> andThen (paneLocator H m p) (\<lambda>l. ret (Some l))) (\<lambda>pane.
     let rec = \<lparr>
       a_id = i,
       a_handle = defaultTo (or_else handle (map_option a_handle existing)) (take 6 i),
       a_harness = Some hn,
       a_cwd = os_cwd H,
       a_worktree = wt,
       a_pane = pane,
       a_status = Active,
       a_createdAt = defaultTo (map_option a_createdAt existing) ts,
       a_lastSeen = ts,
       a_brief = truthy (Option.bind existing a_brief),
       a_launch = None,
       a_conversation = None,
       a_spawnedBy = truthy (Option.bind existing a_spawnedBy),
       a_kind = None,
       a_service = None,
       a_presence = None,
       a_home = None\<rparr>
     in andThen (hubWrite (putAgent rec)) (\<lambda>_.
        andThen (case storablePane H of None \<Rightarrow> ret ()
          | Some (m, p) \<Rightarrow> hubSet (putPaneIndex p i)) (\<lambda>_.
        ret rec))))))))))"

subsection \<open>Standing owners\<close>

definition standingId :: "string \<Rightarrow> string" where
  "standingId handle = ''standing-'' @ sanitizePane handle"

definition presenceLock :: "string \<Rightarrow> string" where
  "presenceLock i = ''presence:'' @ i"

text \<open>
  The home of a registration: \<open>None\<close> keeps the record's (\<open>undefined\<close>), \<open>Some None\<close> drops it
  (\<open>null\<close>), \<open>Some (Some v)\<close> replaces it.
\<close>

definition writeStanding :: "'x host \<Rightarrow> string \<Rightarrow> string \<Rightarrow> standing_home option option \<Rightarrow> ('x, agent) op" where
  "writeStanding H i handle home =
     andThen (hubRead (getAgent i)) (\<lambda>existing.
     andThen (now H) (\<lambda>ts.
     let rec = \<lparr>
       a_id = i,
       a_handle = handle,
       a_harness = None,
       a_cwd = os_cwd H,
       a_worktree = None,
       a_pane = None,
       a_status = Active,
       a_createdAt = defaultTo (map_option a_createdAt existing) ts,
       a_lastSeen = ts,
       a_brief = None,
       a_launch = None,
       a_conversation = None,
       a_spawnedBy = None,
       a_kind = Some StandingKind,
       a_service = None,
       a_presence = Option.bind existing a_presence,
       a_home = (case home of None \<Rightarrow> Option.bind existing a_home | Some v \<Rightarrow> v)\<rparr>
     in andThen (hubWrite (putAgent rec)) (\<lambda>_. ret rec)))"

definition registerStanding :: "'x host \<Rightarrow> string \<Rightarrow> standing_home option option \<Rightarrow> ('x, agent) op" where
  "registerStanding H handle home =
     andThen (hubSet ensureMarker) (\<lambda>_.
     let i = standingId handle
     in withLock H (presenceLock i) (writeStanding H i handle home))"

subsection \<open>Names\<close>

definition pickLive :: "string \<Rightarrow> agent list \<Rightarrow> error + agent option" where
  "pickLive ref live = (case find (\<lambda>a. a_kind a = Some StandingKind) live of
       Some s \<Rightarrow> Inr (Some s)
     | None \<Rightarrow>
         if length live > 1 then Inl (IdentE (AmbiguousHandle ref (map a_id live)))
         else Inr (if live = [] then None else Some (hd live)))"

definition matchHandle :: "agent list \<Rightarrow> string \<Rightarrow> agent list \<times> agent list" where
  "matchHandle agents handle =
     (let matched = filter (\<lambda>a. a_handle a = handle) agents
      in (filter (\<lambda>a. a_status a \<noteq> Exited) matched, filter (\<lambda>a. a_status a = Exited) matched))"

definition corpse :: "agent \<Rightarrow> string" where
  "corpse a = take 6 (a_id a) @ (case a_pane a of None \<Rightarrow> [] | Some p \<Rightarrow> '' ('' @ pn_id p @ '')'')"

definition unaddressable :: "string \<Rightarrow> agent list \<Rightarrow> error" where
  "unaddressable ref exited =
     (if exited \<noteq> [] then IdentE (OnlyExited ref (map corpse exited)) else IdentE (Unaddressable ref))"

definition resolveStandingOwner :: "string \<Rightarrow> hub \<Rightarrow> error + string" where
  "resolveStandingOwner handle h = (case listAgents h of
       Inl e \<Rightarrow> Inl e
     | Inr agents \<Rightarrow> (case find (\<lambda>a. a_handle a = handle \<and> a_kind a = Some StandingKind) agents of
         None \<Rightarrow> Inl (IdentE (NoStandingOwner handle))
       | Some a \<Rightarrow> Inr (a_id a)))"

definition resolveOwnerMailbox :: "string \<Rightarrow> hub \<Rightarrow> error + string" where
  "resolveOwnerMailbox ref h = (case getAgent ref h of
       Inl e \<Rightarrow> Inl e
     | Inr byId \<Rightarrow>
         (case Option.bind byId (\<lambda>a. if a_kind a = Some ServiceKind \<or> a_kind a = Some StandingKind
                                     then Some (a_id a) else None) of
            Some i \<Rightarrow> Inr i
          | None \<Rightarrow> (case listAgents h of
              Inl e \<Rightarrow> Inl e
            | Inr agents \<Rightarrow>
                if \<exists>a\<in>set agents. a_handle a = ref \<and> a_kind a = Some StandingKind
                then resolveStandingOwner ref h
                else
                  (let services = filter (\<lambda>a. a_handle a = ref \<and> a_kind a = Some ServiceKind) agents
                   in if length services = 1 then Inr (a_id (hd services))
                      else if length services > 1 then Inl (IdentE (AmbiguousEndpoint ref (map a_id services)))
                      else resolveStandingOwner ref h))))"

definition resolveRecipient :: "string \<Rightarrow> hub \<Rightarrow> error + string" where
  "resolveRecipient to h = (case getAgent to h of
       Inl e \<Rightarrow> Inl e
     | Inr (Some _) \<Rightarrow> Inr to
     | Inr None \<Rightarrow> (case listAgents h of
         Inl e \<Rightarrow> Inl e
       | Inr agents \<Rightarrow> (case matchHandle agents to of (live, exited) \<Rightarrow>
           (case pickLive to live of
              Inl e \<Rightarrow> Inl e
            | Inr None \<Rightarrow> Inl (unaddressable to exited)
            | Inr (Some a) \<Rightarrow> Inr (a_id a)))))"

text \<open>The first of each id, as \<open>all.findIndex((b) => b.id === a.id) === i\<close> keeps it.\<close>

fun dedupById :: "string list \<Rightarrow> agent list \<Rightarrow> agent list" where
  "dedupById seen [] = []"
| "dedupById seen (a # as) =
     (if a_id a \<in> set seen then dedupById seen as else a # dedupById (a_id a # seen) as)"

definition branchOf :: "agent \<Rightarrow> string option" where
  "branchOf a = Option.bind (a_worktree a) wt_branch"

definition resolveAgent :: "string \<Rightarrow> hub \<Rightarrow> error + agent" where
  "resolveAgent ref h = (case getAgent ref h of
       Inl e \<Rightarrow> Inl e
     | Inr (Some a) \<Rightarrow> Inr a
     | Inr None \<Rightarrow> (case listAgents h of
         Inl e \<Rightarrow> Inl e
       | Inr agents \<Rightarrow> (case matchHandle agents ref of (live, exited) \<Rightarrow>
           (case pickLive ref live of
              Inl e \<Rightarrow> Inl e
            | Inr (Some a) \<Rightarrow> Inr a
            | Inr None \<Rightarrow>
                (let byBranchAll = filter (\<lambda>a. branchOf a = Some ref) agents
                 in case find (\<lambda>a. a_status a \<noteq> Exited) byBranchAll of
                      Some a \<Rightarrow> Inr a
                    | None \<Rightarrow> Inl (unaddressable ref
                        (dedupById [] (exited @ filter (\<lambda>a. a_status a = Exited) byBranchAll))))))))"

definition repoNameOf :: "agent \<Rightarrow> string" where
  "repoNameOf a = basename (defaultTo (Option.bind (a_worktree a) wt_primaryRoot) (a_cwd a))"

definition selectAgent :: "string option \<Rightarrow> string option \<Rightarrow> hub \<Rightarrow> error + agent" where
  "selectAgent repo branch h =
     (if repo = None \<and> branch = None then Inl (IdentE SelectorRequired)
      else case listAgents h of
        Inl e \<Rightarrow> Inl e
      | Inr agents \<Rightarrow>
          (let matches = filter (\<lambda>a. a_status a \<noteq> Exited \<and>
                 (branch = None \<or> branchOf a = branch) \<and>
                 (repo = None \<or> Some (repoNameOf a) = repo)) agents
           in case matches of
                [] \<Rightarrow> Inl (IdentE NoUnitMatches)
              | [a] \<Rightarrow> Inr a
              | a # b # r \<Rightarrow> Inl (IdentE (AmbiguousSelector (map a_id matches)))))"

definition bumpLastSeen :: "'x host \<Rightarrow> string \<Rightarrow> ('x, unit) op" where
  "bumpLastSeen H i =
     andThen (hubRead (getAgent i)) (\<lambda>r.
     case r of None \<Rightarrow> ret ()
     | Some a \<Rightarrow> andThen (now H) (\<lambda>ts. hubWrite (putAgent (a\<lparr>a_lastSeen := ts\<rparr>))))"

definition touch :: "'x host \<Rightarrow> ('x, unit) op" where
  "touch H =
     andThen (hubGet (resolveSelfId H)) (\<lambda>i.
     case truthy i of None \<Rightarrow> ret () | Some j \<Rightarrow> bumpLastSeen H j)"

subsection \<open>Presence\<close>

definition claimPresence :: "'x host \<Rightarrow> string \<Rightarrow> ('x, agent) op" where
  "claimPresence H handle =
     andThen (hubRead (resolveStandingOwner handle)) (\<lambda>sid.
     andThen (hubRead (getAgent sid)) (\<lambda>pre.
     if pre = None then throw (IdentE (NoStandingOwner handle)) else
     andThen (extGet (mx_probe H (normalizeMuxEnv (os_env H)))) (\<lambda>probe.
     if probe = ''none'' then throw (IdentE NoMultiplexer) else
     andThen (hubGet (resolveSelfId H)) (\<lambda>self.
     case truthy self of None \<Rightarrow> throw (IdentE NoIdentity) | Some selfId \<Rightarrow>
     withLock H (presenceLock sid)
       (andThen (hubRead (getAgent sid)) (\<lambda>r.
        case r of None \<Rightarrow> throw (IdentE (NoStandingOwner handle))
        | Some rec \<Rightarrow>
            let rec' = rec\<lparr>a_presence := Some selfId\<rparr>
            in andThen (hubWrite (putAgent rec')) (\<lambda>_. ret rec')))))))"

definition clearPresence :: "'x host \<Rightarrow> string \<Rightarrow> ('x, agent) op" where
  "clearPresence H handle =
     andThen (hubRead (resolveStandingOwner handle)) (\<lambda>sid.
     andThen (hubRead (getAgent sid)) (\<lambda>pre.
     if pre = None then throw (IdentE (NoStandingOwner handle)) else
     withLock H (presenceLock sid)
       (andThen (hubRead (getAgent sid)) (\<lambda>r.
        case r of None \<Rightarrow> throw (IdentE (NoStandingOwner handle))
        | Some rec \<Rightarrow>
            if a_presence rec = None then ret rec
            else let rec' = rec\<lparr>a_presence := None\<rparr>
                 in andThen (hubWrite (putAgent rec')) (\<lambda>_. ret rec')))))"

definition presenceOf :: "agent \<Rightarrow> hub \<Rightarrow> error + agent option" where
  "presenceOf rec h = (case truthy (a_presence rec) of
       None \<Rightarrow> Inr None
     | Some p \<Rightarrow> (case getAgent p h of
         Inl e \<Rightarrow> Inl e
       | Inr None \<Rightarrow> Inr None
       | Inr (Some unit) \<Rightarrow> Inr (if a_status unit = Exited then None else Some unit)))"

definition resolvePresence :: "string \<Rightarrow> hub \<Rightarrow> error + agent option" where
  "resolvePresence handle h = (case resolveStandingOwner handle h of
       Inl e \<Rightarrow> Inl e
     | Inr i \<Rightarrow> (case getAgent i h of
         Inl e \<Rightarrow> Inl e
       | Inr None \<Rightarrow> Inr None
       | Inr (Some rec) \<Rightarrow> presenceOf rec h))"

subsection \<open>Reconcile and prune\<close>

definition STALE_MS :: nat where
  "STALE_MS = 15 * 60 * 1000"

definition isSessionIndependent :: "agent \<Rightarrow> bool" where
  "isSessionIndependent a \<longleftrightarrow> a_kind a = Some StandingKind \<or> a_kind a = Some ServiceKind"

definition isPrunable :: "agent \<Rightarrow> bool" where
  "isPrunable a \<longleftrightarrow> \<not> isSessionIndependent a \<and> a_status a \<noteq> Exited \<and> a_status a \<noteq> Stopped"

definition listPanes :: "'x host \<Rightarrow> mux \<Rightarrow> 'x \<Rightarrow> live_pane list" where
  "listPanes H m x = ad_listPanes (mx_adapter H m) x"

definition sessionLive :: "'x host \<Rightarrow> agent \<Rightarrow> 'x \<Rightarrow> bool" where
  "sessionLive H a x \<longleftrightarrow>
     \<not> (a_status a = Exited \<or> a_status a = Stopped) \<and>
     (case a_pane a of
        None \<Rightarrow> True
      | Some p \<Rightarrow> (let panes = listPanes H (pn_mux p) x
                  in panes = [] \<or> (\<exists>q\<in>set panes. lp_id q = pn_id p)))"

definition harnessFromAgent :: "string option \<Rightarrow> harness option" where
  "harnessFromAgent a = (case truthy a of None \<Rightarrow> None | Some s \<Rightarrow> harnessFromCommand s)"

definition adoptPane :: "'x host \<Rightarrow> agent list \<Rightarrow> live_pane \<Rightarrow> agent list \<Rightarrow> ('x, agent list) op" where
  "adoptPane H agents pane adopted =
     (case parse_mux (lp_mux pane) of None \<Rightarrow> ret adopted | Some m \<Rightarrow>
     (case harnessFromAgent (lp_harness pane) of None \<Rightarrow> ret adopted | Some hn \<Rightarrow>
     andThen (hubGet (resolvePaneId (lp_id pane))) (\<lambda>boundId.
     andThen (case truthy boundId of None \<Rightarrow> ret None | Some b \<Rightarrow> hubRead (getAgent b)) (\<lambda>bound.
     if bound \<noteq> None then ret adopted
     else if \<exists>a\<in>set agents. case a_pane a of None \<Rightarrow> False | Some p \<Rightarrow> pn_mux p = m \<and> pn_id p = lp_id pane
     then ret adopted
     else andThen (randomId H) (\<lambda>i.
       andThen (now H) (\<lambda>ts.
       let rec = \<lparr>
         a_id = i,
         a_handle = (case truthy (lp_cwd pane) of Some c \<Rightarrow> sanitizePane (basename c) | None \<Rightarrow> take 6 i),
         a_harness = Some hn,
         a_cwd = defaultTo (lp_cwd pane) [],
         a_worktree = None,
         a_pane = Some \<lparr>pn_mux = m, pn_id = lp_id pane, pn_window = None, pn_session = None\<rparr>,
         a_status = Active,
         a_createdAt = ts,
         a_lastSeen = ts,
         a_brief = None, a_launch = None, a_conversation = None, a_spawnedBy = None,
         a_kind = None, a_service = None, a_presence = None, a_home = None\<rparr>
       in andThen (hubWrite (putAgent rec)) (\<lambda>_.
          andThen (hubSet (putPaneIndex (lp_id pane) i)) (\<lambda>_.
          ret (adopted @ [rec])))))))))"

definition adopt :: "'x host \<Rightarrow> live_pane list \<Rightarrow> ('x, agent list) op" where
  "adopt H panes =
     andThen (hubRead listAgents) (\<lambda>agents.
     foldE (adoptPane H agents) panes [])"

definition exited :: "agent \<Rightarrow> agent" where
  "exited a = a\<lparr>a_status := Exited\<rparr>"

definition reconcileOne :: "mux \<Rightarrow> string list \<Rightarrow> agent \<Rightarrow> agent list \<Rightarrow> ('x, agent list) op" where
  "reconcileOne m live a changed =
     (if \<not> isPrunable a then ret changed
      else case a_pane a of
        None \<Rightarrow> ret changed
      | Some p \<Rightarrow>
          if pn_mux p \<noteq> m then ret changed
          else if pn_id p \<in> set live then ret changed
          else andThen (hubWrite (putAgent (exited a))) (\<lambda>_. ret (changed @ [exited a])))"

definition reconcile :: "'x host \<Rightarrow> bool \<Rightarrow> ('x, agent list) op" where
  "reconcile H doAdopt = (case storablePane H of
       None \<Rightarrow> ret []
     | Some (m, pane) \<Rightarrow>
         andThen (extGet (listPanes H m)) (\<lambda>panes.
         if panes = [] then ret []
         else andThen (hubRead listAgents) (\<lambda>agents.
           andThen (foldE (reconcileOne m (map lp_id panes)) agents []) (\<lambda>changed.
           if doAdopt then andThen (adopt H panes) (\<lambda>more. ret (changed @ more))
           else ret changed))))"

type_synonym pane_lists = "(mux \<times> live_pane list) list"

definition paneGone :: "'x host \<Rightarrow> pane_loc \<Rightarrow> pane_lists \<Rightarrow> 'x \<Rightarrow> bool \<times> pane_lists" where
  "paneGone H p known x =
     (if ad_paneExists (mx_adapter H (pn_mux p)) (pn_id p) x then (False, known)
      else let (panes, known') = (case map_of known (pn_mux p) of
                 Some ps \<Rightarrow> (ps, known)
               | None \<Rightarrow> (let ps = listPanes H (pn_mux p) x in (ps, (pn_mux p, ps) # known)))
           in (panes \<noteq> [] \<and> \<not> (\<exists>q\<in>set panes. lp_id q = pn_id p), known'))"

definition pruneOne :: "'x host \<Rightarrow> nat \<Rightarrow> agent \<Rightarrow> agent list \<times> pane_lists \<Rightarrow> ('x, agent list \<times> pane_lists) op" where
  "pruneOne H t a acc = (case acc of (changed, known) \<Rightarrow>
     if \<not> isPrunable a then ret acc
     else andThen (case a_pane a of
         Some p \<Rightarrow> extGet (paneGone H p known)
       | None \<Rightarrow> ret (a_lastSeen a + STALE_MS < t, known)) (\<lambda>(dead, known').
       if dead
       then andThen (hubWrite (putAgent (exited a))) (\<lambda>_. ret (changed @ [exited a], known'))
       else ret (changed, known')))"

definition prune :: "'x host \<Rightarrow> ('x, agent list) op" where
  "prune H =
     andThen (now H) (\<lambda>t.
     andThen (reconcile H False) (\<lambda>changed.
     andThen (hubRead listAgents) (\<lambda>agents.
     andThen (foldE (pruneOne H t) agents (changed, [])) (\<lambda>acc.
     ret (fst acc)))))"

subsection \<open>Every operation keeps the hub well formed\<close>

lemma pres_mux [pres]:
  "preserves P a \<Longrightarrow> preserves P b \<Longrightarrow> preserves P (case m of Tmux \<Rightarrow> a | Herdr \<Rightarrow> b)"
  by (simp split: mux.split)

lemma wf_detectHarness [pres]: "wf_op (detectHarness H e)"
  unfolding detectHarness_def by (intro pres)

lemma wf_gitWorktree [pres]: "wf_op (gitWorktree H)"
  unfolding gitWorktree_def by (intro pres)

lemma wf_keptWorktree [pres]: "wf_op (keptWorktree H w)"
  unfolding keptWorktree_def by (intro pres)

lemma wf_paneLocator [pres]: "wf_op (paneLocator H m p)"
  unfolding paneLocator_def by (intro pres)

lemma wf_randomId [pres]: "wf_op (randomId H)"
  unfolding randomId_def by (intro pres)

lemma wf_register [pres]: "wf_op (register H handle harness)"
  unfolding register_def by (intro pres) (auto dest: store_wf)

lemma wf_writeStanding [pres]: "wf_op (writeStanding H i handle home)"
  unfolding writeStanding_def by (intro pres) (auto dest: store_wf)

lemma wf_registerStanding [pres]: "others_wf H \<Longrightarrow> wf_op (registerStanding H handle home)"
  unfolding registerStanding_def by (intro pres) auto

lemma wf_bumpLastSeen [pres]: "wf_op (bumpLastSeen H i)"
  unfolding bumpLastSeen_def by (intro pres) (auto dest: store_wf)

lemma wf_touch [pres]: "wf_op (touch H)"
  unfolding touch_def by (intro pres)

lemma wf_claimPresence [pres]: "others_wf H \<Longrightarrow> wf_op (claimPresence H handle)"
  unfolding claimPresence_def by (intro pres) (auto dest: store_wf)

lemma wf_clearPresence [pres]: "others_wf H \<Longrightarrow> wf_op (clearPresence H handle)"
  unfolding clearPresence_def by (intro pres) (auto dest: store_wf)

lemma wf_adoptPane [pres]: "wf_op (adoptPane H agents pane adopted)"
  unfolding adoptPane_def by (intro pres) (auto dest: store_wf)

lemma wf_adopt [pres]: "wf_op (adopt H panes)"
  unfolding adopt_def by (intro pres)

lemma wf_reconcileOne [pres]: "wf_op (reconcileOne m live a changed)"
  unfolding reconcileOne_def by (intro pres) (auto dest: store_wf)

lemma wf_reconcile [pres]: "wf_op (reconcile H doAdopt)"
  unfolding reconcile_def by (intro pres)

lemma wf_pruneOne [pres]: "wf_op (pruneOne H t a acc)"
  unfolding pruneOne_def by (intro pres) (auto dest: store_wf)

lemma wf_prune [pres]: "wf_op (prune H)"
  unfolding prune_def by (intro pres)

subsection \<open>The loops that mark units exited\<close>

definition markOne :: "(agent \<Rightarrow> bool) \<Rightarrow> agent \<Rightarrow> hub \<Rightarrow> hub" where
  "markOne D a h = (if D a then h\<lparr>h_agents := dput (a_id a @ json) (Json (exited a)) (h_agents h)\<rparr> else h)"

definition markAll :: "(agent \<Rightarrow> bool) \<Rightarrow> agent list \<Rightarrow> hub \<Rightarrow> hub" where
  "markAll D as h = fold (markOne D) as h"

lemma markAll_simps [simp]: "markAll D [] h = h" "markAll D (a # as) h = markAll D as (markOne D a h)"
  by (simp_all add: markAll_def)

lemma exited_simps [simp]: "a_id (exited a) = a_id a" "a_status (exited a) = Exited" "a_pane (exited a) = a_pane a"
  "\<not> isPrunable (exited a)" "a_kind (exited a) = a_kind a"
  by (simp_all add: exited_def isPrunable_def)

lemma getAgent_markOne:
  "safe_id (a_id a) \<Longrightarrow>
   getAgent i (markOne D a h) = (if a_id a = i \<and> D a then Inr (Some (exited a)) else getAgent i h)"
  by (auto simp: markOne_def getAgent_simp dget_dput)

lemma getAgent_markAll:
  "(\<forall>a\<in>set as. safe_id (a_id a)) \<Longrightarrow> distinct (map a_id as) \<Longrightarrow>
   getAgent i (markAll D as h) =
     (case find (\<lambda>a. a_id a = i \<and> D a) as of Some a \<Rightarrow> Inr (Some (exited a)) | None \<Rightarrow> getAgent i h)"
proof (induction as arbitrary: h)
  case Nil
  then show ?case by simp
next
  case (Cons a as)
  have "find (\<lambda>b. a_id b = a_id a \<and> D b) as = None"
    using Cons.prems(2) by (force simp: find_None_iff image_iff)
  then have "a_id a = i \<Longrightarrow> find (\<lambda>b. a_id b = i \<and> D b) as = None" by simp
  with Cons show ?case by (auto simp: getAgent_markOne split: option.split)
qed

lemma markOne_wf: "hub_wf h \<Longrightarrow> safe_id (a_id a) \<Longrightarrow> hub_wf (markOne D a h)"
  using putAgent_wf [of h "exited a"] by (simp add: markOne_def putAgent_simp)

lemma markAll_wf: "hub_wf h \<Longrightarrow> (\<forall>a\<in>set as. safe_id (a_id a)) \<Longrightarrow> hub_wf (markAll D as h)"
  by (induction as arbitrary: h) (auto simp: markOne_wf)

definition reconcile_dead :: "mux \<Rightarrow> string list \<Rightarrow> agent \<Rightarrow> bool" where
  "reconcile_dead m live a \<longleftrightarrow> isPrunable a \<and>
     (case a_pane a of None \<Rightarrow> False | Some p \<Rightarrow> pn_mux p = m \<and> pn_id p \<notin> set live)"

definition prune_dead :: "'x host \<Rightarrow> nat \<Rightarrow> 'x \<Rightarrow> agent \<Rightarrow> bool" where
  "prune_dead H t x a \<longleftrightarrow> isPrunable a \<and>
     (case a_pane a of
        None \<Rightarrow> a_lastSeen a + STALE_MS < t
      | Some p \<Rightarrow> \<not> ad_paneExists (mx_adapter H (pn_mux p)) (pn_id p) x \<and>
          listPanes H (pn_mux p) x \<noteq> [] \<and> pn_id p \<notin> lp_id ` set (listPanes H (pn_mux p) x))"

lemma reconcile_loop:
  "(\<forall>a\<in>set as. safe_id (a_id a)) \<Longrightarrow>
   foldE (reconcileOne m live) as ch w =
     (Inr (ch @ map exited (filter (reconcile_dead m live) as)),
      w\<lparr>hub := markAll (reconcile_dead m live) as (hub w)\<rparr>)"
proof (induction as arbitrary: ch w)
  case Nil
  then show ?case by (simp add: ret_def)
next
  case (Cons a as)
  have one: "reconcileOne m live a ch w =
      (Inr (if reconcile_dead m live a then ch @ [exited a] else ch), w\<lparr>hub := markOne (reconcile_dead m live) a (hub w)\<rparr>)"
    using Cons.prems
    by (auto simp: reconcileOne_def reconcile_dead_def markOne_def eff_simps andThen_def putAgent_simp
        split: option.split)
  show ?case using Cons by (simp add: andThen_def one)
qed

definition cache_ok :: "'x host \<Rightarrow> 'x \<Rightarrow> pane_lists \<Rightarrow> bool" where
  "cache_ok H x known \<longleftrightarrow> (\<forall>(m, ps)\<in>set known. ps = listPanes H m x)"

lemma paneGone_ok:
  "cache_ok H x known \<Longrightarrow> \<exists>known'. cache_ok H x known' \<and> paneGone H p known x =
     (\<not> ad_paneExists (mx_adapter H (pn_mux p)) (pn_id p) x \<and>
      listPanes H (pn_mux p) x \<noteq> [] \<and> pn_id p \<notin> lp_id ` set (listPanes H (pn_mux p) x), known')"
  by (force simp: paneGone_def cache_ok_def Let_def image_iff split: option.splits dest!: map_of_SomeD)

lemma prune_one:
  assumes "safe_id (a_id a)" "cache_ok H (ext w) known"
  shows "\<exists>known'. cache_ok H (ext w) known' \<and> pruneOne H t a (ch, known) w =
    (Inr (if prune_dead H t (ext w) a then ch @ [exited a] else ch, known'),
     w\<lparr>hub := markOne (prune_dead H t (ext w)) a (hub w)\<rparr>)"
proof (cases "isPrunable a")
  case False
  with assms(2) show ?thesis by (auto simp: pruneOne_def ret_def prune_dead_def markOne_def)
next
  case True
  show ?thesis
  proof (cases "a_pane a")
    case None
    with True assms show ?thesis
      by (intro exI [of _ known])
        (simp add: pruneOne_def prune_dead_def markOne_def andThen_def eff_simps putAgent_simp)
  next
    case (Some p)
    obtain known' where k: "cache_ok H (ext w) known'" "paneGone H p known (ext w) =
        (prune_dead H t (ext w) a, known')"
      using paneGone_ok [OF assms(2), of p] True Some by (auto simp: prune_dead_def)
    with True Some assms(1) show ?thesis
      by (intro exI [of _ known'])
        (simp add: pruneOne_def markOne_def andThen_def eff_simps putAgent_simp)
  qed
qed

lemma prune_loop:
  "(\<forall>a\<in>set as. safe_id (a_id a)) \<Longrightarrow> cache_ok H (ext w) known \<Longrightarrow>
   \<exists>known'. foldE (pruneOne H t) as (ch, known) w =
     (Inr (ch @ map exited (filter (prune_dead H t (ext w)) as), known'),
      w\<lparr>hub := markAll (prune_dead H t (ext w)) as (hub w)\<rparr>)"
proof (induction as arbitrary: ch known w)
  case Nil
  then show ?case by (simp add: ret_def)
next
  case (Cons a as)
  obtain known' where k: "cache_ok H (ext w) known'" and one: "pruneOne H t a (ch, known) w =
    (Inr (if prune_dead H t (ext w) a then ch @ [exited a] else ch, known'),
     w\<lparr>hub := markOne (prune_dead H t (ext w)) a (hub w)\<rparr>)"
    using prune_one [of a H w known t ch] Cons.prems by auto
  let ?w = "w\<lparr>hub := markOne (prune_dead H t (ext w)) a (hub w)\<rparr>"
  have "cache_ok H (ext ?w) known'" using k by simp
  from Cons.IH [OF _ this, of "if prune_dead H t (ext w) a then ch @ [exited a] else ch"] Cons.prems(1)
  show ?case by (auto simp: andThen_def one)
qed

subsection \<open>What a successful register leaves\<close>

lemma hub_detectHarness: "detectHarness H e w = (r, w') \<Longrightarrow> hub w' = hub w"
  by (rule keepsD [of hub "detectHarness H e"])
    (simp add: detectHarness_def Let_def frame keeps_hub_exec [of "\<lambda>x. x"] split: option.split)

lemma hub_gitWorktree: "keeps hub (gitWorktree H)"
  unfolding gitWorktree_def by (intro frame keeps_hub_exec [of "\<lambda>x. x"])

lemma hub_keptWorktree: "keeps hub (keptWorktree H e)"
  unfolding keptWorktree_def by (intro frame hub_gitWorktree)

lemma hub_paneLocator: "keeps hub (paneLocator H m p)"
  unfolding paneLocator_def by (cases m) (simp_all add: frame keeps_hub_exec [of "\<lambda>x. x"])

lemma paneLocator_loc: "paneLocator H m p w = (Inr l, w') \<Longrightarrow> pn_mux l = m \<and> pn_id l = p"
  by (cases m) (auto simp: paneLocator_def ret_def elim!: andThen_okE)

lemma hub_randomId: "keeps hub (randomId H)"
  unfolding randomId_def by (rule keeps_hub_extStep [of "\<lambda>x. x"])

text \<open>The record register knows this session by, if any.\<close>

definition selfRecord :: "'x host \<Rightarrow> hub \<Rightarrow> error + agent option" where
  "selfRecord H h = (case truthy (resolveSelfId H h) of None \<Rightarrow> Inr None | Some i \<Rightarrow> getAgent i h)"

lemma resolvePaneId_ensureMarker [simp]: "resolvePaneId p (ensureMarker h) = resolvePaneId p h"
  by (simp add: resolvePaneId_def)

lemma resolveSelfId_ensureMarker [simp]: "resolveSelfId H (ensureMarker h) = resolveSelfId H h"
  by (simp add: resolveSelfId_def split: option.split)

lemma getAgent_ensureMarker [simp]: "getAgent i (ensureMarker h) = getAgent i h"
  by (simp add: getAgent_simp)

lemma register_ok:
  assumes "register H handle harness w = (Inr r, w')"
  shows "\<exists>existing hn h1. selfRecord H (hub w) = Inr existing \<and>
     (\<forall>e. existing = Some e \<longrightarrow> a_id r = a_id e) \<and>
     (existing = None \<longrightarrow> (\<forall>i. resolveSelfId H (hub w) = Some i \<longrightarrow> a_id r = i)) \<and>
     a_handle r = defaultTo (or_else handle (map_option a_handle existing)) (take 6 (a_id r)) \<and>
     a_harness r = Some hn \<and> a_status r = Active \<and>
     (\<forall>e. existing = Some e \<longrightarrow> a_createdAt r = a_createdAt e) \<and>
     a_launch r = None \<and> a_conversation r = None \<and>
     (case storablePane H of None \<Rightarrow> a_pane r = None
      | Some (m, p) \<Rightarrow> \<exists>l. a_pane r = Some l \<and> pn_mux l = m \<and> pn_id l = p) \<and>
     putAgent r (ensureMarker (hub w)) = Inr h1 \<and>
     hub w' = (case storablePane H of None \<Rightarrow> h1 | Some (m, p) \<Rightarrow> putPaneIndex p (a_id r) h1)"
proof -
  let ?h = "ensureMarker (hub w)"
  let ?w = "w\<lparr>hub := ?h\<rparr>"
  from assms obtain hn w1 existing w3 i w4 ts w5 wt w6 pane w7 where
      1: "detectHarness H harness ?w = (Inr (Some hn), w1)"
    and 3: "(case truthy (resolveSelfId H (hub w1)) of None \<Rightarrow> ret None | Some i \<Rightarrow> hubRead (getAgent i)) w1
        = (Inr existing, w3)"
    and 4: "(case existing of Some e \<Rightarrow> ret (a_id e)
        | None \<Rightarrow> (case resolveSelfId H (hub w1) of Some i \<Rightarrow> ret i | None \<Rightarrow> randomId H)) w3 = (Inr i, w4)"
    and 5: "now H w4 = (Inr ts, w5)"
    and 6: "(case Option.bind existing a_worktree of Some w \<Rightarrow> keptWorktree H w | None \<Rightarrow> gitWorktree H) w5 = (Inr wt, w6)"
    and 7: "(case storablePane H of None \<Rightarrow> ret None
        | Some (m, p) \<Rightarrow> andThen (paneLocator H m p) (\<lambda>l. ret (Some l))) w6 = (Inr pane, w7)"
    and 8: "(let rec = \<lparr>a_id = i, a_handle = defaultTo (or_else handle (map_option a_handle existing)) (take 6 i),
       a_harness = Some hn, a_cwd = os_cwd H, a_worktree = wt, a_pane = pane, a_status = Active,
       a_createdAt = defaultTo (map_option a_createdAt existing) ts, a_lastSeen = ts,
       a_brief = truthy (Option.bind existing a_brief), a_launch = None, a_conversation = None,
       a_spawnedBy = truthy (Option.bind existing a_spawnedBy), a_kind = None, a_service = None,
       a_presence = None, a_home = None\<rparr>
     in andThen (hubWrite (putAgent rec)) (\<lambda>_.
        andThen (case storablePane H of None \<Rightarrow> ret ()
          | Some (m, p) \<Rightarrow> hubSet (putPaneIndex p i)) (\<lambda>_.
        ret rec))) w7 = (Inr r, w')"
    unfolding register_def
    by (elim andThen_okE) (auto simp: eff_simps elim!: andThen_okE split: option.splits if_splits)
  have h1: "hub w1 = ?h" using hub_detectHarness [OF 1] by simp
  have self: "selfRecord H (hub w) = Inr existing" and h3: "hub w3 = ?h"
    using 3 h1 by (auto simp: selfRecord_def eff_simps split: option.splits)
  have "keeps hub (case existing of Some e \<Rightarrow> ret (a_id e)
        | None \<Rightarrow> (case resolveSelfId H (hub w1) of Some i \<Rightarrow> ret i | None \<Rightarrow> randomId H))"
    by (intro frame hub_randomId)
  from keepsD [OF this 4] h3 have h4: "hub w4 = ?h" by simp
  have i: "\<forall>e. existing = Some e \<longrightarrow> i = a_id e"
    "existing = None \<longrightarrow> (\<forall>j. resolveSelfId H (hub w) = Some j \<longrightarrow> i = j)"
    using 4 h1 by (cases existing; simp add: ret_def split: option.splits)+
  have h5: "hub w5 = ?h" using 5 h4 by (simp add: now_run)
  have "keeps hub (case Option.bind existing a_worktree of Some w \<Rightarrow> keptWorktree H w | None \<Rightarrow> gitWorktree H)"
    by (intro frame hub_gitWorktree hub_keptWorktree)
  from keepsD [OF this 6] h5 have h6: "hub w6 = ?h" by simp
  have h7: "hub w7 = ?h" and pane: "case storablePane H of None \<Rightarrow> pane = None
      | Some (m, p) \<Rightarrow> \<exists>l. pane = Some l \<and> pn_mux l = m \<and> pn_id l = p"
  proof (atomize (full), cases "storablePane H")
    case None
    with 7 h6 show "hub w7 = ?h \<and> (case storablePane H of None \<Rightarrow> pane = None
      | Some (m, p) \<Rightarrow> \<exists>l. pane = Some l \<and> pn_mux l = m \<and> pn_id l = p)" by (simp add: ret_def)
  next
    case (Some mp)
    obtain m p where mp: "mp = (m, p)" by (cases mp)
    with 7 Some obtain l where l: "paneLocator H m p w6 = (Inr l, w7)" "pane = Some l"
      by (auto simp: ret_def elim: andThen_okE)
    with Some mp h6 keepsD [OF hub_paneLocator l(1)] paneLocator_loc [OF l(1)]
    show "hub w7 = ?h \<and> (case storablePane H of None \<Rightarrow> pane = None
      | Some (m, p) \<Rightarrow> \<exists>l. pane = Some l \<and> pn_mux l = m \<and> pn_id l = p)" by simp
  qed
  from 8 obtain w8 w9 where
      put: "hubWrite (putAgent r) w7 = (Inr (), w8)"
    and idx: "(case storablePane H of None \<Rightarrow> ret () | Some (m, p) \<Rightarrow> hubSet (putPaneIndex p i)) w8 = (Inr (), w9)"
    and w': "w' = w9"
    and r: "a_id r = i" "a_handle r = defaultTo (or_else handle (map_option a_handle existing)) (take 6 i)"
      "a_harness r = Some hn" "a_status r = Active" "a_launch r = None" "a_conversation r = None"
      "a_pane r = pane" "a_createdAt r = defaultTo (map_option a_createdAt existing) ts"
    unfolding Let_def by (elim andThen_okE) (auto simp: ret_def)
  from put h7 obtain h1 where h1: "putAgent r ?h = Inr h1" and w8: "hub w8 = h1"
    by (auto simp: hubWrite_run split: sum.splits)
  have w9: "hub w9 = (case storablePane H of None \<Rightarrow> h1 | Some (m, p) \<Rightarrow> putPaneIndex p i h1)"
    using idx w8 by (auto simp: ret_def hubSet_run split: option.splits)
  show ?thesis
    by (rule exI [of _ existing], rule exI [of _ hn], rule exI [of _ h1])
      (use self i pane r h1 w9 w' in \<open>simp split: option.splits prod.splits\<close>)
qed

subsection \<open>Properties\<close>

definition stored :: "hub \<Rightarrow> agent \<Rightarrow> bool" where
  "stored h a \<longleftrightarrow> getAgent (a_id a) h = Inr (Some a)"

text \<open>Who prune declares dead: judged by its own multiplexer's answer, or by the clock if paneless.\<close>

definition reaped :: "'x host \<Rightarrow> 'x \<Rightarrow> agent \<Rightarrow> bool" where
  "reaped H x a \<longleftrightarrow> isPrunable a \<and>
     (case a_pane a of
        None \<Rightarrow> a_lastSeen a + STALE_MS < os_now H x
      | Some p \<Rightarrow>
          listPanes H (pn_mux p) x \<noteq> [] \<and> pn_id p \<notin> lp_id ` set (listPanes H (pn_mux p) x) \<and>
          (map_option fst (storablePane H) = Some (pn_mux p) \<or>
           \<not> ad_paneExists (mx_adapter H (pn_mux p)) (pn_id p) x))"

definition culled :: "'x host \<Rightarrow> 'x \<Rightarrow> agent \<Rightarrow> bool" where
  "culled H x a \<longleftrightarrow> (case storablePane H of None \<Rightarrow> False
     | Some (m, _) \<Rightarrow> listPanes H m x \<noteq> [] \<and> reconcile_dead m (map lp_id (listPanes H m x)) a)"

lemma reaped_cases: "reaped H x a \<longleftrightarrow> culled H x a \<or> prune_dead H (os_now H x) x a"
  by (auto simp: reaped_def culled_def reconcile_dead_def prune_dead_def split: option.splits)

lemma listAgents_stored:
  assumes "hub_wf h"
  obtains rs where "listAgents h = Inr rs" "set rs = {a. stored h a}" "distinct (map a_id rs)"
    "\<forall>a\<in>set rs. safe_id (a_id a)"
  using listAgents_wf [OF assms] getAgent_wf_id [OF assms] unfolding stored_def
  by (metis (mono_tags, lifting) mem_Collect_eq)

lemma find_id_stored:
  assumes "hub_wf h" "set rs = {a. stored h a}" "distinct (map a_id rs)"
  shows "find (\<lambda>a. a_id a = i \<and> D a) rs =
    (case getAgent i h of Inr (Some a) \<Rightarrow> if D a then Some a else None | _ \<Rightarrow> None)"
proof (cases "find (\<lambda>a. a_id a = i \<and> D a) rs")
  case None
  then have "\<forall>a\<in>set rs. \<not> (a_id a = i \<and> D a)" by (simp add: find_None_all)
  then have "\<not> D a" if "getAgent i h = Inr (Some a)" for a
    using that getAgent_wf_id [OF assms(1) that] assms(2) by (auto simp: stored_def)
  with None show ?thesis by (auto split: sum.split option.split)
next
  case (Some a)
  then have "a \<in> set rs" "a_id a = i" "D a" by (auto dest: find_Some_set)
  with assms(2) Some show ?thesis by (auto simp: stored_def)
qed

lemma mark_listed:
  assumes "hub_wf h" "listAgents h = Inr rs"
  shows "getAgent i (markAll D rs h) = (case getAgent i h of
      Inr (Some a) \<Rightarrow> Inr (Some (if D a then exited a else a)) | r \<Rightarrow> r)" (is ?G)
    and "hub_wf (markAll D rs h)"
    and "set (map exited (filter D rs)) = exited ` {a. stored h a \<and> D a}"
proof -
  obtain rs' where rs: "listAgents h = Inr rs'" "set rs' = {a. stored h a}" "distinct (map a_id rs')"
    "\<forall>a\<in>set rs'. safe_id (a_id a)" by (rule listAgents_stored [OF assms(1)])
  with assms(2) have [simp]: "rs' = rs" by simp
  show ?G
    using rs find_id_stored [OF assms(1), of rs i D]
    by (auto simp: getAgent_markAll split: sum.split option.split)
  show "hub_wf (markAll D rs h)" using assms(1) rs(4) by (simp add: markAll_wf)
  show "set (map exited (filter D rs)) = exited ` {a. stored h a \<and> D a}" using rs(2) by auto
qed

lemma listed_safe: "hub_wf h \<Longrightarrow> listAgents h = Inr rs \<Longrightarrow> \<forall>a\<in>set rs. safe_id (a_id a)"
  by (erule listAgents_stored [of h]) auto

lemma reconcile_run:
  assumes "hub_wf (hub w)"
  shows "\<exists>changed w1. reconcile H False w = (Inr changed, w1) \<and> ext w1 = ext w \<and> hub_wf (hub w1) \<and>
    set changed = exited ` {a. stored (hub w) a \<and> culled H (ext w) a} \<and>
    (\<forall>i. getAgent i (hub w1) = (case getAgent i (hub w) of
       Inr (Some a) \<Rightarrow> Inr (Some (if culled H (ext w) a then exited a else a)) | r \<Rightarrow> r))"
proof (cases "\<exists>m p. storablePane H = Some (m, p) \<and> listPanes H m (ext w) \<noteq> []")
  case False
  then have "reconcile H False w = (Inr [], w)"
    by (auto simp: reconcile_def eff_simps andThen_def split: option.split)
  moreover have "\<not> culled H (ext w) a" for a using False by (auto simp: culled_def split: option.split)
  ultimately show ?thesis using assms by (auto split: sum.split option.split)
next
  case True
  then obtain m p where m: "storablePane H = Some (m, p)" "listPanes H m (ext w) \<noteq> []" by blast
  then have D: "culled H (ext w) = reconcile_dead m (map lp_id (listPanes H m (ext w)))"
    by (auto simp: culled_def fun_eq_iff)
  obtain rs where rs: "listAgents (hub w) = Inr rs" by (rule listAgents_wf [OF assms])
  note mk = mark_listed [OF assms rs, where D = "culled H (ext w)"]
  have "reconcile H False w = (Inr (map exited (filter (culled H (ext w)) rs)),
      w\<lparr>hub := markAll (culled H (ext w)) rs (hub w)\<rparr>)"
    using m by (simp add: reconcile_def eff_simps andThen_def rs reconcile_loop [OF listed_safe [OF assms rs]] D)
  with mk show ?thesis by auto
qed

text \<open>
  C9. Prune is exact. It succeeds, marks exited exactly the units that are positively gone, and
  reports exactly those; every other record is untouched.
\<close>
theorem prune_exact:
  assumes "hub_wf (hub w)"
  shows "\<exists>changed w'. prune H w = (Inr changed, w') \<and> ext w' = ext w \<and> hub_wf (hub w') \<and>
    set changed = exited ` {a. stored (hub w) a \<and> reaped H (ext w) a} \<and>
    (\<forall>i. getAgent i (hub w') = (case getAgent i (hub w) of
       Inr (Some a) \<Rightarrow> Inr (Some (if reaped H (ext w) a then exited a else a)) | r \<Rightarrow> r))"
proof -
  let ?x = "ext w" and ?t = "os_now H (ext w)"
  obtain c1 w1 where 1: "reconcile H False w = (Inr c1, w1)" "ext w1 = ?x" "hub_wf (hub w1)"
    "set c1 = exited ` {a. stored (hub w) a \<and> culled H ?x a}"
    and get1: "\<And>i. getAgent i (hub w1) = (case getAgent i (hub w) of
       Inr (Some a) \<Rightarrow> Inr (Some (if culled H ?x a then exited a else a)) | r \<Rightarrow> r)"
    using reconcile_run [OF assms, of H] by auto
  obtain rs where rs: "listAgents (hub w1) = Inr rs" by (rule listAgents_wf [OF 1(3)])
  note mk = mark_listed [OF 1(3) rs, where D = "prune_dead H ?t ?x"]
  have "cache_ok H (ext w1) []" by (simp add: cache_ok_def)
  then obtain known' where "foldE (pruneOne H ?t) rs (c1, []) w1 =
     (Inr (c1 @ map exited (filter (prune_dead H ?t ?x) rs), known'),
      w1\<lparr>hub := markAll (prune_dead H ?t ?x) rs (hub w1)\<rparr>)"
    using prune_loop [OF listed_safe [OF 1(3) rs], of H w1 "[]" ?t c1] 1(2) by auto
  then have run: "prune H w = (Inr (c1 @ map exited (filter (prune_dead H ?t ?x) rs)),
      w1\<lparr>hub := markAll (prune_dead H ?t ?x) rs (hub w1)\<rparr>)"
    by (simp add: prune_def andThen_def eff_simps 1(1) rs)
  have not2: "\<not> prune_dead H ?t ?x (exited a)" for a by (simp add: prune_dead_def)
  have st: "{a. stored (hub w1) a \<and> prune_dead H ?t ?x a} =
      {a. stored (hub w) a \<and> prune_dead H ?t ?x a \<and> \<not> culled H ?x a}"
  proof (intro Collect_cong)
    fix a
    show "(stored (hub w1) a \<and> prune_dead H ?t ?x a) =
        (stored (hub w) a \<and> prune_dead H ?t ?x a \<and> \<not> culled H ?x a)"
    proof (cases "\<exists>b. getAgent (a_id a) (hub w) = Inr (Some b)")
      case True
      then obtain b where "getAgent (a_id a) (hub w) = Inr (Some b)" by blast
      then show ?thesis using not2 [of b] by (auto simp: stored_def get1)
    next
      case False
      then show ?thesis by (auto simp: stored_def get1 split: sum.splits option.splits)
    qed
  qed
  have "set (c1 @ map exited (filter (prune_dead H ?t ?x) rs)) =
      exited ` {a. stored (hub w) a \<and> reaped H ?x a}"
    unfolding set_append 1(4) mk(3) st by (auto simp: reaped_cases)
  moreover have "getAgent i (markAll (prune_dead H ?t ?x) rs (hub w1)) = (case getAgent i (hub w) of
       Inr (Some a) \<Rightarrow> Inr (Some (if reaped H ?x a then exited a else a)) | r \<Rightarrow> r)" for i
    unfolding mk(1) get1 by (auto simp: reaped_cases not2 split: sum.split option.split)
  ultimately show ?thesis using run 1(2) mk(2) by simp
qed

lemma demo_world_wf: "hub_wf (hub (demo_world\<lparr>hub := hub1\<rparr>))"
  by (simp add: hub1_wf)

theorem prune_exact_witness:
  "\<exists>changed w'. prune demo_host (demo_world\<lparr>hub := hub1, ext := STALE_MS + 6\<rparr>) = (Inr changed, w') \<and>
     exited (demo_agent ''a'') \<in> set changed \<and>
     getAgent ''a'' (hub w') = Inr (Some (exited (demo_agent ''a'')))"
proof -
  let ?w = "demo_world\<lparr>hub := hub1, ext := STALE_MS + 6\<rparr>"
  have wf: "hub_wf (hub ?w)" by (simp add: hub1_wf)
  have a: "getAgent ''a'' (hub ?w) = Inr (Some (demo_agent ''a''))"
    by (simp add: getAgent_simp hub1_def dget_def json_def safe_id_def unsafe_char_def slash_def)
  then have st: "stored (hub ?w) (demo_agent ''a'')" by (simp add: stored_def demo_agent_def)
  have r: "reaped demo_host (ext ?w) (demo_agent ''a'')"
    by (simp add: reaped_def demo_agent_def isPrunable_def isSessionIndependent_def demo_host_def)
  obtain changed w' where p: "prune demo_host ?w = (Inr changed, w')"
    "set changed = exited ` {a. stored (hub ?w) a \<and> reaped demo_host (ext ?w) a}"
    "\<forall>i. getAgent i (hub w') = (case getAgent i (hub ?w) of
       Inr (Some a) \<Rightarrow> Inr (Some (if reaped demo_host (ext ?w) a then exited a else a)) | r \<Rightarrow> r)"
    using prune_exact [OF wf, of demo_host] by auto
  have "exited (demo_agent ''a'') \<in> set changed" using p(2) st r by blast
  moreover have "getAgent ''a'' (hub w') = Inr (Some (exited (demo_agent ''a'')))"
    using p(3) a r by simp
  ultimately show ?thesis using p(1) by blast
qed

text \<open>
  Silence is never taken for death. A standing or service record, a stopped unit, and a unit
  whose multiplexer answers with no panes at all or with its pane in the list, are exactly as
  they were after a prune, whatever their last-seen.
\<close>
lemma prune_fail_closed:
  assumes "hub_wf (hub w)" and "getAgent i (hub w) = Inr (Some a)"
    and "isSessionIndependent a \<or> a_status a = Stopped \<or>
      (\<exists>p. a_pane a = Some p \<and> (listPanes H (pn_mux p) (ext w) = [] \<or>
        (\<exists>q\<in>set (listPanes H (pn_mux p) (ext w)). lp_id q = pn_id p)))"
  shows "getAgent i (hub (snd (prune H w))) = Inr (Some a)"
proof -
  have "\<not> reaped H (ext w) a"
    using assms(3) by (auto simp: reaped_def isPrunable_def split: option.splits) (metis image_eqI)+
  then show ?thesis using prune_exact [OF assms(1), of H] assms(2) by auto
qed

lemma prune_fail_closed_witness:
  "getAgent ''s'' (hub (snd (prune demo_host (demo_world\<lparr>hub := (empty_hub ''/hub'')\<lparr>h_agents :=
     [(''s.json'', Json ((demo_agent ''s'')\<lparr>a_kind := Some StandingKind\<rparr>))]\<rparr>, ext := 10 ^ 9\<rparr>))))
   = Inr (Some ((demo_agent ''s'')\<lparr>a_kind := Some StandingKind\<rparr>))"
  by (rule prune_fail_closed)
    (simp_all add: hub_wf_def files_wf_def dir_wf_def empty_hub_def lease_files_wf_def demo_agent_def
      json_def safe_id_def unsafe_char_def slash_def getAgent_simp dget_def isSessionIndependent_def)

lemma getAgent_panes [simp]: "getAgent i (putPaneIndex p j h) = getAgent i h"
  by (simp add: getAgent_simp putPaneIndex_def)

lemma resolvePaneId_put: "resolvePaneId p (putPaneIndex p i h) = Some (trim i)"
  by (simp add: resolvePaneId_def putPaneIndex_def)

text \<open>
  Registering is idempotent. It stores exactly the record it returns, leaves every other
  record alone and points the session's pane at it; a session that already had a record keeps
  its id, its creation time and (unless it names a new one) its handle.
\<close>
lemma register_idempotent:
  assumes "register H handle harness w = (Inr r, w')"
  shows "getAgent (a_id r) (hub w') = Inr (Some r) \<and> a_status r = Active \<and>
    (\<forall>i. i \<noteq> a_id r \<longrightarrow> getAgent i (hub w') = getAgent i (hub w)) \<and>
    (\<forall>m p. storablePane H = Some (m, p) \<longrightarrow> resolvePaneId p (hub w') = Some (trim (a_id r))) \<and>
    (\<forall>e. selfRecord H (hub w) = Inr (Some e) \<longrightarrow>
       a_id r = a_id e \<and> a_createdAt r = a_createdAt e \<and> (handle = None \<longrightarrow> a_handle r = a_handle e))"
proof -
  from register_ok [OF assms] obtain existing hn h1 where
      self: "selfRecord H (hub w) = Inr existing" "\<forall>e. existing = Some e \<longrightarrow> a_id r = a_id e"
    and r: "a_handle r = defaultTo (or_else handle (map_option a_handle existing)) (take 6 (a_id r))"
      "a_status r = Active" "\<forall>e. existing = Some e \<longrightarrow> a_createdAt r = a_createdAt e"
    and put: "putAgent r (ensureMarker (hub w)) = Inr h1"
    and w': "hub w' = (case storablePane H of None \<Rightarrow> h1 | Some (m, p) \<Rightarrow> putPaneIndex p (a_id r) h1)"
    by blast
  have get: "getAgent i (hub w') = getAgent i h1" for i
    by (simp add: w' split: option.split prod.split)
  have pane: "storablePane H = Some (m, p) \<Longrightarrow> resolvePaneId p (hub w') = Some (trim (a_id r))" for m p
    by (simp add: w' resolvePaneId_put)
  show ?thesis
    using self r get pane agent_store.get_put [OF put] by auto
qed

text \<open>A session in no pane, known by its environment, whose record spawn wrote.\<close>

definition env_host :: "nat host" where
  "env_host = demo_host\<lparr>os_env := [(''CYBERLEGION_AGENT_ID'', ''a''), (''CLAUDECODE'', ''1'')]\<rparr>"

definition spawned_world :: "nat world" where
  "spawned_world = demo_world\<lparr>hub := (empty_hub ''/hub'')\<lparr>h_agents :=
     [(''a.json'', Json ((demo_agent ''a'')\<lparr>a_launch := Some ''claude --model x'', a_conversation := Some ''c1''\<rparr>))]\<rparr>\<rparr>"

lemma env_host_simps [simp]:
  "os_env env_host = [(''CYBERLEGION_AGENT_ID'', ''a''), (''CLAUDECODE'', ''1'')]"
  "os_exec env_host cmd args x = (None, x)" "os_now env_host x = x" "os_cwd env_host = ''/home/u/repo''"
  "mx_currentPane env_host e = None" "mx_primaryRoot env_host d x = None"
  by (simp_all add: env_host_def)

lemma env_host_self [simp]: "resolveSelfId env_host h = Some ''a''"
  by (simp add: resolveSelfId_def currentPane_def env_get_def)

lemma env_host_runs [simp]:
  "storablePane env_host = None" "detectHarness env_host None w = (Inr (Some Claude), w)"
  "gitWorktree env_host w = (Inr None, w)"
  by (simp_all add: storablePane_def currentPane_def detectHarness_def gitWorktree_def env_get_def
      eff_simps andThen_def)

lemma spawned_get:
  "getAgent ''a'' (hub spawned_world) =
    Inr (Some ((demo_agent ''a'')\<lparr>a_launch := Some ''claude --model x'', a_conversation := Some ''c1''\<rparr>))"
  by (simp add: spawned_world_def getAgent_simp dget_def empty_hub_def json_def safe_id_def
      unsafe_char_def slash_def)

lemma register_env_run:
  "\<exists>r w'. register env_host None None spawned_world = (Inr r, w') \<and> a_id r = ''a''"
  by (simp add: register_def eff_simps andThen_def spawned_get demo_agent_def putAgent_simp
      safe_id_def unsafe_char_def slash_def Let_def)

lemma spawned_self: "selfRecord env_host (hub spawned_world) =
    Inr (Some ((demo_agent ''a'')\<lparr>a_launch := Some ''claude --model x'', a_conversation := Some ''c1''\<rparr>))"
  by (simp add: selfRecord_def spawned_get)

lemma register_idempotent_witness:
  "\<exists>r w'. register env_host None None spawned_world = (Inr r, w') \<and>
     a_createdAt r = 5 \<and> a_handle r = ''bob'' \<and> getAgent ''a'' (hub w') = Inr (Some r)"
proof -
  obtain r w' where run: "register env_host None None spawned_world = (Inr r, w')" "a_id r = ''a''"
    using register_env_run by blast
  from register_idempotent [OF run(1)] spawned_self run show ?thesis
    by (auto simp: demo_agent_def)
qed

text \<open>
  Registering forgets how the unit was launched. Whatever launch command and conversation the
  record carried (what \<open>unit restart\<close> would relaunch and resume), the refreshed record has none.
\<close>
theorem register_forgets_launch:
  assumes "register H handle harness w = (Inr r, w')"
    and "selfRecord H (hub w) = Inr (Some e)" and "a_launch e \<noteq> None \<or> a_conversation e \<noteq> None"
  shows "a_id r = a_id e \<and> a_launch r = None \<and> a_conversation r = None \<and>
    (a_launch r \<noteq> a_launch e \<or> a_conversation r \<noteq> a_conversation e)"
proof -
  from register_ok [OF assms(1)] have "a_launch r = None" "a_conversation r = None" "a_id r = a_id e"
    using assms(2) by auto
  with assms(3) show ?thesis by auto
qed

theorem register_forgets_launch_witness:
  "\<exists>r w'. register env_host None None spawned_world = (Inr r, w') \<and> a_id r = ''a'' \<and> a_launch r = None"
proof -
  obtain r w' where run: "register env_host None None spawned_world = (Inr r, w')" "a_id r = ''a''"
    using register_env_run by blast
  from register_forgets_launch [OF run(1) spawned_self] run show ?thesis by auto
qed

subsection \<open>Names\<close>

lemma pickLive_Inr:
  "pickLive ref live = Inr (Some a) \<Longrightarrow> a \<in> set live \<and> (a_kind a = Some StandingKind \<or> live = [a])"
  by (auto simp: pickLive_def dest!: find_Some_set split: option.splits if_splits) (cases live; auto)+

lemma pickLive_mem: "pickLive ref live = Inr (Some a) \<Longrightarrow> a \<in> set live"
  using pickLive_Inr by blast

lemma pickLive_None: "pickLive ref live = Inr None \<longleftrightarrow> live = []"
  by (auto simp: pickLive_def split: option.splits dest!: find_Some_set)

lemma pickLive_Inl:
  "pickLive ref live = Inl e \<longleftrightarrow>
   e = IdentE (AmbiguousHandle ref (map a_id live)) \<and> length live > 1 \<and> (\<forall>a\<in>set live. a_kind a \<noteq> Some StandingKind)"
  by (auto simp: pickLive_def find_None_iff split: option.splits if_splits dest!: find_Some_set)

text \<open>The live units a handle names.\<close>

definition named :: "hub \<Rightarrow> string \<Rightarrow> agent set" where
  "named h n = {a. stored h a \<and> a_handle a = n \<and> a_status a \<noteq> Exited}"

text \<open>
  A name finds the right unit or none. An id names its own record. A handle resolves only to
  a unit that is not exited; when several live units share it, only a standing owner among them
  is picked, and without one the name is refused as ambiguous; a handle with no live holder is
  refused.
\<close>
lemma resolveRecipient_sound:
  assumes "hub_wf h"
  shows "case resolveRecipient to h of
      Inr i \<Rightarrow> \<exists>a. getAgent i h = Inr (Some a) \<and>
        (i = to \<or> a \<in> named h to \<and> (a_kind a = Some StandingKind \<or> named h to = {a}))
    | Inl e \<Rightarrow> getAgent to h = Inr None \<and>
        (named h to = {} \<or> e = IdentE (AmbiguousHandle to (map a_id (fst (matchHandle (case listAgents h of Inr as \<Rightarrow> as) to)))) \<and>
          (\<exists>a b. a \<noteq> b \<and> a \<in> named h to \<and> b \<in> named h to) \<and>
          (\<forall>a\<in>named h to. a_kind a \<noteq> Some StandingKind))"
proof -
  obtain rs where rs: "listAgents h = Inr rs" "set rs = {a. stored h a}" "distinct (map a_id rs)"
    by (rule listAgents_stored [OF assms])
  obtain live gone where m: "matchHandle rs to = (live, gone)" by (cases "matchHandle rs to")
  have live: "set live = named h to" "distinct live"
    using m rs(2,3) by (auto simp: matchHandle_def Let_def named_def distinct_map)
  obtain g where g: "getAgent to h = Inr g" using getAgent_wf_total [OF assms] by blast
  show ?thesis
  proof (cases g)
    case (Some a)
    with g show ?thesis by (auto simp: resolveRecipient_def)
  next
    case None
    show ?thesis
    proof (cases "pickLive to live")
      case (Inl e)
      then have e: "e = IdentE (AmbiguousHandle to (map a_id live))" "length live > 1"
        "\<forall>a\<in>set live. a_kind a \<noteq> Some StandingKind" by (auto simp: pickLive_Inl)
      obtain a b l where "live = a # b # l" using e(2) by (cases live; cases "tl live") auto
      with live have "a \<noteq> b" "a \<in> named h to" "b \<in> named h to" by auto
      with e g None m rs(1) Inl live(1) show ?thesis by (auto simp: resolveRecipient_def)
    next
      case (Inr x)
      show ?thesis
      proof (cases x)
        case None
        with Inr have "live = []" by (simp add: pickLive_None)
        with live have "named h to = {}" by simp
        with g \<open>g = None\<close> m rs(1) Inr None show ?thesis by (simp add: resolveRecipient_def)
      next
        case (Some a)
        with Inr have a: "a \<in> set live" "a_kind a = Some StandingKind \<or> live = [a]"
          using pickLive_Inr by blast+
        then have "stored h a" using live by (simp add: named_def)
        with a live g \<open>g = None\<close> m rs(1) Inr Some show ?thesis
          by (auto simp: resolveRecipient_def stored_def)
      qed
    qed
  qed
qed

lemma listAgents_hub1: "listAgents hub1 = Inr [demo_agent ''a'']"
  by (simp add: listAgents_def readAll_def hub1_def is_json_a agentsDir_def)

lemma getAgent_hub1:
  "getAgent ''a'' hub1 = Inr (Some (demo_agent ''a''))" "getAgent ''bob'' hub1 = Inr None"
  by (simp_all add: getAgent_simp hub1_def dget_def json_def safe_id_def unsafe_char_def slash_def)

lemma resolveRecipient_sound_witness:
  "resolveRecipient ''bob'' hub1 = Inr ''a'' \<and>
   (\<exists>a. getAgent ''a'' hub1 = Inr (Some a) \<and> named hub1 ''bob'' = {a})"
proof -
  have r: "resolveRecipient ''bob'' hub1 = Inr ''a''"
    by (simp add: resolveRecipient_def getAgent_hub1 listAgents_hub1 matchHandle_def)
      (simp add: pickLive_def demo_agent_def)
  have g: "getAgent ''a'' hub1 = Inr (Some (demo_agent ''a''))" by (rule getAgent_hub1)
  show ?thesis
    using resolveRecipient_sound [OF hub1_wf, of "''bob''"] r g by (auto simp: demo_agent_def)
qed

subsection \<open>Presence\<close>

lemma resolveStandingOwner_Inr:
  assumes "hub_wf h" "resolveStandingOwner n h = Inr i"
  shows "\<exists>a. getAgent i h = Inr (Some a) \<and> a_id a = i \<and> a_handle a = n \<and> a_kind a = Some StandingKind"
proof -
  obtain rs where rs: "listAgents h = Inr rs" "set rs = {a. stored h a}"
    by (rule listAgents_stored [OF assms(1)])
  with assms(2) show ?thesis
    by (auto simp: resolveStandingOwner_def stored_def split: option.splits dest!: find_Some_set)
qed

lemma getAgent_takeLock [simp]: "getAgent i (hub (takeLock H n w)) = getAgent i (hub w)"
  by (simp add: getAgent_simp)

lemma getAgent_releaseLock [simp]: "getAgent i (releaseLock n h) = getAgent i h"
  by (simp add: getAgent_simp)

lemma putAgent_wf_id:
  "hub_wf (hub w) \<Longrightarrow> getAgent i (hub w) = Inr (Some a) \<Longrightarrow> a_id r = i \<Longrightarrow> \<exists>h'. putAgent r (hub (takeLock H n w)) = Inr h'"
  using getAgent_wf_id [of "hub w" i a] by (auto simp: putAgent_simp)

text \<open>
  A claim changes one field of one record, or nothing. When it succeeds, the standing owner
  of that handle points at the caller (the last claim wins) and is otherwise as it was, and so
  is every other record; when it fails, no record has changed.
\<close>
lemma claimPresence_effect:
  assumes "hub_wf (hub w)" and "\<forall>n. lock_free (hub w) n" and "claimPresence H handle w = (r, w')"
  shows "case r of
      Inl e \<Rightarrow> h_agents (hub w') = h_agents (hub w)
    | Inr a \<Rightarrow> \<exists>e. getAgent (a_id a) (hub w) = Inr (Some e) \<and> a_handle e = handle \<and> a_kind e = Some StandingKind \<and>
        a = e\<lparr>a_presence := truthy (resolveSelfId H (hub w))\<rparr> \<and> a_presence a \<noteq> None \<and>
        getAgent (a_id a) (hub w') = Inr (Some a) \<and>
        (\<forall>i. i \<noteq> a_id a \<longrightarrow> getAgent i (hub w') = getAgent i (hub w))"
proof (cases "resolveStandingOwner handle (hub w)")
  case (Inl e)
  with assms(3) have "r = Inl e" "w' = w" by (auto simp: claimPresence_def eff_simps andThen_def)
  then show ?thesis by simp
next
  case (Inr sid)
  obtain e where e: "getAgent sid (hub w) = Inr (Some e)" "a_id e = sid" "a_handle e = handle"
    "a_kind e = Some StandingKind" using resolveStandingOwner_Inr [OF assms(1) Inr] by blast
  show ?thesis
  proof (cases "mx_probe H (normalizeMuxEnv (os_env H)) (ext w) = ''none'' \<or> truthy (resolveSelfId H (hub w)) = None")
    case True
    with assms(3) Inr e have "w' = w" "\<exists>x. r = Inl x"
      by (auto simp: claimPresence_def eff_simps andThen_def split: option.splits if_splits)
    then show ?thesis by auto
  next
    case False
    then obtain self where self: "truthy (resolveSelfId H (hub w)) = Some self" by blast
    let ?r = "e\<lparr>a_presence := Some self\<rparr>"
    obtain h1 where h1: "putAgent ?r (hub (takeLock H (presenceLock sid) w)) = Inr h1"
      using putAgent_wf_id [OF assms(1) e(1)] e(2) by force
    have "claimPresence H handle w = (Inr ?r, (takeLock H (presenceLock sid) w)\<lparr>hub := releaseLock (presenceLock sid) h1\<rparr>)"
      using False Inr e(1) self h1 assms(2)
      by (simp add: claimPresence_def eff_simps andThen_def withLock_free Let_def)
    with assms(3) have "r = Inr ?r" and w': "hub w' = releaseLock (presenceLock sid) h1" by auto
    moreover have "getAgent i (hub w') = (if i = sid then Inr (Some ?r) else getAgent i (hub w))" for i
      using agent_store.get_put [OF h1] e(2) by (simp add: w')
    ultimately show ?thesis using e self by auto
  qed
qed

definition mux_env_host :: "nat host" where
  "mux_env_host = env_host\<lparr>mx_probe := (\<lambda>e x. ''tmux'')\<rparr>"

definition owner_hub :: hub where
  "owner_hub = (empty_hub ''/hub'')\<lparr>h_agents := [(''s.json'', Json ((demo_agent ''s'')\<lparr>a_kind := Some StandingKind\<rparr>))]\<rparr>"

lemma owner_hub_wf: "hub_wf owner_hub"
  by (simp add: owner_hub_def hub_wf_def files_wf_def dir_wf_def empty_hub_def lease_files_wf_def demo_agent_def
      json_def safe_id_def unsafe_char_def slash_def)

lemma resolveSelfId_mux_env [simp]: "resolveSelfId mux_env_host h = Some ''a''"
  by (simp add: mux_env_host_def resolveSelfId_def currentPane_def env_get_def)

lemma claimPresence_effect_witness:
  "\<exists>a w'. claimPresence mux_env_host ''bob'' (demo_world\<lparr>hub := owner_hub\<rparr>) = (Inr a, w') \<and>
     a_presence a = Some ''a'' \<and> getAgent (a_id a) (hub w') = Inr (Some a)"
proof -
  let ?w = "demo_world\<lparr>hub := owner_hub\<rparr>"
  have free: "\<forall>n. lock_free (hub ?w) n" by (simp add: lock_free_def owner_hub_def empty_hub_def)
  have wf: "hub_wf (hub ?w)" by (simp add: owner_hub_wf)
  have "is_json ''s.json''" using is_json_id [of "''s''"] by (simp add: json_def)
  then have l: "resolveStandingOwner ''bob'' owner_hub = Inr ''s''"
    by (simp add: resolveStandingOwner_def listAgents_def readAll_def owner_hub_def demo_agent_def)
  have g: "getAgent ''s'' owner_hub = Inr (Some ((demo_agent ''s'')\<lparr>a_kind := Some StandingKind\<rparr>))"
    by (simp add: getAgent_simp owner_hub_def dget_def json_def safe_id_def unsafe_char_def slash_def)
  obtain r w' where run: "claimPresence mux_env_host ''bob'' ?w = (r, w')" by (cases "claimPresence mux_env_host ''bob'' ?w")
  have i: "safe_id (a_id (demo_agent ''s''))" by (simp add: demo_agent_def safe_id_def unsafe_char_def slash_def)
  have m: "mx_probe mux_env_host e x = ''tmux''" for e x by (simp add: mux_env_host_def)
  have "\<exists>a. r = Inr a"
    using run l g free i m
    by (auto simp: claimPresence_def eff_simps andThen_def withLock_free putAgent_simp Let_def)
  with claimPresence_effect [OF wf free run] run show ?thesis by auto
qed

text \<open>
  Reading a presence can throw. The rule for the unit standing in for an owner reads that
  unit's record, and a torn record file there raises the corrupt-record error.
\<close>
theorem presenceOf_can_throw:
  "presenceOf ((demo_agent ''s'')\<lparr>a_presence := Some ''u''\<rparr>) ((empty_hub ''/hub'')\<lparr>h_agents := [(''u.json'', Torn)]\<rparr>)
   = Inl (StoreE (CorruptRecord ''/hub/agents/u.json''))"
  by (simp add: presenceOf_def getAgent_simp dget_def json_def safe_id_def unsafe_char_def slash_def
      empty_hub_def path_join_def)

text \<open>
  The pane found for an agent is the name of its index file, not its pane: the encoded name.
  It differs from the pane that was indexed whenever the pane's id holds a character the
  encoding replaces, as every tmux pane id does.
\<close>
theorem findPane_is_encoded:
  assumes "\<forall>(f, j) \<in> set (h_panes h). f = paneKey p \<or> trim j \<noteq> i" and "trim i = i"
  shows "findPaneByAgentId i (putPaneIndex p i h) = Some (sanitizePane p) \<and>
    (sanitizePane p = p \<longleftrightarrow> (\<forall>c\<in>set p. is_alnum c \<or> c = CHR ''_'' \<or> c = CHR ''-''))"
proof -
  have "find (\<lambda>(f, j). ends_with f ''.id'' \<and> trim j = i) (dput (paneKey p) i d) = Some (paneKey p, i)"
    if "\<forall>(f, j) \<in> set d. f = paneKey p \<or> trim j \<noteq> i" for d
    using that assms(2) by (induction "paneKey p" i d rule: dput.induct) (auto simp: paneKey_def)
  with assms(1) have "findPaneByAgentId i (putPaneIndex p i h) = Some (sanitizePane p)"
    by (simp add: findPaneByAgentId_def putPaneIndex_def paneKey_def)
  then show ?thesis using sanitizePane_fixed by simp
qed

theorem findPane_is_encoded_witness:
  "findPaneByAgentId ''u1'' (putPaneIndex ''%3'' ''u1'' (empty_hub ''/hub'')) = Some ''_3'' \<and> ''_3'' \<noteq> ''%3''"
proof -
  have t: "trim ''u1'' = ''u1''" by (simp add: trim_def trim_end_def trim_start_def is_space_def)
  have s: "sanitizePane ''%3'' = ''_3''"
    by (simp add: sanitizePane_def is_alnum_def is_digit_def is_lower_def is_upper_def)
  show ?thesis
    using findPane_is_encoded [of "empty_hub ''/hub''" "''%3''" "''u1''", OF _ t] by (simp add: s empty_hub_def)
qed

end
