(* ===== verification/Message.thy ===== *)
theory Message
  imports Identity
begin

text \<open>
  \<open>message.ts\<close>, \<open>wake/await.ts\<close> and \<open>wake/watch.ts\<close>: sending mail, reading and acknowledging it,
  and the two loops that wait for it. The loops poll: between two rounds other processes act,
  which is the host's \<open>os_sleep\<close>. \<open>localeCompare\<close> on message ids (digits, a dash, lowercase hex)
  orders them as the character codes do.
\<close>

subsection \<open>Sending\<close>

record send_input =
  si_from :: string
  si_to :: string
  si_subject :: "string option"
  si_body :: string
  si_thread :: "string option"
  si_replyTo :: "string option"

definition messageId :: "nat \<Rightarrow> string \<Rightarrow> string" where
  "messageId ts hex = nat_str ts @ ''-'' @ hex"

definition send :: "'x host \<Rightarrow> send_input \<Rightarrow> ('x, message) op" where
  "send H inp =
     andThen (hubRead (resolveRecipient (si_to inp))) (\<lambda>toId.
     andThen (hubRead (getAgent (si_from inp))) (\<lambda>from.
     andThen (now H) (\<lambda>ts.
     andThen (extStep (os_random H 3)) (\<lambda>hex.
     let msg = \<lparr>
       m_id = messageId ts hex,
       m_from = si_from inp,
       m_fromHandle = defaultTo (map_option a_handle from) (si_from inp),
       m_to = toId,
       m_subject = truthy (si_subject inp),
       m_body = si_body inp,
       m_thread = truthy (si_thread inp),
       m_replyTo = truthy (si_replyTo inp),
       m_ts = ts,
       m_sentAt = ts\<rparr>
     in andThen (hubWrite (putMessage toId msg)) (\<lambda>_. ret msg)))))"

text \<open>\<open>stdin\<close> is what standard input holds; reading a missing file throws.\<close>

definition resolveBody :: "'x host \<Rightarrow> string \<Rightarrow> string option \<Rightarrow> string option \<Rightarrow> 'x \<Rightarrow> error + string" where
  "resolveBody H stdin body bodyFile x = (case body of
       Some b \<Rightarrow> Inr b
     | None \<Rightarrow> (case truthy bodyFile of
         Some f \<Rightarrow> if f = ''-'' then Inr stdin
                   else (case os_readFile H f x of Some t \<Rightarrow> Inr t | None \<Rightarrow> Inl (HostError ''ENOENT''))
       | None \<Rightarrow> Inl NoBody))"

subsection \<open>Reading\<close>

text \<open>An inbox item: the message, and whether it was read.\<close>

type_synonym inbox_item = "message \<times> bool"

record inbox_query =
  iq_me :: string
  iq_unread :: bool
  iq_from :: "string option"
  iq_thread :: "string option"

definition matches_from :: "string option \<Rightarrow> message \<Rightarrow> bool" where
  "matches_from f m \<longleftrightarrow> (case truthy f of None \<Rightarrow> True | Some x \<Rightarrow> m_from m = x \<or> m_fromHandle m = x)"

definition matches_thread :: "string option \<Rightarrow> message \<Rightarrow> bool" where
  "matches_thread t m \<longleftrightarrow> (case truthy t of None \<Rightarrow> True | Some x \<Rightarrow> m_thread m = Some x)"

definition inbox :: "inbox_query \<Rightarrow> hub \<Rightarrow> error + inbox_item list" where
  "inbox q h = (case listInbox (iq_me q) h of
       Inl e \<Rightarrow> Inl e
     | Inr (un, rd) \<Rightarrow>
         (let unread = map (\<lambda>m. (m, False)) un;
              acked = (if iq_unread q then [] else map (\<lambda>m. (m, True)) rd);
              items = unread @ acked;
              items = filter (\<lambda>i. matches_from (iq_from q) (fst i)) items;
              items = filter (\<lambda>i. matches_thread (iq_thread q) (fst i)) items
          in Inr (sort_key (\<lambda>i. m_id (fst i)) items)))"

definition peek :: "string \<Rightarrow> string \<Rightarrow> hub \<Rightarrow> error + message option" where
  "peek me mid h = (case listInbox me h of
       Inl e \<Rightarrow> Inl e
     | Inr (un, rd) \<Rightarrow> Inr (find (\<lambda>m. m_id m = mid) (un @ rd)))"

definition ack :: "string \<Rightarrow> string \<Rightarrow> hub \<Rightarrow> error + message \<times> hub" where
  "ack me mid h = ackMessage me mid h"

definition readAck :: "string \<Rightarrow> string \<Rightarrow> hub \<Rightarrow> error + (message \<times> bool) \<times> hub" where
  "readAck me mid h = (case listInbox me h of
       Inl e \<Rightarrow> Inl e
     | Inr (un, rd) \<Rightarrow>
         if \<exists>m\<in>set un. m_id m = mid
         then (case ackMessage me mid h of Inl e \<Rightarrow> Inl e | Inr (m, h') \<Rightarrow> Inr ((m, True), h'))
         else (case find (\<lambda>m. m_id m = mid) rd of
             Some m \<Rightarrow> Inr ((m, False), h)
           | None \<Rightarrow> Inl (StoreE (NotInInbox mid))))"

definition deleteMessage :: "string \<Rightarrow> string \<Rightarrow> hub \<Rightarrow> error + hub" where
  "deleteMessage me mid h = removeMessage me mid h"

definition deleteMailbox :: "string \<Rightarrow> hub \<Rightarrow> error + hub" where
  "deleteMailbox i h = removeMailbox i h"

subsection \<open>Waiting for a reply\<close>

definition POLL_MS :: nat where
  "POLL_MS = 1000"

record await_input =
  aw_me :: string
  aw_thread :: string
  aw_from :: "string option"
  aw_timeoutMs :: "nat option"
  aw_maxWaitS :: "nat option"

datatype await_outcome = Matched inbox_item | Waiting | TimedOut

definition DEFAULT_TIMEOUT_MS :: nat where
  "DEFAULT_TIMEOUT_MS = 600000"

definition DEFAULT_MAX_WAIT_S :: nat where
  "DEFAULT_MAX_WAIT_S = 240"

definition awaitQuery :: "await_input \<Rightarrow> inbox_query" where
  "awaitQuery inp = \<lparr>iq_me = aw_me inp, iq_unread = True, iq_from = aw_from inp, iq_thread = Some (aw_thread inp)\<rparr>"

fun await_loop :: "'x host \<Rightarrow> await_input \<Rightarrow> nat \<Rightarrow> nat \<Rightarrow> nat \<Rightarrow> nat \<Rightarrow> ('x, await_outcome) op" where
  "await_loop H inp start timeout deadline 0 = throw out_of_fuel"
| "await_loop H inp start timeout deadline (Suc fuel) =
     andThen (hubRead (inbox (awaitQuery inp))) (\<lambda>items.
     case items of
       item # rest \<Rightarrow>
         andThen (hubStep (ack (aw_me inp) (m_id (fst item)))) (\<lambda>_. ret (Matched item))
     | [] \<Rightarrow>
         andThen (now H) (\<lambda>t.
         if timeout \<noteq> 0 \<and> timeout \<le> t - start then ret TimedOut
         else if deadline \<le> t then ret Waiting
         else andThen (sleep H POLL_MS) (\<lambda>_. await_loop H inp start timeout deadline fuel)))"

text \<open>One round per second of the cycle, and one more.\<close>

definition awaitReply :: "'x host \<Rightarrow> await_input \<Rightarrow> ('x, await_outcome) op" where
  "awaitReply H inp =
     (let timeout = defaultTo (aw_timeoutMs inp) DEFAULT_TIMEOUT_MS;
          maxWait = defaultTo (aw_maxWaitS inp) DEFAULT_MAX_WAIT_S * 1000
      in andThen (now H) (\<lambda>start.
         await_loop H inp start timeout (start + maxWait) (Suc (maxWait div POLL_MS + 1))))"

subsection \<open>Watching\<close>

record watch_input =
  wi_me :: string
  wi_thread :: "string option"
  wi_from :: "string option"

definition watchQuery :: "watch_input \<Rightarrow> inbox_query" where
  "watchQuery inp = \<lparr>iq_me = wi_me inp, iq_unread = False, iq_from = wi_from inp, iq_thread = wi_thread inp\<rparr>"

text \<open>The messages of one round that were not seen before, and the ids seen after it.\<close>

fun watch_round :: "string list \<Rightarrow> inbox_item list \<Rightarrow> inbox_item list \<times> string list" where
  "watch_round seen [] = ([], seen)"
| "watch_round seen (i # is) =
     (if m_id (fst i) \<in> set seen then watch_round seen is
      else (case watch_round (m_id (fst i) # seen) is of (out, seen') \<Rightarrow> (i # out, seen')))"

text \<open>\<open>maxIterations\<close> rounds, or until the process is interrupted after that many.\<close>

fun watch_loop :: "'x host \<Rightarrow> watch_input \<Rightarrow> nat \<Rightarrow> string list \<Rightarrow> ('x, inbox_item list) op" where
  "watch_loop H inp 0 seen = ret []"
| "watch_loop H inp (Suc n) seen =
     andThen (hubRead (inbox (watchQuery inp))) (\<lambda>items.
     case watch_round seen items of (out, seen') \<Rightarrow>
       if n = 0 then ret out
       else andThen (sleep H POLL_MS) (\<lambda>_.
         andThen (watch_loop H inp n seen') (\<lambda>more. ret (out @ more))))"

definition watchMail :: "'x host \<Rightarrow> watch_input \<Rightarrow> nat \<Rightarrow> ('x, inbox_item list) op" where
  "watchMail H inp iterations =
     andThen (hubRead (inbox (watchQuery inp))) (\<lambda>items.
     watch_loop H inp (max 1 iterations) (map (\<lambda>i. m_id (fst i)) items))"

subsection \<open>Every operation keeps the hub well formed\<close>

lemma wf_send [pres]: "wf_op (send H inp)"
  unfolding send_def by (intro pres) (auto dest: store_wf)

lemma wf_await_loop [pres]: "others_wf H \<Longrightarrow> wf_op (await_loop H inp s t d n)"
proof (induction n)
  case 0
  show ?case by (simp add: pres_throw)
next
  case (Suc n)
  have "wf_op (hubStep (ack me mid))" for me mid
    by (rule wf_hubStep) (auto simp: ack_def dest: ackMessage_wf)
  with Suc show ?case
    by (simp only: await_loop.simps) (intro pres, auto simp: ack_def dest: ackMessage_wf)
qed

lemma wf_awaitReply [pres]: "others_wf H \<Longrightarrow> wf_op (awaitReply H inp)"
  unfolding awaitReply_def Let_def by (intro pres)

lemma wf_watch_loop [pres]: "others_wf H \<Longrightarrow> wf_op (watch_loop H inp n seen)"
proof (induction n arbitrary: seen)
  case 0
  show ?case by (simp add: pres_ret)
next
  case (Suc n)
  then show ?case by (simp only: watch_loop.simps) (intro pres, auto)
qed

lemma wf_watchMail [pres]: "others_wf H \<Longrightarrow> wf_op (watchMail H inp n)"
  unfolding watchMail_def by (intro pres)

lemma readAck_wf: "hub_wf h \<Longrightarrow> readAck me mid h = Inr (r, h') \<Longrightarrow> hub_wf h'"
  by (auto simp: readAck_def split: sum.splits prod.splits if_splits option.splits dest: ackMessage_wf)

subsection \<open>Reading an inbox\<close>

lemma inbox_wf:
  assumes "hub_wf h" "safe_id (iq_me q)"
  obtains its where "inbox q h = Inr its" "sorted (map (\<lambda>i. m_id (fst i)) its)"
    "set its = {(m, r). (r = False \<and> m \<in> set (unreadOf (iq_me q) h) \<or>
        r = True \<and> \<not> iq_unread q \<and> m \<in> set (readOf (iq_me q) h)) \<and>
      matches_from (iq_from q) m \<and> matches_thread (iq_thread q) m}"
proof -
  obtain un rd where l: "listInbox (iq_me q) h = Inr (un, rd)"
    by (rule listInbox_wf [OF assms])
  show thesis
    by (rule that [unfolded inbox_def l Let_def sum.case prod.case, OF refl])
      (auto simp: unreadOf_def readOf_def l)
qed

lemma inbox_unsafe: "\<not> safe_id (iq_me q) \<Longrightarrow> inbox q h = Inr []"
  by (simp add: inbox_def listInbox_unsafe)

lemma listInbox_cong:
  assumes "h_root h = h_root h'" "mailboxOf h i = mailboxOf h' i"
  shows "listInbox i h = listInbox i h'"
  unfolding listInbox_def assms by (rule refl)

lemma listInbox_putMailbox:
  "j \<noteq> i \<Longrightarrow> listInbox j (putMailbox i b h) = listInbox j h"
  by (rule listInbox_cong) simp_all

lemma safe_messageId:
  assumes "\<forall>c\<in>set hex. \<not> unsafe_char c"
  shows "safe_id (messageId ts hex)"
proof -
  have "\<not> unsafe_char c" if "c \<in> set (nat_str ts)" for c
    using nat_str_digits [OF that] by (auto simp: unsafe_char_def is_digit_def slash_def)
  then have "\<forall>c\<in>set (messageId ts hex). \<not> unsafe_char c"
    using assms by (auto simp: messageId_def unsafe_char_def slash_def)
  moreover have "CHR ''-'' \<in> set (messageId ts hex)" by (simp add: messageId_def)
  ultimately show ?thesis by (auto simp: safe_id_def)
qed

lemma listAgents_putMailbox: "listAgents (putMailbox i b h) = listAgents h"
  by (simp add: listAgents_def agentsDir_def putMailbox_def)

lemma resolveRecipient_stored:
  assumes "hub_wf h" "resolveRecipient to h = Inr i"
  shows "\<exists>a. getAgent i h = Inr (Some a) \<and> safe_id i"
proof -
  obtain rs where rs: "listAgents h = Inr rs" "set rs = {a. stored h a}"
    by (rule listAgents_stored [OF assms(1)])
  have "\<exists>a. getAgent i h = Inr (Some a)"
    using assms(2) rs
    by (auto simp: resolveRecipient_def matchHandle_def Let_def stored_def
        dest!: pickLive_Inr [THEN conjunct1] split: sum.splits option.splits)
  then show ?thesis using getAgent_wf_id [OF assms(1)] by blast
qed

text \<open>A send, for the theorem and for the components that send.\<close>

lemma send_outcome:
  assumes "hub_wf (hub w)" and "send H inp w = (r, w')"
  shows "case r of
      Inl e \<Rightarrow> hub w' = hub w
    | Inr m \<Rightarrow> resolveRecipient (si_to inp) (hub w) = Inr (m_to m) \<and>
        m_from m = si_from inp \<and> m_body m = si_body inp \<and> m_ts m = os_now H (ext w) \<and>
        set (unreadOf (m_to m) (hub w')) =
          insert m {x \<in> set (unreadOf (m_to m) (hub w)). m_id x \<noteq> m_id m} \<and>
        set (readOf (m_to m) (hub w')) = set (readOf (m_to m) (hub w)) \<and>
        (\<forall>j. j \<noteq> m_to m \<longrightarrow> listInbox j (hub w') = listInbox j (hub w)) \<and>
        listAgents (hub w') = listAgents (hub w)"
proof (cases r)
  case (Inl e)
  with assms(2) have "hub w' = hub w"
    by (auto simp: send_def eff_simps andThen_def Let_def split: sum.splits prod.splits)
  with Inl show ?thesis by simp
next
  case (Inr m)
  with assms(2) obtain h1 where to: "resolveRecipient (si_to inp) (hub w) = Inr (m_to m)"
    and m: "m_from m = si_from inp" "m_body m = si_body inp" "m_ts m = os_now H (ext w)"
    and put: "putMessage (m_to m) m (hub w) = Inr h1" and w': "hub w' = h1"
    by (auto simp: send_def eff_simps andThen_def Let_def split: sum.splits prod.splits)
  have ok: "mail_ok (m_to m) (hub w)"
    using resolveRecipient_stored [OF assms(1) to] assms(1) by (simp add: mail_ok_def)
  have "listInbox j h1 = listInbox j (hub w)" if "j \<noteq> m_to m" for j
    using put that by (auto simp: putMessage_simp listInbox_putMailbox split: if_splits)
  moreover have "listAgents h1 = listAgents (hub w)"
    using put by (auto simp: putMessage_simp listAgents_putMailbox split: if_splits)
  ultimately show ?thesis
    using Inr to m w' hub_mail.deliver_unread [OF ok put] hub_mail.deliver_read [OF ok put] by simp
qed

subsection \<open>Properties\<close>


definition demo_send :: send_input where
  "demo_send = \<lparr>si_from = ''zz'', si_to = ''a'', si_subject = None, si_body = ''hi'', si_thread = Some ''t'', si_replyTo = None\<rparr>"


text \<open>
  Reading with acknowledgement is idempotent. Whatever the first read returns, the same read
  again returns the same message, now already acknowledged, and changes nothing.
\<close>
lemma readAck_idempotent:
  assumes "hub_wf h" and "safe_id me" and "readAck me mid h = Inr ((m, acked), h')"
  shows "m_id m = mid \<and> m \<in> set (readOf me h') \<and> readAck me mid h' = Inr ((m, False), h')"
proof -
  obtain un rd where l: "listInbox me h = Inr (un, rd)" by (rule listInbox_wf [OF assms(1,2)])
  have wf': "hub_wf h'" by (rule readAck_wf [OF assms(1,3)])
  obtain un' rd' where l': "listInbox me h' = Inr (un', rd')" "distinct (map m_id rd')"
    by (rule listInbox_wf [OF wf' assms(2)])
  have same: "find (\<lambda>x. m_id x = mid) rd' = Some m" if "m \<in> set rd'" "m_id m = mid"
  proof (cases "find (\<lambda>x. m_id x = mid) rd'")
    case None
    with that show ?thesis by (auto simp: find_None_all)
  next
    case (Some x)
    then have "x \<in> set rd'" "m_id x = mid" by (auto dest: find_Some_set)
    with that l'(2) have "x = m" by (auto simp: distinct_map inj_on_def)
    with Some show ?thesis by simp
  qed
  show ?thesis
  proof (cases acked)
    case True
    with assms(3) l have a: "ackMessage me mid h = Inr (m, h')"
      by (auto simp: readAck_def split: if_splits sum.splits prod.splits option.splits)
    have ok: "mail_ok me h" using assms by (simp add: mail_ok_def)
    have "m_id m = mid" using hub_mail.ack_ok [OF ok a] by simp
    moreover have "m \<in> set rd'" using hub_mail.ack_read [OF ok a] l' by (simp add: readOf_def)
    moreover have "\<not> (\<exists>x\<in>set un'. m_id x = mid)"
      using hub_mail.ack_unread [OF ok a] l' by (auto simp: unreadOf_def)
    ultimately show ?thesis using same l' by (simp add: readAck_def readOf_def)
  next
    case False
    with assms(3) l have h': "h' = h" and no: "\<not> (\<exists>x\<in>set un. m_id x = mid)"
      and f: "find (\<lambda>x. m_id x = mid) rd = Some m"
      by (auto simp: readAck_def split: if_splits sum.splits prod.splits option.splits)
    have "m_id m = mid" "m \<in> set rd" using f by (auto dest: find_Some_set)
    with h' no f l show ?thesis by (auto simp: readAck_def readOf_def)
  qed
qed

lemma readAck_idempotent_witness:
  "\<exists>h'. readAck ''b'' ''m1'' hub2 = Inr ((demo_message ''m1'', True), h') \<and>
     readAck ''b'' ''m1'' h' = Inr ((demo_message ''m1'', False), h')"
proof -
  have b: "safe_id ''b''" by (simp add: safe_id_def unsafe_char_def slash_def)
  have "is_json ''m1.json''" using is_json_id [of "''m1''"] by (simp add: json_def)
  then have "listInbox ''b'' hub2 = Inr ([demo_message ''m1''], [])"
    by (simp add: listInbox_def path_defs b hub2_def mailboxOf_def dget_def readAll_def)
  moreover obtain h' where "ackMessage ''b'' ''m1'' hub2 = Inr (demo_message ''m1'', h')"
    by (simp add: ackMessage_simp hub2_def mailboxOf_def dget_def json_def safe_id_def unsafe_char_def slash_def)
  ultimately have r: "readAck ''b'' ''m1'' hub2 = Inr ((demo_message ''m1'', True), h')"
    by (simp add: readAck_def demo_message_def)
  with readAck_idempotent [OF hub2_wf b r] show ?thesis by blast
qed

subsection \<open>The waiting loops\<close>

text \<open>What a round of the await loop finds, takes and leaves behind.\<close>

definition await_found :: "await_input \<Rightarrow> hub \<Rightarrow> inbox_item \<Rightarrow> bool" where
  "await_found inp h i \<longleftrightarrow> snd i = False \<and> matches_thread (Some (aw_thread inp)) (fst i) \<and>
     matches_from (aw_from inp) (fst i) \<and>
     fst i \<in> set (readOf (aw_me inp) h) \<and> fst i \<notin> set (unreadOf (aw_me inp) h)"

definition await_result :: "'x host \<Rightarrow> await_input \<Rightarrow> nat \<Rightarrow> nat \<Rightarrow> nat \<Rightarrow> error + await_outcome \<Rightarrow> 'x world \<Rightarrow> bool" where
  "await_result H inp start timeout deadline r w' \<longleftrightarrow> (case r of
       Inl e \<Rightarrow> False
     | Inr (Matched i) \<Rightarrow> await_found inp (hub w') i
     | Inr TimedOut \<Rightarrow> timeout \<noteq> 0 \<and> timeout \<le> os_now H (ext w') - start
     | Inr Waiting \<Rightarrow> deadline \<le> os_now H (ext w'))"

text \<open>One round on a well-formed hub: a match, the end of the wait, or a sleep.\<close>

lemma await_round:
  assumes "hub_wf (hub w)" "safe_id (aw_me inp)"
    and run: "await_loop H inp start timeout deadline (Suc n) w = (r, w')"
  shows "await_result H inp start timeout deadline r w' \<or>
    os_now H (ext w) < deadline \<and> await_loop H inp start timeout deadline n (os_sleep H POLL_MS w) = (r, w')"
proof -
  obtain items where its: "inbox (awaitQuery inp) (hub w) = Inr items"
    "set items = {(m, r). (r = False \<and> m \<in> set (unreadOf (iq_me (awaitQuery inp)) (hub w)) \<or>
        r = True \<and> \<not> iq_unread (awaitQuery inp) \<and> m \<in> set (readOf (iq_me (awaitQuery inp)) (hub w))) \<and>
      matches_from (iq_from (awaitQuery inp)) m \<and> matches_thread (iq_thread (awaitQuery inp)) m}"
    by (rule inbox_wf [of "hub w" "awaitQuery inp"]) (use assms in \<open>auto simp: awaitQuery_def\<close>)
  have ok: "mail_ok (aw_me inp) (hub w)" using assms by (simp add: mail_ok_def)
  show ?thesis
  proof (cases items)
    case Nil
    with run its(1) show ?thesis
      by (auto simp: eff_simps andThen_def await_result_def split: if_splits)
  next
    case (Cons i rest)
    obtain m b where i: "i = (m, b)" by (cases i)
    have m: "b = False" "m \<in> set (unreadOf (aw_me inp) (hub w))" "matches_from (aw_from inp) m"
      "matches_thread (Some (aw_thread inp)) m"
      using its(2) Cons i by (auto simp: awaitQuery_def)
    obtain m' h' where a: "ackMessage (aw_me inp) (m_id m) (hub w) = Inr (m', h')"
      using hub_mail.ack_fails [OF ok _ m(2)] by (cases "ackMessage (aw_me inp) (m_id m) (hub w)") auto
    have mm: "m' = m" using hub_mail.unread_unique [OF ok _ m(2)] hub_mail.ack_ok [OF ok a] by blast
    have "r = Inr (Matched i)" "hub w' = h'"
      using run its(1) Cons i a by (auto simp: eff_simps andThen_def ack_def)
    moreover have "await_found inp h' i"
      using m i mm hub_mail.ack_read [OF ok a] hub_mail.ack_unread [OF ok a] by (simp add: await_found_def)
    ultimately show ?thesis by (simp add: await_result_def)
  qed
qed

lemma await_loop_result:
  assumes "clock_advances H" "others_wf H" "safe_id (aw_me inp)"
  shows "hub_wf (hub w) \<Longrightarrow> deadline \<le> os_now H (ext w) + POLL_MS * n \<Longrightarrow>
    await_loop H inp start timeout deadline (Suc n) w = (r, w') \<Longrightarrow>
    await_result H inp start timeout deadline r w'"
proof (induction n arbitrary: w)
  case 0
  then show ?case using await_round [OF "0.prems"(1) assms(3) "0.prems"(3)] by auto
next
  case (Suc n)
  from await_round [OF Suc.prems(1) assms(3) Suc.prems(3)] show ?case
  proof
    assume "os_now H (ext w) < deadline \<and>
      await_loop H inp start timeout deadline (Suc n) (os_sleep H POLL_MS w) = (r, w')"
    moreover have "hub_wf (hub (os_sleep H POLL_MS w))"
      using assms(2) Suc.prems(1) by (simp add: others_wf_def)
    moreover have "deadline \<le> os_now H (ext (os_sleep H POLL_MS w)) + POLL_MS * n"
    proof -
      have "os_now H (ext w) + POLL_MS \<le> os_now H (ext (os_sleep H POLL_MS w))"
        using assms(1) by (simp add: clock_advances_def)
      with Suc.prems(2) show ?thesis by simp
    qed
    ultimately show ?thesis using Suc.IH by blast
  qed
qed


lemma demo_host_good: "clock_advances demo_host" "others_wf demo_host"
  by (simp_all add: clock_advances_def others_wf_def)


lemma watch_round_spec:
  "watch_round seen its = (out, seen') \<Longrightarrow>
   set seen' = set seen \<union> set (map (\<lambda>i. m_id (fst i)) its) \<and> distinct (map (\<lambda>i. m_id (fst i)) out) \<and>
   set (map (\<lambda>i. m_id (fst i)) out) = set (map (\<lambda>i. m_id (fst i)) its) - set seen \<and> set out \<subseteq> set its"
proof (induction seen its arbitrary: out seen' rule: watch_round.induct)
  case (1 seen)
  then show ?case by simp
next
  case (2 seen i its)
  show ?case
  proof (cases "m_id (fst i) \<in> set seen")
    case True
    with 2 show ?thesis by auto
  next
    case False
    then obtain out0 where o: "watch_round (m_id (fst i) # seen) its = (out0, seen')" "out = i # out0"
      using "2.prems" by (auto split: prod.splits)
    from "2.IH"(2) [OF False o(1)] False o(2) show ?thesis by auto
  qed
qed

lemma watch_loop_spec:
  "watch_loop H inp n seen w = (Inr out, w') \<Longrightarrow>
   distinct (map (\<lambda>i. m_id (fst i)) out) \<and> set (map (\<lambda>i. m_id (fst i)) out) \<inter> set seen = {}"
proof (induction n arbitrary: seen w out w')
  case 0
  then show ?case by (simp add: ret_def)
next
  case (Suc n)
  then obtain items out0 seen' where its: "inbox (watchQuery inp) (hub w) = Inr items"
    and r: "watch_round seen items = (out0, seen')"
    by (auto simp: eff_simps andThen_def split: sum.splits prod.splits if_splits)
  note spec = watch_round_spec [OF r]
  show ?case
  proof (cases "n = 0")
    case True
    with Suc.prems its r spec show ?thesis by (auto simp: eff_simps andThen_def)
  next
    case False
    with Suc.prems its r obtain more w2 where m: "watch_loop H inp n seen' (os_sleep H POLL_MS w) = (Inr more, w2)"
      "out = out0 @ more"
      by (auto simp: eff_simps andThen_def split: sum.splits prod.splits)
    from Suc.IH [OF m(1)] spec m(2) show ?thesis by auto
  qed
qed

text \<open>
  Watching prints each message once, and only mail that arrives after it starts: no printed
  id was in the inbox at the start, none is printed twice, over any number of rounds and
  whatever arrives, is read or is removed between them.
\<close>
lemma watchMail_once:
  assumes "watchMail H inp n w = (Inr out, w')" and "inbox (watchQuery inp) (hub w) = Inr seed"
  shows "distinct (map (\<lambda>i. m_id (fst i)) out) \<and>
    set (map (\<lambda>i. m_id (fst i)) out) \<inter> set (map (\<lambda>i. m_id (fst i)) seed) = {}"
  using assms watch_loop_spec [of H inp "max 1 n" "map (\<lambda>i. m_id (fst i)) seed" w out w']
  by (simp add: watchMail_def eff_simps andThen_def)

text \<open>A host on which one message for \<open>b\<close> arrives during every sleep.\<close>

definition mail_host :: "nat host" where
  "mail_host = demo_host\<lparr>os_sleep := (\<lambda>ms w. w\<lparr>hub := hub2, ext := ext w + ms\<rparr>)\<rparr>"

lemma listInbox_hub2: "listInbox ''b'' hub2 = Inr ([demo_message ''m1''], [])"
proof -
  have "is_json ''m1.json''" using is_json_id [of "''m1''"] by (simp add: json_def)
  moreover have "safe_id ''b''" by (simp add: safe_id_def unsafe_char_def slash_def)
  ultimately show ?thesis by (simp add: listInbox_def path_defs hub2_def mailboxOf_def dget_def readAll_def)
qed

lemma watchMail_once_witness:
  "\<exists>out w'. watchMail mail_host \<lparr>wi_me = ''b'', wi_thread = None, wi_from = None\<rparr> 3 demo_world = (Inr out, w') \<and>
     distinct (map (\<lambda>i. m_id (fst i)) out) \<and> out = [(demo_message ''m1'', False)]"
proof -
  let ?i = "\<lparr>wi_me = ''b'', wi_thread = None, wi_from = None\<rparr>"
  have s: "inbox (watchQuery ?i) (hub demo_world) = Inr []"
    by (simp add: watchQuery_def inbox_def listInbox_def path_defs demo_world_def empty_hub_def mailboxOf_def
        empty_mailbox_def readAll_def safe_id_def unsafe_char_def slash_def)
  have i2: "inbox (watchQuery ?i) hub2 = Inr [(demo_message ''m1'', False)]"
    by (simp add: watchQuery_def inbox_def listInbox_hub2 matches_from_def matches_thread_def)
  have z: "hub (os_sleep mail_host ms w) = hub2" for ms w by (simp add: mail_host_def)
  have "\<exists>w'. watchMail mail_host ?i 3 demo_world = (Inr [(demo_message ''m1'', False)], w')"
    by (simp add: watchMail_def eff_simps andThen_def s i2 z eval_nat_numeral)
  then obtain w' where run: "watchMail mail_host ?i 3 demo_world = (Inr [(demo_message ''m1'', False)], w')" by blast
  from watchMail_once [OF run s] run show ?thesis by blast
qed

subsection \<open>Order of an inbox\<close>

lemma append_le_prefix:
  fixes xs ys :: string
  shows "length xs = length ys \<Longrightarrow> xs @ us \<le> ys @ vs \<Longrightarrow> xs \<le> ys"
  by (induction xs ys rule: list_induct2) auto

lemma digit_char_less: "a < 10 \<Longrightarrow> b < 10 \<Longrightarrow> digit_char a \<le> digit_char b \<longleftrightarrow> a \<le> b"
  by (simp add: less_eq_char_def of_char_digit)

lemma nat_str_le:
  "length (nat_str a) = length (nat_str b) \<Longrightarrow> nat_str a \<le> nat_str b \<Longrightarrow> a \<le> b"
proof (induction a arbitrary: b rule: nat_str.induct)
  case (1 a)
  have multi: "length (nat_str n) \<noteq> 1" if "\<not> n < 10" for n
    using that by (simp add: nat_str.simps [of n])
  have single: "length (nat_str n) = 1" if "n < 10" for n
    using that by (simp add: nat_str.simps [of n])
  show ?case
  proof (cases "a < 10")
    case True
    then have "b < 10" using "1.prems"(1) multi single by metis
    with True "1.prems"(2) have "digit_char a \<le> digit_char b"
      by (auto simp: nat_str.simps [of a] nat_str.simps [of b])
    with True \<open>b < 10\<close> show ?thesis by (simp add: digit_char_less)
  next
    case False
    then have b: "\<not> b < 10" using "1.prems"(1) multi single by metis
    have l: "length (nat_str (a div 10)) = length (nat_str (b div 10))"
      using "1.prems"(1) False b by (simp add: nat_str.simps [of a] nat_str.simps [of b])
    have le: "nat_str (a div 10) @ [digit_char (a mod 10)] \<le> nat_str (b div 10) @ [digit_char (b mod 10)]"
      using "1.prems"(2) False b by (simp add: nat_str.simps [of a] nat_str.simps [of b])
    from "1.IH" [OF False l append_le_prefix [OF l le]] have d: "a div 10 \<le> b div 10" .
    show ?thesis
    proof (cases "a div 10 = b div 10")
      case True
      have "xs @ [x] \<le> xs @ [y] \<Longrightarrow> x \<le> y" for xs :: string and x y
        by (induction xs) auto
      with le True have "digit_char (a mod 10) \<le> digit_char (b mod 10)" by simp
      then have "a mod 10 \<le> b mod 10" by (simp add: digit_char_less)
      with True show ?thesis by (metis add_le_cancel_left div_mod_decomp)
    next
      case False
      with d show ?thesis by (metis div_le_mono linorder_le_cases order_antisym)
    qed
  qed
qed

text \<open>
  An inbox is listed in the order it was sent: when the ids are those send gives (the time,
  a dash, random hex) and the times have equally many digits, the lexical order of ids is the
  order of times.
\<close>
theorem inbox_chronological:
  assumes "inbox q h = Inr its"
    and "\<forall>i\<in>set its. (\<exists>hex. m_id (fst i) = messageId (m_ts (fst i)) hex) \<and> length (nat_str (m_ts (fst i))) = k"
  shows "sorted (map (\<lambda>i. m_ts (fst i)) its)"
proof -
  have s: "sorted (map (\<lambda>i. m_id (fst i)) its)"
    using assms(1) by (auto simp: inbox_def Let_def split: sum.splits prod.splits)
  have le: "m_ts (fst i) \<le> m_ts (fst j)"
    if ij: "i \<in> set its" "j \<in> set its" "m_id (fst i) \<le> m_id (fst j)" for i j
  proof -
    obtain x y where x: "m_id (fst i) = nat_str (m_ts (fst i)) @ ''-'' @ x" "m_id (fst j) = nat_str (m_ts (fst j)) @ ''-'' @ y"
      using assms(2) ij(1,2) unfolding messageId_def by blast
    have l: "length (nat_str (m_ts (fst i))) = length (nat_str (m_ts (fst j)))" using assms(2) ij by auto
    show ?thesis using nat_str_le [OF l] append_le_prefix [OF l] ij(3) unfolding x by blast
  qed
  show ?thesis
    using s le by (auto simp: sorted_iff_nth_mono)
qed

theorem inbox_chronological_witness:
  "sorted (map (\<lambda>i. m_ts (fst i)) [((demo_message ''m1'')\<lparr>m_id := messageId 7 ''ab''\<rparr>, False)])"
proof -
  let ?m = "(demo_message ''m1'')\<lparr>m_id := messageId 7 ''ab''\<rparr>"
  let ?h = "(empty_hub ''/hub'')\<lparr>h_inbox := [(''b'', \<lparr>mb_unread = [(messageId 7 ''ab'' @ json, Json ?m)], mb_read = []\<rparr>)]\<rparr>"
  let ?q = "\<lparr>iq_me = ''b'', iq_unread = True, iq_from = None, iq_thread = None\<rparr>"
  have "inbox ?q ?h = Inr [(?m, False)]"
    by (simp add: inbox_def listInbox_def path_defs mailboxOf_def dget_def readAll_def matches_from_def
        matches_thread_def safe_id_def unsafe_char_def slash_def)
  from inbox_chronological [OF this, of 1] show ?thesis
    by (auto simp: demo_message_def nat_str.simps [of 7])
qed

end
