(* ===== verification/Project.thy ===== *)
theory Project
  imports Identity
begin

text \<open>
  \<open>project.ts\<close>: a project is one git repository, known by an id derived from its common git
  directory, so every checkout of it is the same project.
\<close>

definition realOrResolved :: "'x host \<Rightarrow> string \<Rightarrow> 'x \<Rightarrow> string" where
  "realOrResolved H p x = (case os_realpath H p x of Some r \<Rightarrow> r | None \<Rightarrow> resolve_path (os_cwd H) p)"

definition commonDirOf :: "'x host \<Rightarrow> string \<Rightarrow> ('x, string option) op" where
  "commonDirOf H dir =
     andThen (exec H ''git'' [''-C'', dir, ''rev-parse'', ''--path-format=absolute'', ''--git-common-dir'']) (\<lambda>out.
     case truthy out of
       None \<Rightarrow> ret None
     | Some p \<Rightarrow> extGet (\<lambda>x. Some (realOrResolved H p x)))"

definition projectIdOf :: "'x host \<Rightarrow> string \<Rightarrow> string" where
  "projectIdOf H commonDir = ''prj-'' @ take 16 (os_sha256 H commonDir)"

definition defaultCheckoutOf :: "'x host \<Rightarrow> string \<Rightarrow> string \<Rightarrow> ('x, string \<times> bool) op" where
  "defaultCheckoutOf H dir commonDir =
     andThen (exec H ''git'' [''-C'', dir, ''rev-parse'', ''--path-format=absolute'', ''--git-dir'']) (\<lambda>gitDir.
     andThen (exec H ''git'' [''-C'', dir, ''rev-parse'', ''--show-toplevel'']) (\<lambda>top.
     extGet (\<lambda>x. case (truthy gitDir, truthy top) of
         (Some g, Some t) \<Rightarrow>
           if realOrResolved H g x = commonDir then (realOrResolved H t x, True) else (dirname commonDir, False)
       | _ \<Rightarrow> (dirname commonDir, False))))"

definition registerProject :: "'x host \<Rightarrow> string option \<Rightarrow> ('x, project) op" where
  "registerProject H inputDir =
     (let dir = resolve_path (os_cwd H) (defaultTo inputDir (os_cwd H))
      in andThen (commonDirOf H dir) (\<lambda>cd.
         case truthy cd of None \<Rightarrow> throw (ServiceE (NotARepository dir)) | Some commonDir \<Rightarrow>
         andThen (hubSet ensureMarker) (\<lambda>_.
         let i = projectIdOf H commonDir
         in andThen (hubRead (getProject i)) (\<lambda>existing.
            andThen (defaultCheckoutOf H dir commonDir) (\<lambda>(root0, exact).
            andThen (now H) (\<lambda>ts.
            let root = (case existing of None \<Rightarrow> root0 | Some e \<Rightarrow> if exact then root0 else p_root e);
                rec = \<lparr>
                  p_id = i,
                  p_name = basename root,
                  p_root = root,
                  p_commonDir = commonDir,
                  p_registeredAt = defaultTo (map_option p_registeredAt existing) ts,
                  p_subject = None\<rparr>
            in andThen (hubWrite (putProject rec)) (\<lambda>_. ret rec)))))))"

definition looksLikePath :: "string \<Rightarrow> bool" where
  "looksLikePath ref \<longleftrightarrow> is_absolute ref \<or> starts_with ref ''.'' \<or> slash \<in> set ref"

definition isDirectory :: "'x host \<Rightarrow> string \<Rightarrow> 'x \<Rightarrow> bool" where
  "isDirectory H p x \<longleftrightarrow> os_exists H p x \<and> os_isDir H p x"

definition byPath :: "'x host \<Rightarrow> string \<Rightarrow> ('x, project) op" where
  "byPath H dir =
     andThen (commonDirOf H dir) (\<lambda>cd.
     case truthy cd of None \<Rightarrow> throw (ServiceE (NotARepository dir)) | Some commonDir \<Rightarrow>
     andThen (hubRead (getProject (projectIdOf H commonDir))) (\<lambda>p.
     case p of Some r \<Rightarrow> ret r | None \<Rightarrow> registerProject H (Some dir)))"

definition resolveProject :: "'x host \<Rightarrow> string \<Rightarrow> ('x, project) op" where
  "resolveProject H ref =
     andThen (hubRead (getProject ref)) (\<lambda>byId.
     case byId of Some p \<Rightarrow> ret p | None \<Rightarrow>
     let asPath = resolve_path (os_cwd H) ref
     in andThen (extGet (isDirectory H asPath)) (\<lambda>isDir.
        if looksLikePath ref \<and> isDir then byPath H asPath
        else andThen (hubRead listProjects) (\<lambda>projects.
          case filter (\<lambda>p. p_name p = ref) projects of
            [p] \<Rightarrow> ret p
          | p # q # ps \<Rightarrow> throw (ServiceE (AmbiguousProject ref (map p_id (p # q # ps))))
          | [] \<Rightarrow> if isDir then byPath H asPath else throw (ServiceE (NoProject ref)))))"

subsection \<open>What registering does to the hub\<close>

lemma hub_commonDirOf: "keeps hub (commonDirOf H dir)"
  unfolding commonDirOf_def by (intro frame keeps_hub_exec [of "\<lambda>x. x"])

lemma hub_defaultCheckoutOf: "keeps hub (defaultCheckoutOf H dir cd)"
  unfolding defaultCheckoutOf_def by (intro frame keeps_hub_exec [of "\<lambda>x. x"])

lemma getProject_ensureMarker [simp]: "getProject i (ensureMarker h) = getProject i h"
  by (simp add: getProject_simp)

lemma registerProject_ok:
  assumes "registerProject H d w = (Inr r, w')"
  shows "\<exists>existing root exact cd ts. getProject (p_id r) (hub w) = Inr existing \<and>
    r = \<lparr>p_id = projectIdOf H cd,
         p_name = basename (case existing of None \<Rightarrow> root | Some e \<Rightarrow> if exact then root else p_root e),
         p_root = (case existing of None \<Rightarrow> root | Some e \<Rightarrow> if exact then root else p_root e),
         p_commonDir = cd, p_registeredAt = defaultTo (map_option p_registeredAt existing) ts, p_subject = None\<rparr> \<and>
    (\<exists>w1 w2. defaultCheckoutOf H (resolve_path (os_cwd H) (defaultTo d (os_cwd H))) cd w1 = (Inr (root, exact), w2)) \<and>
    putProject r (ensureMarker (hub w)) = Inr (hub w')"
proof -
  let ?dir = "resolve_path (os_cwd H) (defaultTo d (os_cwd H))"
  let ?rec = "\<lambda>existing root0 exact cd ts. \<lparr>p_id = projectIdOf H cd,
       p_name = basename (case existing of None \<Rightarrow> root0 | Some e \<Rightarrow> if exact then root0 else p_root e),
       p_root = (case existing of None \<Rightarrow> root0 | Some e \<Rightarrow> if exact then root0 else p_root e),
       p_commonDir = cd, p_registeredAt = defaultTo (map_option p_registeredAt existing) ts, p_subject = None\<rparr>"
  from assms obtain c cd w1 w2 existing w3 root0 exact w4 ts w5 where
      1: "commonDirOf H ?dir w = (Inr c, w1)" "truthy c = Some cd"
    and 2: "hubSet ensureMarker w1 = (Inr (), w2)"
    and 3: "hubRead (getProject (projectIdOf H cd)) w2 = (Inr existing, w3)"
    and 4: "defaultCheckoutOf H ?dir cd w3 = (Inr (root0, exact), w4)"
    and 5: "now H w4 = (Inr ts, w5)"
    and 6: "hubWrite (putProject (?rec existing root0 exact cd ts)) w5 = (Inr (), w')"
    and r: "r = ?rec existing root0 exact cd ts"
    unfolding registerProject_def Let_def
    by (elim andThen_okE) (auto simp: ret_def throw_def elim!: andThen_okE split: option.splits prod.splits)
  have h2: "hub w2 = ensureMarker (hub w)" using 2 keepsD [OF hub_commonDirOf 1(1)] by (auto simp: hubSet_run)
  have h3: "hub w3 = hub w2" "getProject (projectIdOf H cd) (hub w) = Inr existing"
    using 3 h2 by (auto simp: hubRead_run)
  have "hub w5 = ensureMarker (hub w)"
    using 5 keepsD [OF hub_defaultCheckoutOf 4] h2 h3 by (simp add: now_run)
  with 6 r have "putProject r (ensureMarker (hub w)) = Inr (hub w')"
    by (auto simp: hubWrite_run split: sum.splits)
  with h3 r 4 show ?thesis by auto
qed

text \<open>Registering and resolving touch nothing but projects and the marker.\<close>

definition only_projects :: "(hub \<Rightarrow> bool) \<Rightarrow> bool" where
  "only_projects P \<longleftrightarrow> (\<forall>h. P h \<longrightarrow> P (ensureMarker h)) \<and> (\<forall>r h h'. P h \<longrightarrow> putProject r h = Inr h' \<longrightarrow> P h')"

lemma pres_registerProject:
  "only_projects P \<Longrightarrow> preserves (\<lambda>w. P (hub w)) (registerProject H d)"
  unfolding registerProject_def commonDirOf_def defaultCheckoutOf_def
  by (intro pres) (auto simp: only_projects_def)

lemma pres_resolveProject:
  "only_projects P \<Longrightarrow> preserves (\<lambda>w. P (hub w)) (resolveProject H ref)"
  unfolding resolveProject_def byPath_def commonDirOf_def
  by (intro pres pres_registerProject) auto

lemma wf_registerProject [pres]: "wf_op (registerProject H d)"
  by (rule pres_registerProject) (auto simp: only_projects_def dest: store_wf)

lemma wf_resolveProject [pres]: "wf_op (resolveProject H ref)"
  by (rule pres_resolveProject) (auto simp: only_projects_def dest: store_wf)

subsection \<open>Properties\<close>

text \<open>
  Registering a project is idempotent. Its id depends on the common git directory alone, the
  first registration time is kept, a root that is only guessed from a linked worktree never
  replaces the one on record, and no other project changes.
\<close>
lemma registerProject_idempotent:
  assumes "registerProject H d w = (Inr r, w')"
  shows "p_id r = projectIdOf H (p_commonDir r) \<and> getProject (p_id r) (hub w') = Inr (Some r) \<and>
    (\<forall>i. i \<noteq> p_id r \<longrightarrow> getProject i (hub w') = getProject i (hub w)) \<and>
    (\<forall>e. getProject (p_id r) (hub w) = Inr (Some e) \<longrightarrow> p_registeredAt r = p_registeredAt e) \<and>
    (\<forall>e. getProject (p_id r) (hub w) = Inr (Some e) \<longrightarrow>
      (\<forall>w1 root exact w2. defaultCheckoutOf H (resolve_path (os_cwd H) (defaultTo d (os_cwd H))) (p_commonDir r) w1
        = (Inr (root, exact), w2) \<longrightarrow> \<not> exact) \<longrightarrow> p_root r = p_root e)"
proof -
  from registerProject_ok [OF assms] obtain existing root exact cd ts w1 w2 where
      e: "getProject (p_id r) (hub w) = Inr existing"
    and r: "r = \<lparr>p_id = projectIdOf H cd,
         p_name = basename (case existing of None \<Rightarrow> root | Some e \<Rightarrow> if exact then root else p_root e),
         p_root = (case existing of None \<Rightarrow> root | Some e \<Rightarrow> if exact then root else p_root e),
         p_commonDir = cd, p_registeredAt = defaultTo (map_option p_registeredAt existing) ts, p_subject = None\<rparr>"
    and c: "defaultCheckoutOf H (resolve_path (os_cwd H) (defaultTo d (os_cwd H))) cd w1 = (Inr (root, exact), w2)"
    and put: "putProject r (ensureMarker (hub w)) = Inr (hub w')"
    by blast
  have cd: "p_commonDir r = cd" "p_id r = projectIdOf H cd"
    "p_root r = (case existing of None \<Rightarrow> root | Some e \<Rightarrow> if exact then root else p_root e)"
    "p_registeredAt r = defaultTo (map_option p_registeredAt existing) ts" by (simp_all add: r)
  have root: "p_root r = p_root e"
    if "existing = Some e" and no: "\<forall>w1 root exact w2. defaultCheckoutOf H (resolve_path (os_cwd H)
        (defaultTo d (os_cwd H))) (p_commonDir r) w1 = (Inr (root, exact), w2) \<longrightarrow> \<not> exact" for e
  proof -
    have "\<not> exact" using no c unfolding cd(1) by blast
    then show ?thesis using cd(3) that(1) by simp
  qed
  have "p_id r = projectIdOf H (p_commonDir r)" using cd by simp
  moreover have "getProject (p_id r) (hub w') = Inr (Some r)"
    "\<forall>i. i \<noteq> p_id r \<longrightarrow> getProject i (hub w') = getProject i (hub w)"
    using project_store.get_put [OF put] by simp_all
  moreover have "\<forall>e. getProject (p_id r) (hub w) = Inr (Some e) \<longrightarrow> p_registeredAt r = p_registeredAt e"
    using e cd(4) by simp
  ultimately show ?thesis using e root by auto
qed

text \<open>A host on which \<open>git\<close> answers for one repository.\<close>

definition git_host :: "nat host" where
  "git_host = demo_host\<lparr>os_exec := (\<lambda>cmd args x. (if cmd = ''git'' then Some ''/r/.git'' else None, x))\<rparr>"

lemma git_host_simps [simp]:
  "os_exec git_host c a x = (if c = ''git'' then Some ''/r/.git'' else None, x)" "os_now git_host x = x"
  "os_cwd git_host = ''/home/u/repo''" "os_realpath git_host p x = None"
  "os_sha256 git_host s = ''0123456789abcdef0123''"
  by (simp_all add: git_host_def)

definition git_project :: project where
  "git_project = \<lparr>p_id = ''prj-0123456789abcdef'', p_name = ''r'', p_root = ''/r'', p_commonDir = ''/r/.git'',
     p_registeredAt = 3, p_subject = Some (''gh'', ''R_1'')\<rparr>"

definition project_hub :: hub where
  "project_hub = (empty_hub ''/hub'')\<lparr>h_projects := [(''prj-0123456789abcdef.json'', Json git_project)]\<rparr>"

lemma project_hub_get: "getProject ''prj-0123456789abcdef'' project_hub = Inr (Some git_project)"
  by (simp add: getProject_simp project_hub_def dget_def json_def safe_id_def unsafe_char_def slash_def)

lemma register_git_run:
  "\<exists>r w'. registerProject git_host None (demo_world\<lparr>hub := project_hub\<rparr>) = (Inr r, w') \<and> p_id r = ''prj-0123456789abcdef''"
proof -
  have i: "projectIdOf git_host cd = ''prj-0123456789abcdef''" for cd by (simp add: projectIdOf_def)
  have r: "truthy (Some (realOrResolved git_host ''/r/.git'' x)) = Some (realOrResolved git_host ''/r/.git'' x)" for x
    by (simp add: realOrResolved_def resolve_path_def path_of_def split: list.split)
  have "safe_id ''prj-0123456789abcdef''" by (simp add: safe_id_def unsafe_char_def slash_def)
  then show ?thesis
    by (simp add: registerProject_def commonDirOf_def defaultCheckoutOf_def eff_simps andThen_def i r Let_def
        project_hub_get putProject_simp)
qed

lemma registerProject_idempotent_witness:
  "\<exists>r w'. registerProject git_host None (demo_world\<lparr>hub := project_hub\<rparr>) = (Inr r, w') \<and>
     p_registeredAt r = 3 \<and> getProject ''prj-0123456789abcdef'' (hub w') = Inr (Some r)"
proof -
  obtain r w' where run: "registerProject git_host None (demo_world\<lparr>hub := project_hub\<rparr>) = (Inr r, w')"
    "p_id r = ''prj-0123456789abcdef''" using register_git_run by blast
  from registerProject_idempotent [OF run(1)] run(2) project_hub_get run(1) show ?thesis
    by (auto simp: git_project_def)
qed

text \<open>
  Registering a project again forgets its hosted identity: the subject that was resolved once
  and recorded on the project is gone from the refreshed record.
\<close>
theorem registerProject_forgets_subject:
  assumes "registerProject H d w = (Inr r, w')"
    and "getProject (p_id r) (hub w) = Inr (Some e)" and "p_subject e \<noteq> None"
  shows "getProject (p_id r) (hub w') = Inr (Some r) \<and> p_subject r = None \<and> p_subject r \<noteq> p_subject e"
proof -
  from registerProject_ok [OF assms(1)] have s: "p_subject r = None"
    and put: "putProject r (ensureMarker (hub w)) = Inr (hub w')" by force+
  show ?thesis using s project_store.get_put_same [OF put] assms(3) by auto
qed

theorem registerProject_forgets_subject_witness:
  "\<exists>r w'. registerProject git_host None (demo_world\<lparr>hub := project_hub\<rparr>) = (Inr r, w') \<and>
     getProject ''prj-0123456789abcdef'' (hub w') = Inr (Some r) \<and> p_subject r = None"
proof -
  obtain r w' where run: "registerProject git_host None (demo_world\<lparr>hub := project_hub\<rparr>) = (Inr r, w')"
    "p_id r = ''prj-0123456789abcdef''" using register_git_run by blast
  have "getProject (p_id r) (hub (demo_world\<lparr>hub := project_hub\<rparr>)) = Inr (Some git_project)"
    using run(2) project_hub_get by simp
  from registerProject_forgets_subject [OF run(1) this] run show ?thesis
    by (auto simp: git_project_def)
qed

end
