(* ===== verification/Service.thy ===== *)
theory Service
  imports Project
begin

text \<open>
  \<open>service.ts\<close>: a project service is owned by one unit at a time. The endpoint (an agent record
  with a mailbox) is permanent; the lease says who owns it, at which fencing generation. Every
  transition runs under the service's lock.

  The abstract side is the order \<open>fence\<close>: how a lease may evolve. Every operation only moves a
  lease up in it, so a generation never has two owners and a superseded one never returns.
\<close>

datatype health = HVacant | HStarting | HExpired | HHealthy | HUnhealthy

record service_view =
  sv_project :: project
  sv_endpoint :: agent
  sv_lease :: lease
  sv_owner :: "agent option"
  sv_health :: health
  sv_pane :: bool

datatype acquire_result =
    AcqResolved lease service_view
  | AcqStarting lease service_view
  | AcqReserved lease service_view string

definition DEFAULT_RESERVATION_TTL_MS :: nat where
  "DEFAULT_RESERVATION_TTL_MS = 5 * 60000"

text \<open>\<open>/^[a-z0-9][a-z0-9_-]{0,62}$/\<close>.\<close>

definition service_name_ok :: "string \<Rightarrow> bool" where
  "service_name_ok n \<longleftrightarrow> (case n of
       [] \<Rightarrow> False
     | c # cs \<Rightarrow> (is_lower c \<or> is_digit c) \<and> length cs \<le> 62 \<and>
         (\<forall>d\<in>set cs. is_lower d \<or> is_digit d \<or> d = CHR ''_'' \<or> d = CHR ''-''))"

definition assertServiceName :: "string \<Rightarrow> error + unit" where
  "assertServiceName n = (if service_name_ok n then Inr () else Inl (ServiceE (InvalidServiceName n)))"

definition serviceEndpointId :: "string \<Rightarrow> string \<Rightarrow> string" where
  "serviceEndpointId projectId name = ''svc-'' @ projectId @ ''-'' @ name"

definition lockName :: "string \<Rightarrow> string \<Rightarrow> string" where
  "lockName projectId name = ''service-'' @ projectId @ ''-'' @ name"

text \<open>\<open>isLive\<close> is the context's own liveness check, where it has one.\<close>

type_synonym 'x liveness_check = "(agent \<Rightarrow> 'x \<Rightarrow> bool) option"

definition isLive :: "'x host \<Rightarrow> 'x liveness_check \<Rightarrow> agent \<Rightarrow> 'x \<Rightarrow> bool" where
  "isLive H check unit x \<longleftrightarrow> a_status unit \<noteq> Exited \<and>
     (case check of Some f \<Rightarrow> f unit x | None \<Rightarrow> sessionLive H unit x)"

definition ensureEndpoint :: "'x host \<Rightarrow> project \<Rightarrow> string \<Rightarrow> ('x, agent) op" where
  "ensureEndpoint H project name =
     (let i = serviceEndpointId (p_id project) name
      in andThen (hubRead (getAgent i)) (\<lambda>existing.
         case existing of Some e \<Rightarrow> ret e | None \<Rightarrow>
         andThen (hubSet ensureMarker) (\<lambda>_.
         andThen (now H) (\<lambda>ts.
         let rec = \<lparr>
           a_id = i,
           a_handle = name @ ''@'' @ p_name project,
           a_harness = None,
           a_cwd = p_root project,
           a_worktree = None,
           a_pane = None,
           a_status = Active,
           a_createdAt = ts,
           a_lastSeen = ts,
           a_brief = None, a_launch = None, a_conversation = None, a_spawnedBy = None,
           a_kind = Some ServiceKind,
           a_service = Some (p_id project, name),
           a_presence = None, a_home = None\<rparr>
         in andThen (hubWrite (putAgent rec)) (\<lambda>_. ret rec)))))"

definition view :: "'x host \<Rightarrow> 'x liveness_check \<Rightarrow> project \<Rightarrow> agent \<Rightarrow> lease \<Rightarrow> 'x world \<Rightarrow> error + service_view" where
  "view H check project endpoint l w =
     (let base = (\<lambda>owner health pane. \<lparr>sv_project = project, sv_endpoint = endpoint, sv_lease = l,
            sv_owner = owner, sv_health = health, sv_pane = pane\<rparr>)
      in case l_state l of
           Vacant \<Rightarrow> Inr (base None HVacant False)
         | Reserved \<Rightarrow>
             (let expired = (case l_reservation l of None \<Rightarrow> False
                 | Some r \<Rightarrow> rs_expiresAt r < os_now H (ext w))
              in Inr (base None (if expired then HExpired else HStarting) False))
         | Owned \<Rightarrow>
             (case (case truthy (l_holder l) of None \<Rightarrow> Inr None | Some i \<Rightarrow> getAgent i (hub w)) of
                Inl e \<Rightarrow> Inl e
              | Inr None \<Rightarrow> Inr (base None HUnhealthy False)
              | Inr (Some owner) \<Rightarrow>
                  (let control = a_pane owner \<noteq> None \<or> truthy (findPaneByAgentId (a_id owner) (hub w)) \<noteq> None
                   in if \<not> isLive H check owner (ext w) then Inr (base (Some owner) HUnhealthy control)
                      else Inr (base (Some owner) HHealthy control))))"

definition viewOp :: "'x host \<Rightarrow> 'x liveness_check \<Rightarrow> project \<Rightarrow> agent \<Rightarrow> lease \<Rightarrow> ('x, service_view) op" where
  "viewOp H check project endpoint l = reads (view H check project endpoint l)"

definition vacantLease :: "string \<Rightarrow> string \<Rightarrow> nat \<Rightarrow> lease" where
  "vacantLease projectId name t = \<lparr>l_project = projectId, l_service = name,
     l_endpoint = serviceEndpointId projectId name, l_generation = 0, l_state = Vacant,
     l_holder = None, l_reservation = None, l_updatedAt = t\<rparr>"

definition loadService :: "'x host \<Rightarrow> string \<Rightarrow> string \<Rightarrow> bool \<Rightarrow> ('x, project \<times> agent \<times> lease) op" where
  "loadService H projectRef name create =
     andThen (ofSum (assertServiceName name)) (\<lambda>_.
     andThen (resolveProject H projectRef) (\<lambda>project.
     andThen (hubRead (getServiceLease (p_id project) name)) (\<lambda>l.
     andThen (hubRead (getAgent (serviceEndpointId (p_id project) name))) (\<lambda>endpoint.
     case (l, endpoint) of
       (Some le, Some e) \<Rightarrow> ret (project, e, le)
     | _ \<Rightarrow>
         if \<not> create then throw (ServiceE (NoService name (p_id project)))
         else andThen (ensureEndpoint H project name) (\<lambda>e.
              andThen (now H) (\<lambda>t.
              ret (project, e, defaultTo l (vacantLease (p_id project) name t))))))))"

definition transition ::
  "'x host \<Rightarrow> string \<Rightarrow> string \<Rightarrow> bool \<Rightarrow> (project \<times> agent \<times> lease \<Rightarrow> ('x, 'a) op) \<Rightarrow> ('x, 'a) op" where
  "transition H projectRef name create fn =
     andThen (ofSum (assertServiceName name)) (\<lambda>_.
     andThen (resolveProject H projectRef) (\<lambda>project.
     withLock H (lockName (p_id project) name)
       (andThen (loadService H (p_id project) name create) fn)))"

definition writeLease :: "'x host \<Rightarrow> lease \<Rightarrow> ('x, lease) op" where
  "writeLease H l =
     andThen (now H) (\<lambda>t.
     let next = l\<lparr>l_updatedAt := t\<rparr>
     in andThen (hubWrite (putServiceLease next)) (\<lambda>_. ret next))"

definition stale :: "nat \<Rightarrow> error" where
  "stale g = ServiceE (StaleOwnership g)"

definition resolveService :: "'x host \<Rightarrow> 'x liveness_check \<Rightarrow> string \<Rightarrow> string \<Rightarrow> ('x, service_view) op" where
  "resolveService H check projectRef name =
     andThen (loadService H projectRef name False) (\<lambda>(project, endpoint, l).
     viewOp H check project endpoint l)"

record acquire_input =
  ai_by :: "string option"
  ai_ttlMs :: "nat option"
  ai_force :: "nat option"

definition acquireBody ::
  "'x host \<Rightarrow> 'x liveness_check \<Rightarrow> string \<Rightarrow> acquire_input \<Rightarrow> project \<times> agent \<times> lease \<Rightarrow> ('x, acquire_result) op" where
  "acquireBody H check name inp s = (case s of (project, endpoint, l) \<Rightarrow>
     andThen (viewOp H check project endpoint l) (\<lambda>current.
     if (case ai_force inp of Some g \<Rightarrow> g \<noteq> l_generation l | None \<Rightarrow> False)
     then throw (stale (l_generation l))
     else if ai_force inp = None \<and> sv_health current = HHealthy then ret (AcqResolved l current)
     else if ai_force inp = None \<and> sv_health current = HStarting then ret (AcqStarting l current)
     else andThen (now H) (\<lambda>t.
       andThen (extStep (os_random H 8)) (\<lambda>token.
       andThen (writeLease H \<lparr>
           l_project = p_id project,
           l_service = name,
           l_endpoint = a_id endpoint,
           l_generation = l_generation l + 1,
           l_state = Reserved,
           l_holder = None,
           l_reservation = Some \<lparr>
             rs_token = token,
             rs_by = truthy (ai_by inp),
             rs_at = t,
             rs_expiresAt = t + defaultTo (ai_ttlMs inp) DEFAULT_RESERVATION_TTL_MS,
             rs_forced = (ai_force inp \<noteq> None)\<rparr>,
           l_updatedAt = t\<rparr>) (\<lambda>next.
       andThen (viewOp H check project endpoint next) (\<lambda>v.
       ret (AcqReserved next v token)))))))"

definition acquireService ::
  "'x host \<Rightarrow> 'x liveness_check \<Rightarrow> string \<Rightarrow> string \<Rightarrow> acquire_input \<Rightarrow> ('x, acquire_result) op" where
  "acquireService H check projectRef name inp =
     transition H projectRef name True (acquireBody H check name inp)"

definition liveUnit :: "'x host \<Rightarrow> 'x liveness_check \<Rightarrow> string \<Rightarrow> ('x, agent) op" where
  "liveUnit H check i =
     andThen (hubRead (getAgent i)) (\<lambda>found.
     case found of None \<Rightarrow> throw (ServiceE (UnknownUnit i)) | Some unit \<Rightarrow>
     andThen (extGet (isLive H check unit)) (\<lambda>live.
     if live then ret unit else throw (ServiceE (UnitNotLive i))))"

definition reservationToken :: "lease \<Rightarrow> string option" where
  "reservationToken l = map_option rs_token (l_reservation l)"

definition bindBody ::
  "'x host \<Rightarrow> 'x liveness_check \<Rightarrow> nat \<Rightarrow> string \<Rightarrow> string \<Rightarrow> project \<times> agent \<times> lease \<Rightarrow> ('x, service_view) op" where
  "bindBody H check g token unit s = (case s of (project, endpoint, l) \<Rightarrow>
     if l_state l \<noteq> Reserved \<or> l_generation l \<noteq> g \<or> reservationToken l \<noteq> Some token
     then throw (stale (l_generation l))
     else andThen (liveUnit H check unit) (\<lambda>_.
       andThen (writeLease H \<lparr>
           l_project = l_project l, l_service = l_service l, l_endpoint = l_endpoint l,
           l_generation = l_generation l, l_state = Owned, l_holder = Some unit,
           l_reservation = None, l_updatedAt = l_updatedAt l\<rparr>) (\<lambda>next.
       viewOp H check project endpoint next)))"

definition bindService ::
  "'x host \<Rightarrow> 'x liveness_check \<Rightarrow> string \<Rightarrow> string \<Rightarrow> nat \<Rightarrow> string \<Rightarrow> string \<Rightarrow> ('x, service_view) op" where
  "bindService H check projectRef name g token unit =
     transition H projectRef name False (bindBody H check g token unit)"

definition releaseBody ::
  "'x host \<Rightarrow> 'x liveness_check \<Rightarrow> nat \<Rightarrow> string option \<Rightarrow> string option \<Rightarrow> project \<times> agent \<times> lease \<Rightarrow> ('x, service_view) op" where
  "releaseBody H check g token unit s = (case s of (project, endpoint, l) \<Rightarrow>
     if \<not> (l_generation l = g \<and>
           ((l_state l = Reserved \<and> token \<noteq> None \<and> reservationToken l = token) \<or>
            (l_state l = Owned \<and> unit \<noteq> None \<and> l_holder l = unit)))
     then throw (stale (l_generation l))
     else andThen (writeLease H \<lparr>
           l_project = l_project l, l_service = l_service l, l_endpoint = l_endpoint l,
           l_generation = l_generation l, l_state = Vacant, l_holder = None,
           l_reservation = None, l_updatedAt = l_updatedAt l\<rparr>) (\<lambda>next.
       viewOp H check project endpoint next))"

definition releaseService ::
  "'x host \<Rightarrow> 'x liveness_check \<Rightarrow> string \<Rightarrow> string \<Rightarrow> nat \<Rightarrow> string option \<Rightarrow> string option \<Rightarrow> ('x, service_view) op" where
  "releaseService H check projectRef name g token unit =
     transition H projectRef name False (releaseBody H check g token unit)"

definition handoffBody ::
  "'x host \<Rightarrow> 'x liveness_check \<Rightarrow> nat \<Rightarrow> string \<Rightarrow> string \<Rightarrow> project \<times> agent \<times> lease \<Rightarrow> ('x, service_view) op" where
  "handoffBody H check g from to s = (case s of (project, endpoint, l) \<Rightarrow>
     if l_state l \<noteq> Owned \<or> l_generation l \<noteq> g \<or> l_holder l \<noteq> Some from
     then throw (stale (l_generation l))
     else andThen (liveUnit H check to) (\<lambda>_.
       andThen (writeLease H (l\<lparr>l_generation := l_generation l + 1, l_holder := Some to\<rparr>)) (\<lambda>next.
       viewOp H check project endpoint next)))"

definition handoffService ::
  "'x host \<Rightarrow> 'x liveness_check \<Rightarrow> string \<Rightarrow> string \<Rightarrow> nat \<Rightarrow> string \<Rightarrow> string \<Rightarrow> ('x, service_view) op" where
  "handoffService H check projectRef name g from to =
     transition H projectRef name False (handoffBody H check g from to)"

definition verifyOwnership ::
  "'x host \<Rightarrow> 'x liveness_check \<Rightarrow> string \<Rightarrow> string \<Rightarrow> string \<Rightarrow> nat \<Rightarrow> ('x, service_view) op" where
  "verifyOwnership H check projectRef name unit g =
     andThen (loadService H projectRef name False) (\<lambda>(project, endpoint, l).
     if l_state l \<noteq> Owned \<or> l_holder l \<noteq> Some unit \<or> l_generation l \<noteq> g
     then throw (stale (l_generation l))
     else viewOp H check project endpoint l)"

definition withOwnership ::
  "'x host \<Rightarrow> 'x liveness_check \<Rightarrow> string \<Rightarrow> string \<Rightarrow> string \<Rightarrow> nat \<Rightarrow> (service_view \<Rightarrow> ('x, 'a) op) \<Rightarrow> ('x, 'a) op" where
  "withOwnership H check projectRef name unit g fn =
     andThen (ofSum (assertServiceName name)) (\<lambda>_.
     andThen (resolveProject H projectRef) (\<lambda>project.
     withLock H (lockName (p_id project) name)
       (andThen (verifyOwnership H check (p_id project) name unit g) fn)))"

datatype start_result =
    StartResolved service_view
  | StartStarting service_view
  | Started service_view string

definition is_ownership_error :: "error \<Rightarrow> bool" where
  "is_ownership_error e \<longleftrightarrow> (case e of ServiceE (StaleOwnership g) \<Rightarrow> True | ServiceE (UnknownUnit i) \<Rightarrow> True
     | ServiceE (UnitNotLive i) \<Rightarrow> True | _ \<Rightarrow> False)"

text \<open>\<open>launch\<close> starts the runtime for a generation and an endpoint and gives its unit id.\<close>

definition startService ::
  "'x host \<Rightarrow> 'x liveness_check \<Rightarrow> string \<Rightarrow> string \<Rightarrow> acquire_input \<Rightarrow>
   (nat \<Rightarrow> string \<Rightarrow> ('x, string) op) \<Rightarrow> ('x, start_result) op" where
  "startService H check projectRef name inp launch =
     andThen (acquireService H check projectRef name inp) (\<lambda>acquired.
     case acquired of
       AcqResolved l v \<Rightarrow> ret (StartResolved v)
     | AcqStarting l v \<Rightarrow> ret (StartStarting v)
     | AcqReserved l v token \<Rightarrow>
         andThen (tryE (launch (l_generation l) (l_endpoint l))) (\<lambda>launched.
         case launched of
           Inl err \<Rightarrow>
             andThen (tryE (releaseService H check projectRef name (l_generation l) (Some token) None)) (\<lambda>_.
             throw err)
         | Inr unit \<Rightarrow>
             andThen (tryE (bindService H check projectRef name (l_generation l) token unit)) (\<lambda>bound.
             case bound of
               Inr v' \<Rightarrow> ret (Started v' unit)
             | Inl err \<Rightarrow>
                 if is_ownership_error err then throw (LaunchedNotOwner unit err) else throw err)))"

subsection \<open>The fence\<close>

text \<open>The authority a lease expresses: its generation, and who may act at it.\<close>

datatype phase = PReserved "string option" | POwned "string option" | PVacant

datatype fence = Fence (fence_gen: nat) (fence_phase: phase)

text \<open>Within a generation: reserved, then owned by one unit, then vacant, never back.\<close>

definition phase_le :: "phase \<Rightarrow> phase \<Rightarrow> bool" where
  "phase_le a b \<longleftrightarrow> a = b \<or> b = PVacant \<or> ((\<exists>t. a = PReserved t) \<and> (\<exists>w. b = POwned w))"

instantiation fence :: order
begin

definition less_eq_fence :: "fence \<Rightarrow> fence \<Rightarrow> bool" where
  "less_eq_fence s t \<longleftrightarrow> fence_gen s < fence_gen t \<or>
     fence_gen s = fence_gen t \<and> phase_le (fence_phase s) (fence_phase t)"

definition less_fence :: "fence \<Rightarrow> fence \<Rightarrow> bool" where
  "less_fence s t \<longleftrightarrow> s \<le> t \<and> \<not> t \<le> s"

instance
proof
  fix x y z :: fence
  show "(x < y) = (x \<le> y \<and> \<not> y \<le> x)" by (simp add: less_fence_def)
  show "x \<le> x" by (simp add: less_eq_fence_def phase_le_def)
  show "x \<le> z" if "x \<le> y" "y \<le> z"
    using that by (cases x; cases y; cases z) (auto simp: less_eq_fence_def phase_le_def)
  show "x = y" if "x \<le> y" "y \<le> x"
    using that by (cases x; cases y) (auto simp: less_eq_fence_def phase_le_def)
qed

end

definition fence_of :: "lease \<Rightarrow> fence" where
  "fence_of l = Fence (l_generation l) (case l_state l of
       Vacant \<Rightarrow> PVacant
     | Reserved \<Rightarrow> PReserved (reservationToken l)
     | Owned \<Rightarrow> POwned (l_holder l))"

definition fence :: "string \<Rightarrow> string \<Rightarrow> hub \<Rightarrow> fence" where
  "fence p s h = (case getServiceLease p s h of Inr (Some l) \<Rightarrow> fence_of l | _ \<Rightarrow> Fence 0 PVacant)"

lemma fence_cong: "h_leases h = h_leases h' \<Longrightarrow> fence p s h = fence p s h'"
  by (auto simp: fence_def getServiceLease_simp readRecord_def readJsonRecord_def
      split: option.split sum.split jfile.split)

lemma fence_locks [simp]: "fence p s (h\<lparr>h_locks := d\<rparr>) = fence p s h"
  by (rule fence_cong) simp

lemma fence_ensureMarker [simp]: "fence p s (ensureMarker h) = fence p s h"
  by (rule fence_cong) simp

lemma fence_putProject: "putProject r h = Inr h' \<Longrightarrow> fence p s h' = fence p s h"
  by (rule fence_cong) (auto simp: putProject_simp split: if_splits)

lemma fence_putAgent: "putAgent r h = Inr h' \<Longrightarrow> fence p s h' = fence p s h"
  by (rule fence_cong) (auto simp: putAgent_simp split: if_splits)

lemma getServiceLease_put:
  "putServiceLease l h = Inr h' \<Longrightarrow>
   getServiceLease p s h' = (if p = l_project l \<and> s = l_service l then Inr (Some l) else getServiceLease p s h)"
  using lease_store.get_put [of l h h' "(p, s)"] by (simp add: lease_key_def)

text \<open>A hub that is well formed and at or past a given fence of one service.\<close>

definition at_least :: "string \<Rightarrow> string \<Rightarrow> fence \<Rightarrow> hub \<Rightarrow> bool" where
  "at_least p s F h \<longleftrightarrow> hub_wf h \<and> F \<le> fence p s h"

text \<open>
  What is assumed of the other processes: while this one sleeps they keep the hub well formed and
  move the service's lease only forward. It is what this section proves of every operation.
\<close>

definition others_fence :: "'x host \<Rightarrow> string \<Rightarrow> string \<Rightarrow> bool" where
  "others_fence H p s \<longleftrightarrow> (\<forall>ms w. hub_wf (hub w) \<longrightarrow>
     hub_wf (hub (os_sleep H ms w)) \<and> fence p s (hub w) \<le> fence p s (hub (os_sleep H ms w)))"

abbreviation advances :: "string \<Rightarrow> string \<Rightarrow> ('x, 'a) op \<Rightarrow> bool" where
  "advances p s m \<equiv> (\<forall>F. preserves (\<lambda>w. at_least p s F (hub w)) m)"

lemma at_least_locks: "at_least p s F h \<Longrightarrow> (dir_wf (h_locks h) \<longrightarrow> dir_wf d) \<Longrightarrow> at_least p s F (h\<lparr>h_locks := d\<rparr>)"
  by (simp add: at_least_def hub_wf_locks hub_wf_locksD)

lemma at_least_sleep: "others_fence H p s \<Longrightarrow> at_least p s F (hub w) \<Longrightarrow> at_least p s F (hub (os_sleep H ms w))"
  unfolding others_fence_def at_least_def by (meson order_trans)

lemma pres_at_least_withLock:
  "others_fence H p s \<Longrightarrow> preserves (\<lambda>w. at_least p s F (hub w)) fn \<Longrightarrow>
   preserves (\<lambda>w. at_least p s F (hub w)) (withLock H name fn)"
  by (rule pres_withLock) (auto intro: at_least_locks at_least_sleep)

lemma only_projects_at_least: "only_projects (at_least p s F)"
  by (auto simp: only_projects_def at_least_def fence_putProject dest: store_wf)

lemma pres_at_least_resolveProject:
  "preserves (\<lambda>w. at_least p s F (hub w)) (resolveProject H ref)"
  by (rule pres_resolveProject [OF only_projects_at_least])

lemma pres_at_least_putAgent: "preserves (\<lambda>w. at_least p s F (hub w)) (hubWrite (putAgent r))"
  by (rule pres_hubWrite) (auto simp: at_least_def fence_putAgent dest: store_wf)

lemma pres_at_least_loadService:
  "preserves (\<lambda>w. at_least p s F (hub w)) (loadService H ref name create)"
  unfolding loadService_def ensureEndpoint_def
  by (intro pres pres_at_least_resolveProject pres_at_least_putAgent) (auto simp: at_least_def)

lemma pres_viewOp [pres]: "preserves P (viewOp H c p e l)"
  unfolding viewOp_def by (rule pres_reads)

lemma pres_liveUnit [pres]: "preserves P (liveUnit H c i)"
  unfolding liveUnit_def by (intro pres)

text \<open>What holds between loading the service and writing its lease: the loaded lease is current.\<close>

definition current :: "project \<Rightarrow> string \<Rightarrow> lease \<Rightarrow> hub \<Rightarrow> bool" where
  "current project name l h \<longleftrightarrow> hub_wf h \<and> fence (p_id project) name h = fence_of l \<and>
     l_project l = p_id project \<and> l_service l = name"

lemma ensureEndpoint_fence: "ensureEndpoint H project name w = (r, w') \<Longrightarrow> fence p s (hub w') = fence p s (hub w)"
  by (rule keepsD [of "\<lambda>w. fence p s (hub w)" "ensureEndpoint H project name"])
    (unfold ensureEndpoint_def, intro frame, auto simp: fence_putAgent)

lemma wf_ensureEndpoint [pres]: "wf_op (ensureEndpoint H project name)"
  unfolding ensureEndpoint_def by (intro pres) (auto dest: store_wf)

lemma loadService_current:
  assumes "hub_wf (hub w)" "loadService H ref name create w = (Inr (project, e, l), w')"
  shows "current project name l (hub w')"
proof -
  let ?rest = "\<lambda>project lo eo. (case (lo, eo) of
       (Some le, Some e) \<Rightarrow> ret (project, e, le)
     | _ \<Rightarrow>
         if \<not> create then throw (ServiceE (NoService name (p_id project)))
         else andThen (ensureEndpoint H project name) (\<lambda>e.
              andThen (now H) (\<lambda>t.
              ret (project, e, defaultTo lo (vacantLease (p_id project) name t)))))"
  from assms(2) obtain pr w1 where
      1: "resolveProject H ref w = (Inr pr, w1)"
    and 2: "andThen (hubRead (getServiceLease (p_id pr) name)) (\<lambda>lo.
       andThen (hubRead (getAgent (serviceEndpointId (p_id pr) name))) (\<lambda>eo. ?rest pr lo eo)) w1 = (Inr (project, e, l), w')"
    unfolding loadService_def by - (erule andThen_okE, erule andThen_okE, simp add: ofSum_def)
  from 2 obtain lo eo where lo: "getServiceLease (p_id pr) name (hub w1) = Inr lo"
    and r: "?rest pr lo eo w1 = (Inr (project, e, l), w')"
    by (auto simp: hubRead_def andThen_reads split: sum.splits)
  have pr: "pr = project"
    using r by (auto simp: ret_def throw_def now_run elim!: andThen_okE split: option.splits if_splits)
  note rest = r [unfolded pr] and lo = lo [unfolded pr]
  have wf1: "hub_wf (hub w1)" using preservesD [OF wf_resolveProject assms(1) 1] .
  have f: "fence (p_id project) name (hub w1) = fence_of l \<and> l_project l = p_id project \<and> l_service l = name"
    if "l = defaultTo lo (vacantLease (p_id project) name t)" for t
    using lo that getServiceLease_wf [OF wf1]
    by (cases lo) (auto simp: fence_def vacantLease_def fence_of_def)
  show ?thesis
  proof (cases "lo \<noteq> None \<and> eo \<noteq> None")
    case True
    with rest have "w' = w1" "l = defaultTo lo (vacantLease (p_id project) name 0)" by (auto simp: ret_def)
    with f wf1 show ?thesis by (simp add: current_def)
  next
    case False
    have "(if \<not> create then throw (ServiceE (NoService name (p_id project)))
         else andThen (ensureEndpoint H project name) (\<lambda>e.
              andThen (now H) (\<lambda>t.
              ret (project, e, defaultTo lo (vacantLease (p_id project) name t))))) w1 = (Inr (project, e, l), w')"
      using rest False by (auto split: option.splits)
    then obtain t w2 where e: "ensureEndpoint H project name w1 = (Inr e, w2)" and w': "hub w' = hub w2"
      and l: "l = defaultTo lo (vacantLease (p_id project) name t)"
      by (auto simp: throw_def ret_def now_run elim!: andThen_okE split: if_splits)
    have "hub_wf (hub w2)" using preservesD [OF wf_ensureEndpoint wf1 e] .
    with f [OF l] ensureEndpoint_fence [OF e] w' show ?thesis by (simp add: current_def)
  qed
qed

lemma writeLease_run:
  "writeLease H n w = (case putServiceLease (n\<lparr>l_updatedAt := os_now H (ext w)\<rparr>) (hub w) of
     Inl e \<Rightarrow> (Inl e, w) | Inr h \<Rightarrow> (Inr (n\<lparr>l_updatedAt := os_now H (ext w)\<rparr>), w\<lparr>hub := h\<rparr>))"
  by (simp add: writeLease_def andThen_def eff_simps Let_def split: sum.split)

lemma writeLease_at_least:
  assumes "at_least p s F (hub w)" "fence (l_project n) (l_service n) (hub w) \<le> fence_of n"
  shows "at_least p s F (hub (snd (writeLease H n w)))"
proof (cases "putServiceLease (n\<lparr>l_updatedAt := os_now H (ext w)\<rparr>) (hub w)")
  case (Inl e)
  with assms(1) show ?thesis by (simp add: writeLease_run)
next
  case (Inr h')
  have f: "fence_of (n\<lparr>l_updatedAt := t\<rparr>) = fence_of n" for t
    by (simp add: fence_of_def reservationToken_def split: lease_state.split)
  have "fence p s h' = (if p = l_project n \<and> s = l_service n then fence_of n else fence p s (hub w))"
    using getServiceLease_put [OF Inr] f by (simp add: fence_def)
  moreover have "hub_wf h'" using putServiceLease_wf [OF _ Inr] assms(1) by (simp add: at_least_def)
  ultimately show ?thesis
    using assms Inr by (auto simp: at_least_def writeLease_run intro: order_trans)
qed

text \<open>A body that only writes a lease past the one loaded.\<close>

definition body_ok :: "string \<Rightarrow> (project \<times> agent \<times> lease \<Rightarrow> ('x, 'a) op) \<Rightarrow> bool" where
  "body_ok name fn \<longleftrightarrow> (\<forall>p s F project e l w. current project name l (hub w) \<longrightarrow>
     at_least p s F (hub w) \<longrightarrow> at_least p s F (hub (snd (fn (project, e, l) w))))"

lemma at_least_andThen:
  "at_least p s F (hub (snd (m w))) \<Longrightarrow> (\<And>x w'. m w = (Inr x, w') \<Longrightarrow> at_least p s F (hub (snd (f x w')))) \<Longrightarrow>
   at_least p s F (hub (snd (andThen m f w)))"
  by (auto simp: andThen_def split: prod.splits sum.splits)

lemma write_then_at_least:
  assumes "at_least p s F (hub w)" "fence (l_project n) (l_service n) (hub w) \<le> fence_of n"
    and "\<And>x w. snd (f x w) = w"
  shows "at_least p s F (hub (snd (andThen (writeLease H n) f w)))"
  using writeLease_at_least [OF assms(1,2), of H] assms(3)
  by (auto simp: andThen_def split: prod.split sum.split)

lemma snd_viewOp [simp]: "snd (viewOp H c p e l w) = w"
  by (simp add: viewOp_def reads_def)

lemma snd_view_ret [simp]: "snd (andThen (viewOp H c p e l) (\<lambda>v. ret (g v)) w) = w"
  by (simp add: viewOp_def andThen_reads ret_def split: sum.split)

lemma acquireBody_ok: "body_ok name (acquireBody H c name inp)"
proof (unfold body_ok_def, intro allI impI)
  fix p s F project e l and w :: "'a world"
  assume cur: "current project name l (hub w)" and al: "at_least p s F (hub w)"
  have le: "fence (p_id project) name (hub w) \<le> fence_of n"
    if "l_generation n = l_generation l + 1" for n
    using cur that by (simp add: current_def fence_of_def less_eq_fence_def)
  have wr: "at_least p s F (hub (snd (andThen (writeLease H n) f w2)))"
    if "hub w2 = hub w" "l_generation n = l_generation l + 1" "l_project n = p_id project" "l_service n = name"
      "\<And>x w. snd (f x w) = w" for n w2 and f :: "lease \<Rightarrow> ('a, acquire_result) op"
    by (rule write_then_at_least) (use that al le [OF that(2)] in auto)
  show "at_least p s F (hub (snd (acquireBody H c name inp (project, e, l) w)))"
    by (auto simp: acquireBody_def viewOp_def [of H c project e l] andThen_reads andThen_def [of "now H"]
        andThen_def [of "extStep g" for g] now_run extStep_def throw_def ret_def al
        intro!: wr split: sum.split prod.split option.split)
qed

lemma next_fence_ok:
  assumes "current project name l (hub w)" "fence_of l \<le> fence_of n"
    "l_project n = l_project l" "l_service n = l_service l"
  shows "fence (l_project n) (l_service n) (hub w) \<le> fence_of n"
  using assms by (simp add: current_def)

lemma liveUnit_state: "liveUnit H c i w = (r, w') \<Longrightarrow> w' = w"
  by (auto simp: liveUnit_def andThen_def eff_simps split: sum.splits option.splits if_splits)

lemma liveUnit_then:
  "at_least p s F (hub w) \<Longrightarrow> (\<And>x. at_least p s F (hub (snd (f x w)))) \<Longrightarrow>
   at_least p s F (hub (snd (andThen (liveUnit H c i) f w)))"
  by (auto simp: andThen_def dest: liveUnit_state split: prod.split sum.split)

lemma bindBody_ok: "body_ok name (bindBody H c g token unit)"
  by (auto simp: body_ok_def bindBody_def throw_def fence_of_def less_eq_fence_def phase_le_def
      intro!: liveUnit_then write_then_at_least next_fence_ok)

lemma releaseBody_ok: "body_ok name (releaseBody H c g token unit)"
  by (auto simp: body_ok_def releaseBody_def throw_def fence_of_def less_eq_fence_def phase_le_def
      intro!: write_then_at_least next_fence_ok)

lemma handoffBody_ok: "body_ok name (handoffBody H c g from to)"
  by (auto simp: body_ok_def handoffBody_def throw_def fence_of_def less_eq_fence_def
      intro!: liveUnit_then write_then_at_least next_fence_ok)

lemma transition_advances:
  assumes "others_fence H p s" "body_ok name fn"
  shows "advances p s (transition H ref name create fn)"
proof
  fix F
  have "preserves (\<lambda>w. at_least p s F (hub w)) (andThen (loadService H r name create) fn)" for r
  proof (rule preservesI)
    fix w :: "'a world" assume al: "at_least p s F (hub w)"
    show "at_least p s F (hub (snd (andThen (loadService H r name create) fn w)))"
    proof (rule at_least_andThen)
      show "at_least p s F (hub (snd (loadService H r name create w)))"
        using pres_at_least_loadService [of p s F H r name create] al by (simp add: preserves_def)
    next
      fix x w' assume l: "loadService H r name create w = (Inr x, w')"
      obtain project e le where x: "x = (project, e, le)" by (cases x)
      have "at_least p s F (hub w')" using preservesD [OF pres_at_least_loadService al l] .
      moreover have "current project name le (hub w')"
        using loadService_current l al unfolding x at_least_def by blast
      ultimately show "at_least p s F (hub (snd (fn x w')))"
        using assms(2) unfolding body_ok_def x by blast
    qed
  qed
  then show "preserves (\<lambda>w. at_least p s F (hub w)) (transition H ref name create fn)"
    unfolding transition_def
    by (intro pres_andThen [OF pres_ofSum] pres_andThen [OF pres_at_least_resolveProject]
        pres_at_least_withLock [OF assms(1)])
qed

lemma advances_acquire: "others_fence H p s \<Longrightarrow> advances p s (acquireService H c ref name inp)"
  unfolding acquireService_def by (rule transition_advances [OF _ acquireBody_ok])

lemma advances_bind: "others_fence H p s \<Longrightarrow> advances p s (bindService H c ref name g token unit)"
  unfolding bindService_def by (rule transition_advances [OF _ bindBody_ok])

lemma advances_release: "others_fence H p s \<Longrightarrow> advances p s (releaseService H c ref name g token unit)"
  unfolding releaseService_def by (rule transition_advances [OF _ releaseBody_ok])

lemma advances_handoff: "others_fence H p s \<Longrightarrow> advances p s (handoffService H c ref name g from to)"
  unfolding handoffService_def by (rule transition_advances [OF _ handoffBody_ok])

lemma advances_verify: "advances p s (verifyOwnership H c ref name unit g)"
  unfolding verifyOwnership_def by (intro allI pres pres_at_least_loadService)

lemma advances_start:
  "others_fence H p s \<Longrightarrow> (\<And>g e. advances p s (launch g e)) \<Longrightarrow>
   advances p s (startService H c ref name inp launch)"
proof
  fix F
  assume a: "others_fence H p s" and l: "\<And>g e. advances p s (launch g e)"
  have c: "preserves P (case r of AcqResolved l v \<Rightarrow> m1 v | AcqStarting l v \<Rightarrow> m2 v | AcqReserved l v t \<Rightarrow> m3 l v t)"
    if "\<And>v. preserves P (m1 v)" "\<And>v. preserves P (m2 v)" "\<And>l v t. preserves P (m3 l v t)"
    for P r and m1 m2 :: "service_view \<Rightarrow> ('a, start_result) op" and m3
    using that by (simp split: acquire_result.split)
  show "preserves (\<lambda>w. at_least p s F (hub w)) (startService H c ref name inp launch)"
    unfolding startService_def
    using advances_acquire [OF a] advances_release [OF a] advances_bind [OF a] l
    by (intro pres c) auto
qed

subsection \<open>Histories of one service\<close>

text \<open>
  Any process performs any operation, with any arguments, any outcome; or time passes. \<open>launch\<close>
  is arbitrary code that itself only moves the lease forward.
\<close>

inductive service_step :: "'x host \<Rightarrow> string \<Rightarrow> string \<Rightarrow> 'x world \<Rightarrow> 'x world \<Rightarrow> bool" for H p s where
  st_acquire: "acquireService H c ref name inp w = (r, w') \<Longrightarrow> service_step H p s w w'"
| st_bind: "bindService H c ref name g token unit w = (rb, w') \<Longrightarrow> service_step H p s w w'"
| st_release: "releaseService H c ref name g tok un w = (rb, w') \<Longrightarrow> service_step H p s w w'"
| st_handoff: "handoffService H c ref name g u1 u2 w = (rb, w') \<Longrightarrow> service_step H p s w w'"
| st_verify: "verifyOwnership H c ref name unit g w = (rb, w') \<Longrightarrow> service_step H p s w w'"
| st_start: "(\<And>g e. advances p s (launch g e)) \<Longrightarrow> startService H c ref name inp launch w = (rs, w') \<Longrightarrow>
    service_step H p s w w'"
| st_sleep: "service_step H p s w (os_sleep H ms w)"

abbreviation service_run :: "'x host \<Rightarrow> string \<Rightarrow> string \<Rightarrow> 'x world \<Rightarrow> 'x world \<Rightarrow> bool" where
  "service_run H p s \<equiv> (service_step H p s)\<^sup>*\<^sup>*"

lemma advancesD: "advances p s m \<Longrightarrow> m w = (r, w') \<Longrightarrow> at_least p s F (hub w) \<Longrightarrow> at_least p s F (hub w')"
  unfolding preserves_def by (metis snd_conv)

lemma service_step_at_least:
  "service_step H p s w w' \<Longrightarrow> others_fence H p s \<Longrightarrow> at_least p s F (hub w) \<Longrightarrow> at_least p s F (hub w')"
proof (induction rule: service_step.induct)
  case (st_acquire c ref name inp w r w')
  then show ?case using advancesD [OF advances_acquire] by blast
next
  case (st_bind c ref name g token unit w rb w')
  then show ?case using advancesD [OF advances_bind] by blast
next
  case (st_release c ref name g tok un w rb w')
  then show ?case using advancesD [OF advances_release] by blast
next
  case (st_handoff c ref name g u1 u2 w rb w')
  then show ?case using advancesD [OF advances_handoff] by blast
next
  case (st_verify c ref name unit g w rb w')
  then show ?case using advancesD [OF advances_verify] by blast
next
  case (st_start launch c ref name inp w rs w')
  then show ?case using advancesD [OF advances_start [OF st_start.prems(1)]] by blast
next
  case (st_sleep w ms)
  then show ?case by (rule at_least_sleep)
qed

lemma service_run_at_least:
  "service_run H p s w w' \<Longrightarrow> others_fence H p s \<Longrightarrow> at_least p s F (hub w) \<Longrightarrow> at_least p s F (hub w')"
  by (induction rule: rtranclp_induct) (auto intro: service_step_at_least)

lemma service_run_fence:
  "service_run H p s w w' \<Longrightarrow> others_fence H p s \<Longrightarrow> hub_wf (hub w) \<Longrightarrow>
   hub_wf (hub w') \<and> fence p s (hub w) \<le> fence p s (hub w')"
  using service_run_at_least [of H p s w w' "fence p s (hub w)"] by (simp add: at_least_def)

text \<open>What a successful check or transition says about the lease.\<close>

lemma viewOp_project: "viewOp H c project e l w = (Inr v, w') \<Longrightarrow> sv_project v = project \<and> sv_lease v = l \<and> w' = w"
  by (auto simp: viewOp_def reads_def view_def Let_def split: lease_state.splits sum.splits option.splits if_splits)

lemma verify_fence:
  assumes "hub_wf (hub w)" "verifyOwnership H c ref name unit g w = (Inr v, w')"
  shows "fence (p_id (sv_project v)) name (hub w') = Fence g (POwned (Some unit)) \<and> hub_wf (hub w')"
proof -
  from assms(2) obtain project e l w1 where
      1: "loadService H ref name False w = (Inr (project, e, l), w1)"
    and 2: "(if l_state l \<noteq> Owned \<or> l_holder l \<noteq> Some unit \<or> l_generation l \<noteq> g
     then throw (stale (l_generation l)) else viewOp H c project e l) w1 = (Inr v, w')"
    unfolding verifyOwnership_def by - (erule andThen_okE, auto split: prod.splits)
  have "current project name l (hub w1)" by (rule loadService_current [OF assms(1) 1])
  moreover have "l_state l = Owned" "l_holder l = Some unit" "l_generation l = g" "sv_project v = project" "w' = w1"
    using 2 by (auto simp: throw_def dest: viewOp_project split: if_splits)
  ultimately show ?thesis by (simp add: current_def fence_of_def)
qed

subsection \<open>Properties\<close>

text \<open>
  C1. Fencing. If one unit is verified as the owner of a service at a generation, then whatever
  any processes do to the service afterwards, in any order and with any outcomes, no other unit
  is ever verified at that generation.
\<close>
theorem one_owner_per_generation:
  assumes "others_fence H p s" and "hub_wf (hub w)"
    and "verifyOwnership H c ref s unit g w = (Inr v, w1)" and "p_id (sv_project v) = p"
    and "service_run H p s w1 w2"
    and "verifyOwnership H c' ref' s unit' g w2 = (Inr v', w3)" and "p_id (sv_project v') = p"
  shows "unit' = unit"
proof -
  have 1: "fence p s (hub w1) = Fence g (POwned (Some unit))" "hub_wf (hub w1)"
    using verify_fence [OF assms(2,3)] assms(4) by simp_all
  have 2: "hub_wf (hub w2)" "fence p s (hub w1) \<le> fence p s (hub w2)"
    using service_run_fence [OF assms(5,1) 1(2)] by simp_all
  have 3: "fence p s (hub w3) = Fence g (POwned (Some unit'))"
    using verify_fence [OF 2(1) assms(6)] assms(7) by simp
  have "at_least p s (fence p s (hub w2)) (hub w3)"
    by (rule advancesD [OF advances_verify assms(6)]) (simp add: at_least_def 2(1))
  with 2 have "fence p s (hub w1) \<le> fence p s (hub w3)" by (auto simp: at_least_def intro: order_trans)
  then show ?thesis by (simp add: 1 3 less_eq_fence_def phase_le_def)
qed

text \<open>
  A superseded owner stays superseded. Once the service's generation has passed a number,
  no check at that number ever succeeds again, for any unit.
\<close>
lemma stale_owner_refused:
  assumes "others_fence H p s" and "hub_wf (hub w)" and "g < fence_gen (fence p s (hub w))"
    and "service_run H p s w w2"
  shows "case fst (verifyOwnership H c ref s unit g w2) of Inl e \<Rightarrow> True | Inr v \<Rightarrow> p_id (sv_project v) \<noteq> p"
proof (cases "verifyOwnership H c ref s unit g w2")
  case (Pair r w3)
  have 2: "hub_wf (hub w2)" "fence p s (hub w) \<le> fence p s (hub w2)"
    using service_run_fence [OF assms(4,1,2)] by simp_all
  have False if r: "r = Inr v" and p: "p_id (sv_project v) = p" for v
  proof -
    note ver = Pair [unfolded r]
    have 3: "fence p s (hub w3) = Fence g (POwned (Some unit))"
      using verify_fence [OF 2(1) ver] p by simp
    have "at_least p s (fence p s (hub w2)) (hub w3)"
      by (rule advancesD [OF advances_verify ver]) (simp add: at_least_def 2(1))
    with 2 have "fence p s (hub w) \<le> fence p s (hub w3)" by (auto simp: at_least_def intro: order_trans)
    with assms(3) show False by (auto simp: 3 less_eq_fence_def)
  qed
  with Pair show ?thesis by (auto split: sum.split)
qed

lemma transition_body:
  assumes "hub_wf (hub w)" "others_fence H p s" "transition H ref name create fn w = (Inr r, w')"
  shows "\<exists>project e l w1 w2. current project name l (hub w1) \<and> at_least p s (fence p s (hub w)) (hub w1) \<and>
    fn (project, e, l) w1 = (Inr r, w2) \<and> h_leases (hub w') = h_leases (hub w2)"
proof -
  from assms(3) obtain pr w0 where
      0: "resolveProject H ref w = (Inr pr, w0)"
    and 1: "withLock H (lockName (p_id pr) name) (andThen (loadService H (p_id pr) name create) fn) w0 = (Inr r, w')"
    unfolding transition_def by - (erule andThen_okE, erule andThen_okE, simp add: ofSum_def)
  from 1 obtain wl wf where l: "acquireLock H (lockName (p_id pr) name) w0 = (Inr (), wl)"
    and f: "andThen (loadService H (p_id pr) name create) fn wl = (Inr r, wf)"
    and w': "w' = wf\<lparr>hub := releaseLock (lockName (p_id pr) name) (hub wf)\<rparr>"
    unfolding withLock_def by (auto simp: andThen_def tryE_def ofSum_def hubSet_run split: prod.splits sum.splits)
  from f obtain x w1 where x: "loadService H (p_id pr) name create wl = (Inr x, w1)" "fn x w1 = (Inr r, wf)"
    by (rule andThen_okE)
  obtain project e le where xp: "x = (project, e, le)" by (cases x)
  let ?F = "fence p s (hub w)"
  have "at_least p s ?F (hub w)" using assms(1) by (simp add: at_least_def)
  then have a0: "at_least p s ?F (hub w0)" by (rule preservesD [OF pres_at_least_resolveProject _ 0])
  have al: "at_least p s ?F (hub wl)"
    using acquire_loop_pres [of "at_least p s ?F", OF at_least_locks at_least_sleep [OF assms(2)] a0] l
    by (metis acquireLock_def snd_conv)
  have a1: "at_least p s ?F (hub w1)" by (rule preservesD [OF pres_at_least_loadService al x(1)])
  have "current project name le (hub w1)"
    using loadService_current [OF _ x(1) [unfolded xp]] al by (simp add: at_least_def)
  with a1 x(2) xp w' show ?thesis by fastforce
qed

lemma acquireBody_reserved:
  assumes "current project name l0 (hub w)" "acquireBody H c name inp (project, e, l0) w = (Inr (AcqReserved l v t), w')"
  shows "fence (p_id project) name (hub w') = Fence (l_generation l) (PReserved (Some t)) \<and>
    l_project l = p_id project \<and> l_generation l = l_generation l0 + 1"
proof -
  from assms(2) obtain n h' w2 where put: "putServiceLease n (hub w) = Inr h'"
    and n: "l_project n = p_id project" "l_service n = name" "l_generation n = l_generation l0 + 1"
      "l_state n = Reserved" "reservationToken n = Some t"
    and l: "l = n" and w': "hub w' = h'"
    by (auto simp: acquireBody_def viewOp_def andThen_reads andThen_def [of "now H"]
        andThen_def [of "extStep g" for g] now_run extStep_def throw_def ret_def andThen_def [of "writeLease H g" for g]
        writeLease_run reservationToken_def split: sum.splits prod.splits if_splits option.splits)
  have "getServiceLease (p_id project) name h' = Inr (Some n)"
    using getServiceLease_put [OF put] n by simp
  with n l w' show ?thesis by (simp add: fence_def fence_of_def)
qed

lemma acquire_fence:
  assumes "hub_wf (hub w)" "others_fence H p s" "acquireService H c ref s inp w = (Inr (AcqReserved l v t), w')"
    and "l_project l = p"
  shows "fence p s (hub w') = Fence (l_generation l) (PReserved (Some t))"
    and "fence_gen (fence p s (hub w)) < l_generation l"
proof -
  obtain project e l0 w1 w2 where b: "current project s l0 (hub w1)" "at_least p s (fence p s (hub w)) (hub w1)"
    "acquireBody H c s inp (project, e, l0) w1 = (Inr (AcqReserved l v t), w2)" "h_leases (hub w') = h_leases (hub w2)"
    using transition_body [OF assms(1,2) assms(3) [unfolded acquireService_def]] by blast
  note r = acquireBody_reserved [OF b(1,3)]
  show "fence p s (hub w') = Fence (l_generation l) (PReserved (Some t))"
    using r fence_cong [OF b(4)] assms(4) by simp
  have "fence p s (hub w) \<le> fence_of l0" using b(1,2) r assms(4) by (simp add: at_least_def current_def)
  then show "fence_gen (fence p s (hub w)) < l_generation l"
    using r by (auto simp: fence_of_def less_eq_fence_def)
qed

lemma bind_fence:
  assumes "hub_wf (hub w)" "others_fence H p s" "bindService H c ref s g t unit w = (Inr v, w')"
    and "p_id (sv_project v) = p"
  shows "fence p s (hub w) \<le> Fence g (PReserved (Some t))"
proof -
  obtain project e l0 w1 w2 where b: "current project s l0 (hub w1)" "at_least p s (fence p s (hub w)) (hub w1)"
    "bindBody H c g t unit (project, e, l0) w1 = (Inr v, w2)"
    using transition_body [OF assms(1,2) assms(3) [unfolded bindService_def]] by blast
  from b(3) have l0: "l_state l0 = Reserved" "l_generation l0 = g" "reservationToken l0 = Some t"
    by (auto simp: bindBody_def throw_def split: if_splits)
  have "sv_project v = project"
    using b(3) by (auto simp: bindBody_def throw_def elim!: andThen_okE dest: viewOp_project split: if_splits)
  with b(1,2) assms(4) have "fence p s (hub w) \<le> fence_of l0" by (simp add: at_least_def current_def)
  with l0 show ?thesis by (simp add: fence_of_def)
qed

text \<open>
  C5. A reservation is exclusive. When an acquire hands out a token for a generation, then
  whatever happens afterwards only that token binds an owner at that generation, and every later
  reservation of the service is of a higher generation.
\<close>
theorem reservation_exclusive:
  assumes "others_fence H p s" and "hub_wf (hub w)"
    and "acquireService H c ref s inp w = (Inr (AcqReserved l v t), w1)" and "l_project l = p"
    and "service_run H p s w1 w2"
  shows "(\<forall>c' ref' t' unit v' w3. bindService H c' ref' s (l_generation l) t' unit w2 = (Inr v', w3) \<longrightarrow>
      p_id (sv_project v') = p \<longrightarrow> t' = t) \<and>
    (\<forall>c' ref' inp' l' v' t' w3. acquireService H c' ref' s inp' w2 = (Inr (AcqReserved l' v' t'), w3) \<longrightarrow>
      l_project l' = p \<longrightarrow> l_generation l < l_generation l')"
proof -
  note f1 = acquire_fence [OF assms(2,1,3,4)]
  have "hub_wf (hub w1)"
    using advancesD [OF advances_acquire [OF assms(1)] assms(3), where F = "fence p s (hub w)"] assms(2)
    by (simp add: at_least_def)
  then have f2: "hub_wf (hub w2)" "Fence (l_generation l) (PReserved (Some t)) \<le> fence p s (hub w2)"
    using service_run_fence [OF assms(5,1)] f1 by simp_all
  show ?thesis
  proof (intro conjI allI impI)
    fix c' ref' t' unit v' w3
    assume "bindService H c' ref' s (l_generation l) t' unit w2 = (Inr v', w3)" "p_id (sv_project v') = p"
    from bind_fence [OF f2(1) assms(1) this] f2(2)
    have "Fence (l_generation l) (PReserved (Some t)) \<le> Fence (l_generation l) (PReserved (Some t'))"
      by (rule order_trans [rotated])
    then show "t' = t" by (simp add: less_eq_fence_def phase_le_def)
  next
    fix c' ref' inp' l' v' t' w3
    assume "acquireService H c' ref' s inp' w2 = (Inr (AcqReserved l' v' t'), w3)" "l_project l' = p"
    from acquire_fence(2) [OF f2(1) assms(1) this] f2(2)
    show "l_generation l < l_generation l'" by (auto simp: less_eq_fence_def)
  qed
qed

text \<open>A hub with one project and one of its services, owned by unit \<open>a\<close> at generation 2.\<close>

definition demo_lease :: lease where
  "demo_lease = \<lparr>l_project = ''prj-0123456789abcdef'', l_service = ''db'', l_endpoint = ''svc-prj-0123456789abcdef-db'',
     l_generation = 2, l_state = Owned, l_holder = Some ''a'', l_reservation = None, l_updatedAt = 9\<rparr>"

definition service_hub :: hub where
  "service_hub = project_hub\<lparr>
     h_agents := [(''a.json'', Json (demo_agent ''a'')),
       (''svc-prj-0123456789abcdef-db.json'', Json ((demo_agent ''svc-prj-0123456789abcdef-db'')\<lparr>a_kind := Some ServiceKind\<rparr>))],
     h_leases := [((''prj-0123456789abcdef'', ''db.json''), Json demo_lease)]\<rparr>"

definition service_world :: "nat world" where
  "service_world = demo_world\<lparr>hub := service_hub\<rparr>"

lemma getServiceLease_takeLock: "getServiceLease p s (hub (takeLock H n w)) = getServiceLease p s (hub w)"
  by (simp add: getServiceLease_simp)

lemma getProject_takeLock: "getProject i (hub (takeLock H n w)) = getProject i (hub w)"
  by (simp add: getProject_simp)

lemma service_world_wf: "hub_wf (hub service_world)"
  by (simp add: service_world_def service_hub_def project_hub_def hub_wf_def files_wf_def dir_wf_def empty_hub_def
      lease_files_wf_def demo_agent_def json_def safe_id_def unsafe_char_def slash_def git_project_def demo_lease_def)

lemma service_world_gets:
  "getProject ''prj-0123456789abcdef'' (hub service_world) = Inr (Some git_project)"
  "getServiceLease ''prj-0123456789abcdef'' ''db'' (hub service_world) = Inr (Some demo_lease)"
  "getAgent ''svc-prj-0123456789abcdef-db'' (hub service_world) =
     Inr (Some ((demo_agent ''svc-prj-0123456789abcdef-db'')\<lparr>a_kind := Some ServiceKind\<rparr>))"
  "getAgent ''a'' (hub service_world) = Inr (Some (demo_agent ''a''))"
  by (simp_all add: service_world_def service_hub_def project_hub_def getProject_simp getServiceLease_simp getAgent_simp
      dget_def json_def safe_id_def unsafe_char_def slash_def)

lemma db_name_ok: "assertServiceName ''db'' = Inr ()"
  by (simp add: assertServiceName_def service_name_ok_def is_lower_def is_digit_def)

lemma git_project_id: "p_id git_project = ''prj-0123456789abcdef''"
  by (simp add: git_project_def)

lemma demo_agent_live: "a_status (demo_agent i) = Idle" "a_pane (demo_agent i) = None"
  by (simp_all add: demo_agent_def)

lemma service_verify_run:
  "\<exists>v. verifyOwnership demo_host None ''prj-0123456789abcdef'' ''db'' ''a'' 2 service_world = (Inr v, service_world) \<and>
     p_id (sv_project v) = ''prj-0123456789abcdef''"
  by (simp add: verifyOwnership_def loadService_def db_name_ok resolveProject_def andThen_def eff_simps
      service_world_gets serviceEndpointId_def git_project_id demo_lease_def viewOp_def view_def Let_def
      isLive_def sessionLive_def demo_agent_live)

lemma service_acquire_run:
  "\<exists>l v t w1. acquireService demo_host None ''prj-0123456789abcdef'' ''db''
     \<lparr>ai_by = None, ai_ttlMs = None, ai_force = Some 2\<rparr> service_world = (Inr (AcqReserved l v t), w1) \<and>
     l_project l = ''prj-0123456789abcdef'' \<and> l_generation l = 3"
proof -
  have r: "resolveProject demo_host ''prj-0123456789abcdef'' w = (Inr git_project, w)"
    if "getProject ''prj-0123456789abcdef'' (hub w) = Inr (Some git_project)" for w
    using that by (simp add: resolveProject_def andThen_def eff_simps)
  let ?n = "lockName ''prj-0123456789abcdef'' ''db''"
  let ?wl = "takeLock demo_host ?n service_world"
  have g: "getProject ''prj-0123456789abcdef'' (hub ?wl) = Inr (Some git_project)"
    "getServiceLease ''prj-0123456789abcdef'' ''db'' (hub ?wl) = Inr (Some demo_lease)"
    "getAgent ''svc-prj-0123456789abcdef-db'' (hub ?wl) =
       Inr (Some ((demo_agent ''svc-prj-0123456789abcdef-db'')\<lparr>a_kind := Some ServiceKind\<rparr>))"
    "getAgent ''a'' (hub ?wl) = Inr (Some (demo_agent ''a''))"
    by (simp_all add: getProject_takeLock getServiceLease_takeLock service_world_gets)
  have free: "lock_free (hub service_world) ?n"
    by (simp add: lock_free_def service_world_def service_hub_def project_hub_def empty_hub_def)
  have l: "loadService demo_host ''prj-0123456789abcdef'' ''db'' True ?wl =
      (Inr (git_project, (demo_agent ''svc-prj-0123456789abcdef-db'')\<lparr>a_kind := Some ServiceKind\<rparr>, demo_lease), ?wl)"
    by (simp add: loadService_def db_name_ok andThen_def eff_simps r g service_world_gets git_project_id serviceEndpointId_def)
  have "safe_id ''prj-0123456789abcdef''" "safe_id ''db''" by (simp_all add: safe_id_def unsafe_char_def slash_def)
  then show ?thesis
    by (simp add: acquireService_def transition_def db_name_ok andThen_def eff_simps r service_world_gets
        git_project_id withLock_free free l acquireBody_def viewOp_def view_def demo_lease_def g Let_def
        isLive_def sessionLive_def demo_agent_live writeLease_run putServiceLease_simp)
qed

lemma demo_others_fence: "others_fence demo_host p s"
  by (simp add: others_fence_def)

theorem one_owner_per_generation_witness:
  "\<not> (\<exists>unit' v' w3. verifyOwnership demo_host None ''prj-0123456789abcdef'' ''db'' unit' 2
      (os_sleep demo_host 50 service_world) = (Inr v', w3) \<and>
    p_id (sv_project v') = ''prj-0123456789abcdef'' \<and> unit' \<noteq> ''a'')"
proof (intro notI, elim exE conjE)
  fix unit' v' w3
  assume ne: "unit' \<noteq> ''a''"
  assume v': "verifyOwnership demo_host None ''prj-0123456789abcdef'' ''db'' unit' 2
      (os_sleep demo_host 50 service_world) = (Inr v', w3)" "p_id (sv_project v') = ''prj-0123456789abcdef''"
  obtain v where v: "verifyOwnership demo_host None ''prj-0123456789abcdef'' ''db'' ''a'' 2 service_world = (Inr v, service_world)"
    "p_id (sv_project v) = ''prj-0123456789abcdef''" using service_verify_run by blast
  have "service_run demo_host ''prj-0123456789abcdef'' ''db'' service_world (os_sleep demo_host 50 service_world)"
    by (rule r_into_rtranclp) (rule st_sleep)
  from one_owner_per_generation [OF demo_others_fence service_world_wf v this v'] ne show False by simp
qed

lemma stale_owner_refused_witness:
  "case fst (verifyOwnership demo_host None ''prj-0123456789abcdef'' ''db'' ''b'' 1 service_world) of
     Inl e \<Rightarrow> True | Inr v \<Rightarrow> p_id (sv_project v) \<noteq> ''prj-0123456789abcdef''"
proof -
  have "1 < fence_gen (fence ''prj-0123456789abcdef'' ''db'' (hub service_world))"
    by (simp add: fence_def service_world_gets fence_of_def demo_lease_def)
  from stale_owner_refused [OF demo_others_fence service_world_wf this rtranclp.rtrancl_refl]
  show ?thesis .
qed

theorem reservation_exclusive_witness:
  "\<exists>l v t w1. acquireService demo_host None ''prj-0123456789abcdef'' ''db''
     \<lparr>ai_by = None, ai_ttlMs = None, ai_force = Some 2\<rparr> service_world = (Inr (AcqReserved l v t), w1) \<and>
   (\<forall>t' unit v' w3. bindService demo_host None ''prj-0123456789abcdef'' ''db'' (l_generation l) t' unit w1 = (Inr v', w3) \<longrightarrow>
      p_id (sv_project v') = ''prj-0123456789abcdef'' \<longrightarrow> t' = t)"
proof -
  obtain l v t w1 where a: "acquireService demo_host None ''prj-0123456789abcdef'' ''db''
     \<lparr>ai_by = None, ai_ttlMs = None, ai_force = Some 2\<rparr> service_world = (Inr (AcqReserved l v t), w1)"
    "l_project l = ''prj-0123456789abcdef''" using service_acquire_run by blast
  note x = conjunct1 [OF reservation_exclusive [OF demo_others_fence service_world_wf a rtranclp.rtrancl_refl], rule_format]
  show ?thesis
    by (rule exI [of _ l], rule exI [of _ v], rule exI [of _ t], rule exI [of _ w1], rule conjI [OF a(1)],
      intro allI impI, rule x)
qed

end
