(* ===== verification/WorkspaceLabel.thy ===== *)
theory WorkspaceLabel
  imports JsText
begin

text \<open>
  \<open>workspace-label.ts\<close>: the short name a unit's own workspace opens under, a code for the kind of
  work and as many whole words of the subject as fit. A byte outside ASCII is a separator.
  The reference definition is \<open>longest_fit\<close>: the longest prefix of the words that fits.
\<close>

definition LABEL_CAP :: nat where
  "LABEL_CAP = 30"

definition CODE_WIDTH :: nat where
  "CODE_WIDTH = 3"

definition TEARDOWN_ACTIONS :: "string list" where
  "TEARDOWN_ACTIONS = [''clean'', ''cleanup'', ''decommission'', ''delete'', ''deprecate'', ''disable'',
     ''drop'', ''prune'', ''purge'', ''remove'', ''retire'', ''revert'', ''revoke'', ''rollback'',
     ''teardown'', ''undo'', ''uninstall'', ''unregister'']"

definition RECON_ACTIONS :: "string list" where
  "RECON_ACTIONS = [''analyze'', ''assess'', ''audit'', ''check'', ''compare'', ''debug'', ''diagnose'',
     ''evaluate'', ''examine'', ''explain'', ''explore'', ''find'', ''identify'', ''inspect'',
     ''investigate'', ''locate'', ''measure'', ''profile'', ''read'', ''reproduce'', ''research'',
     ''review'', ''scan'', ''survey'', ''trace'', ''triage'', ''verify'']"

definition BUILD_ACTIONS :: "string list" where
  "BUILD_ACTIONS = [''add'', ''backfill'', ''build'', ''create'', ''document'', ''enable'', ''extend'',
     ''fix'', ''generalize'', ''harden'', ''implement'', ''introduce'', ''make'', ''migrate'', ''move'',
     ''port'', ''refactor'', ''rename'', ''replace'', ''rework'', ''ship'', ''split'', ''support'',
     ''swap'', ''update'', ''wire'', ''write'']"

definition LEADING_ARTICLES :: "string list" where
  "LEADING_ARTICLES = [''a'', ''an'', ''the'']"

record label_input =
  lb_brief :: string
  lb_handle :: "string option"
  lb_id :: string

definition firstNonEmptyLine :: "string \<Rightarrow> string" where
  "firstNonEmptyLine brief = defaultTo (find (\<lambda>l. trim l \<noteq> []) (split_on (CHR 0x0A) brief)) []"

text \<open>Splitting at each separator and dropping the empty parts splits at each run of them.\<close>

fun split_where :: "('a \<Rightarrow> bool) \<Rightarrow> 'a list \<Rightarrow> 'a list list" where
  "split_where P [] = [[]]"
| "split_where P (x # xs) =
     (if P x then [] # split_where P xs
      else (case split_where P xs of [] \<Rightarrow> [[x]] | w # ws \<Rightarrow> (x # w) # ws))"

definition tokenize :: "string \<Rightarrow> string list" where
  "tokenize text =
     filter (\<lambda>w. w \<noteq> []) (split_where (\<lambda>c. \<not> (is_lower c \<or> is_digit c)) (map to_lower_char text))"

fun fit_loop :: "nat \<Rightarrow> string \<Rightarrow> string list \<Rightarrow> string" where
  "fit_loop budget out [] = out"
| "fit_loop budget out (w # ws) =
     (let next = out @ ''-'' @ w
      in if budget < length next then out else fit_loop budget next ws)"

definition fitWords :: "string list \<Rightarrow> nat \<Rightarrow> string" where
  "fitWords ws budget = (case ws of [] \<Rightarrow> [] | w # rest \<Rightarrow> fit_loop budget (take budget w) rest)"

definition label_code :: "string list \<Rightarrow> string" where
  "label_code briefWords = (case briefWords of
       [] \<Rightarrow> ''2B-''
     | lead # rest \<Rightarrow>
         if lead \<in> set TEARDOWN_ACTIONS then ''A2-''
         else if lead \<in> set RECON_ACTIONS then ''9S-''
         else ''2B-'')"

definition leadIsAction :: "string list \<Rightarrow> bool" where
  "leadIsAction briefWords = (case briefWords of
       [] \<Rightarrow> False
     | lead # rest \<Rightarrow> lead \<in> set TEARDOWN_ACTIONS \<or> lead \<in> set RECON_ACTIONS \<or> lead \<in> set BUILD_ACTIONS)"

definition dropArticle :: "string list \<Rightarrow> string list" where
  "dropArticle ws = (case ws of [] \<Rightarrow> [] | w # rest \<Rightarrow> if w \<in> set LEADING_ARTICLES then rest else ws)"

definition subjectWords :: "label_input \<Rightarrow> string list" where
  "subjectWords inp =
     (let briefWords = tokenize (firstNonEmptyLine (lb_brief inp))
      in case truthy (lb_handle inp) of
           Some h \<Rightarrow> tokenize h
         | None \<Rightarrow> dropArticle (if leadIsAction briefWords then tl briefWords else briefWords))"

definition deriveWorkspaceLabel :: "label_input \<Rightarrow> string" where
  "deriveWorkspaceLabel inp =
     (let code = label_code (tokenize (firstNonEmptyLine (lb_brief inp)));
          budget = LABEL_CAP - CODE_WIDTH;
          subject = fitWords (subjectWords inp) budget
      in code @ (if subject = [] then take 6 (lb_id inp) else subject))"

subsection \<open>The longest prefix of words that fits\<close>

definition fits :: "nat \<Rightarrow> string list \<Rightarrow> nat \<Rightarrow> bool" where
  "fits b ws n \<longleftrightarrow> n \<le> length ws \<and> (n \<le> 1 \<or> length (join_with ''-'' (take n ws)) \<le> b)"

definition longest_fit :: "nat \<Rightarrow> string list \<Rightarrow> string" where
  "longest_fit b ws = take b (join_with ''-'' (take (Max {n. fits b ws n}) ws))"

lemma finite_fits: "finite {n. fits b ws n}"
  by (rule finite_subset [of _ "{..length ws}"]) (auto simp: fits_def)

lemma join_with_snoc: "ws \<noteq> [] \<Longrightarrow> join_with sep (ws @ [w]) = join_with sep ws @ sep @ w"
  by (induction sep ws rule: join_with.induct) auto

lemma length_join_take_mono:
  "m \<le> n \<Longrightarrow> length (join_with sep (take m ws)) \<le> length (join_with sep (take n ws))"
proof (induction n)
  case 0
  then show ?case by simp
next
  case (Suc n)
  have "length (join_with sep (take n ws)) \<le> length (join_with sep (take (Suc n) ws))"
  proof (cases "n < length ws")
    case True
    then have "take (Suc n) ws = take n ws @ [ws ! n]" by (rule take_Suc_conv_app_nth)
    then show ?thesis
      using join_with_snoc [of "take n ws" sep "ws ! n"] by (cases "take n ws = []") auto
  qed simp
  with Suc show ?case by (cases "m = Suc n") auto
qed

lemma fit_loop_longest:
  assumes "ws \<noteq> []" "m \<ge> 1" "fits b ws m" "out = take b (join_with ''-'' (take m ws))"
  shows "fit_loop b out (drop m ws) = longest_fit b ws"
  using assms(2-)
proof (induction "drop m ws" arbitrary: m out)
  case Nil
  then have "m = length ws" by (simp add: fits_def)
  then have "Max {n. fits b ws n} = m"
    using Nil.prems(2) by (intro Max_eqI finite_fits) (auto simp: fits_def)
  with Nil show ?case by (simp add: longest_fit_def flip: \<open>[] = drop m ws\<close>)
next
  case (Cons w rest)
  have lt: "m < length ws" using Cons.hyps(2) by (metis drop_all linorder_not_le neq_Nil_conv)
  then have w: "w = ws ! m" "rest = drop (Suc m) ws"
    using Cons.hyps(2) by (metis Cons_nth_drop_Suc list.inject)+
  have tk: "take (Suc m) ws = take m ws @ [w]" using lt w by (simp add: take_Suc_conv_app_nth)
  have ne: "take m ws \<noteq> []" using lt Cons.prems(1) by auto
  have j: "join_with ''-'' (take (Suc m) ws) = join_with ''-'' (take m ws) @ ''-'' @ w"
    using join_with_snoc [OF ne, of "''-''" w] by (simp add: tk)
  show ?case
  proof (cases "length (join_with ''-'' (take (Suc m) ws)) \<le> b")
    case True
    then have out: "out = join_with ''-'' (take m ws)" using Cons.prems(3) j by simp
    have "fits b ws (Suc m)" using True lt by (simp add: fits_def)
    moreover have "out @ ''-'' @ w = take b (join_with ''-'' (take (Suc m) ws))" using True j out by simp
    ultimately have "fit_loop b (out @ ''-'' @ w) (drop (Suc m) ws) = longest_fit b ws"
      using Cons.hyps(1) [of "Suc m"] w(2) by simp
    then show ?thesis using True j out by (simp flip: Cons.hyps(2) w(2) add: Let_def)
  next
    case False
    have "fits b ws n \<Longrightarrow> n \<le> m" for n
      using False length_join_take_mono [of "Suc m" n "''-''" ws] Cons.prems(1)
      by (cases "n \<le> m") (auto simp: fits_def)
    then have "Max {n. fits b ws n} = m" using Cons.prems(2) by (intro Max_eqI finite_fits) auto
    moreover have "b < length (out @ ''-'' @ w)" using False j Cons.prems(3) by auto
    ultimately show ?thesis using Cons.prems(3) by (simp flip: Cons.hyps(2) add: longest_fit_def Let_def)
  qed
qed

lemma fitWords_longest: "fitWords ws b = longest_fit b ws"
proof (cases ws)
  case Nil
  have "{n. fits b [] n} = {0}" by (auto simp: fits_def)
  with Nil show ?thesis by (simp add: fitWords_def longest_fit_def)
next
  case (Cons w rest)
  then have "fit_loop b (take b w) (drop 1 ws) = longest_fit b ws"
    by (intro fit_loop_longest) (simp_all add: fits_def)
  with Cons show ?thesis by (simp add: fitWords_def)
qed

lemma length_longest_fit: "length (longest_fit b ws) \<le> b"
  by (simp add: longest_fit_def)

lemma longest_fit_empty:
  assumes "\<forall>w\<in>set ws. w \<noteq> []" "0 < b"
  shows "longest_fit b ws = [] \<longleftrightarrow> ws = []"
proof (cases ws)
  case Nil
  then show ?thesis by (simp add: fitWords_longest [symmetric] fitWords_def)
next
  case (Cons w rest)
  let ?n = "Max {n. fits b ws n}"
  have "1 \<le> ?n" using Cons by (intro Max_ge finite_fits) (simp add: fits_def)
  then have "length (join_with ''-'' (take 1 ws)) \<le> length (join_with ''-'' (take ?n ws))"
    by (rule length_join_take_mono)
  moreover have "w \<noteq> []" using assms Cons by simp
  ultimately show ?thesis using Cons assms(2) by (auto simp: longest_fit_def)
qed

lemma tokenize_nonempty: "w \<in> set (tokenize t) \<Longrightarrow> w \<noteq> []"
  by (simp add: tokenize_def)

lemma subjectWords_nonempty: "w \<in> set (subjectWords inp) \<Longrightarrow> w \<noteq> []"
proof -
  have sub: "set (dropArticle (if b then tl ws else ws)) \<subseteq> set ws" for b ws
    by (cases ws) (auto simp: dropArticle_def split: list.splits)
  assume "w \<in> set (subjectWords inp)"
  then obtain t where "w \<in> set (tokenize t)"
    using sub by (auto simp: subjectWords_def Let_def split: option.splits)
  then show ?thesis by (rule tokenize_nonempty)
qed

lemma label_code_mem: "label_code ws \<in> {''A2-'', ''9S-'', ''2B-''}"
  by (simp add: label_code_def split: list.split)


end
