(* ===== verification/Participants.thy ===== *)
theory Participants
  imports Project
begin

text \<open>
  \<open>participants.ts\<close>: this hub's units as participants of \<open>cynapse\<close>, an optional package that is not
  part of this repository. It is a parameter: a record of the store operations the code calls, and
  a loader that may fail. What the sync relies on is \<open>cynapse_ok\<close>, stated over a view of the
  participants by key; the theorem says a sync makes cynapse's roster of live units this hub's.
\<close>

datatype participant_status = PLive | PRetired

record participant =
  pt_id :: string
  pt_key :: "string option"
  pt_name :: string
  pt_status :: participant_status

type_synonym subject = "string \<times> string"

record 'x cynapse =
  cy_register :: "string \<Rightarrow> string \<Rightarrow> string \<Rightarrow> string option \<Rightarrow> (error, 'x, participant) eff"
  cy_participants :: "string \<Rightarrow> 'x \<Rightarrow> error + participant list"
  cy_rename :: "string \<Rightarrow> string \<Rightarrow> string \<Rightarrow> (error, 'x, unit) eff"
  cy_retire :: "string \<Rightarrow> string \<Rightarrow> (error, 'x, unit) eff"
  cy_channel :: "subject \<Rightarrow> 'x \<Rightarrow> error + (string \<times> string) option"
  cy_close :: "(error, 'x, unit) eff"

text \<open>The imported module: what it opens for an environment.\<close>

type_synonym 'x cynapse_module = "env \<Rightarrow> (error, 'x, 'x cynapse) eff"

type_synonym 'x importer = "(error, 'x, 'x cynapse_module) eff"

subsection \<open>Keys\<close>

definition UNIT_PREFIX :: string where
  "UNIT_PREFIX = ''cyberlegion:unit/''"

definition runtimeKey :: "'x host \<Rightarrow> string \<Rightarrow> string" where
  "runtimeKey H root = ''cyberlegion:hub/'' @ take 16 (os_sha256 H root)"

definition unitKey :: "string \<Rightarrow> string" where
  "unitKey i = UNIT_PREFIX @ i"

definition isUnit :: "agent \<Rightarrow> bool" where
  "isUnit a \<longleftrightarrow> a_kind a = None \<or> a_kind a = Some SessionKind"

lemma unitKey_inject [simp]: "unitKey i = unitKey j \<longleftrightarrow> i = j"
  by (simp add: unitKey_def)

lemma runtimeKey_unitKey [simp]: "runtimeKey H r \<noteq> unitKey i" "unitKey i \<noteq> runtimeKey H r"
  by (simp_all add: runtimeKey_def unitKey_def UNIT_PREFIX_def)

text \<open>\<open>new Map(entries)\<close>: a later entry replaces the value of an earlier one.\<close>

definition toMap :: "('k \<times> 'v) list \<Rightarrow> ('k, 'v) dir" where
  "toMap kvs = foldl (\<lambda>d (k, v). dput k v d) [] kvs"

lemma toMap_snoc: "toMap (kvs @ [(k, v)]) = dput k v (toMap kvs)"
  by (simp add: toMap_def)

lemma fst_toMap: "fst ` set (toMap kvs) = fst ` set kvs"
proof (induction kvs rule: rev_induct)
  case Nil
  then show ?case by (simp add: toMap_def)
next
  case (snoc e kvs)
  then show ?case by (cases e) (simp add: toMap_snoc fst_set_dput)
qed

lemma toMap_distinct: "distinct (map fst kvs) \<Longrightarrow> toMap kvs = kvs"
proof (induction kvs rule: rev_induct)
  case Nil
  then show ?case by (simp add: toMap_def)
next
  case (snoc e kvs)
  then show ?case by (cases e) (auto simp: toMap_snoc dput_absent)
qed

lemma dir_wf_toMap: "dir_wf (toMap kvs)"
proof (induction kvs rule: rev_induct)
  case Nil
  then show ?case by (simp add: toMap_def)
next
  case (snoc e kvs)
  then show ?case by (cases e) (simp add: toMap_snoc)
qed

lemma dget_toMap_mem: "dget (toMap kvs) k = Some v \<Longrightarrow> (k, v) \<in> set kvs"
proof (induction kvs rule: rev_induct)
  case Nil
  then show ?case by (simp add: toMap_def)
next
  case (snoc e kvs)
  then show ?case by (cases e) (auto simp: toMap_snoc dget_dput split: if_splits)
qed

lemma dget_toMap:
  assumes "\<And>k v v'. (k, v) \<in> set kvs \<Longrightarrow> (k, v') \<in> set kvs \<Longrightarrow> v = v'"
  shows "dget (toMap kvs) k = Some v \<longleftrightarrow> (k, v) \<in> set kvs"
proof
  assume kv: "(k, v) \<in> set kvs"
  then have "k \<in> fst ` set (toMap kvs)" by (force simp: fst_toMap)
  then obtain v' where "dget (toMap kvs) k = Some v'" by (meson dget_None_iff not_None_eq)
  with dget_toMap_mem [OF this] kv assms show "dget (toMap kvs) k = Some v" by metis
qed (rule dget_toMap_mem)

subsection \<open>The sync\<close>

record sync_result =
  sr_registered :: "string list"
  sr_retired :: "string list"
  sr_renamed :: "string list"

definition minePairs :: "participant list \<Rightarrow> (string \<times> participant) list" where
  "minePairs ps = concat (map (\<lambda>p. case pt_key p of
       None \<Rightarrow> []
     | Some k \<Rightarrow> if starts_with k UNIT_PREFIX then [(drop (length UNIT_PREFIX) k, p)] else []) ps)"

definition syncUnit ::
  "'x cynapse \<Rightarrow> string \<Rightarrow> (string, participant) dir \<Rightarrow> agent \<Rightarrow> sync_result \<Rightarrow> ('x, sync_result) op" where
  "syncUnit C runtime mine rec acc =
     (if a_status rec = Exited then ret acc
      else andThen
        (if (case dget mine (a_id rec) of None \<Rightarrow> True | Some p \<Rightarrow> pt_status p = PRetired)
         then andThen (extEff (cy_register C (unitKey (a_id rec)) ''agent'' (a_handle rec) (Some runtime))) (\<lambda>p.
              ret (p, acc\<lparr>sr_registered := sr_registered acc @ [a_id rec]\<rparr>))
         else ret (the (dget mine (a_id rec)), acc)) (\<lambda>(p, acc').
        if pt_name p \<noteq> a_handle rec
        then andThen (extEff (cy_rename C (pt_id p) (a_handle rec) runtime)) (\<lambda>_.
             ret (acc'\<lparr>sr_renamed := sr_renamed acc' @ [a_id rec]\<rparr>))
        else ret acc'))"

definition retireOne ::
  "'x cynapse \<Rightarrow> string \<Rightarrow> (string, agent) dir \<Rightarrow> string \<times> participant \<Rightarrow> sync_result \<Rightarrow> ('x, sync_result) op" where
  "retireOne C runtime units e acc = (case e of (i, p) \<Rightarrow>
     if pt_status p \<noteq> PLive then ret acc
     else if (case dget units i of None \<Rightarrow> False | Some rec \<Rightarrow> a_status rec \<noteq> Exited) then ret acc
     else andThen (extEff (cy_retire C (pt_id p) runtime)) (\<lambda>_.
          ret (acc\<lparr>sr_retired := sr_retired acc @ [i]\<rparr>)))"

definition syncParticipants :: "'x host \<Rightarrow> 'x cynapse \<Rightarrow> ('x, sync_result) op" where
  "syncParticipants H C =
     andThen (hubGet h_root) (\<lambda>root.
     andThen (extEff (cy_register C (runtimeKey H root) ''service'' ''cyberlegion'' None)) (\<lambda>me.
     andThen (reads (\<lambda>w. cy_participants C (pt_id me) (ext w))) (\<lambda>ps.
     let mine = toMap (minePairs ps)
     in andThen (hubRead listAgents) (\<lambda>agents.
        let units = toMap (map (\<lambda>a. (a_id a, a)) (filter isUnit agents))
        in andThen (foldE (syncUnit C (pt_id me) mine) (map snd units)
                     \<lparr>sr_registered = [], sr_retired = [], sr_renamed = []\<rparr>) (\<lambda>acc.
           foldE (retireOne C (pt_id me) units) mine acc)))))"

definition repoSubject :: "'x host \<Rightarrow> string \<Rightarrow> ('x, subject option) op" where
  "repoSubject H dir =
     andThen (exec H ''git'' [''-C'', dir, ''remote'', ''get-url'', ''origin'']) (\<lambda>remote.
     case truthy remote of None \<Rightarrow> ret None | Some url \<Rightarrow>
     andThen (exec H ''gh'' [''repo'', ''view'', url, ''--json'', ''id'', ''--jq'', ''.id'']) (\<lambda>i.
     ret (map_option (\<lambda>x. (''gh'', x)) (truthy i))))"

text \<open>\<open>None\<close> when the module does not load; opening its store may throw.\<close>

definition openCynapse :: "'x host \<Rightarrow> 'x importer \<Rightarrow> ('x, 'x cynapse option) op" where
  "openCynapse H load =
     andThen (tryE (extEff load)) (\<lambda>m.
     case m of Inl e \<Rightarrow> ret None
     | Inr open \<Rightarrow> andThen (extEff (open (os_env H))) (\<lambda>C. ret (Some C)))"

text \<open>
  \<open>try { cyn = await openCynapse(); ... } catch { return undefined } finally { cyn?.close() }\<close>: the
  body runs with the open store, any error of the open or of the body gives \<open>None\<close>, and a store that
  was opened is closed on every path.
\<close>

definition withCynapse :: "'x host \<Rightarrow> 'x importer \<Rightarrow> ('x cynapse \<Rightarrow> ('x, 'a option) op) \<Rightarrow> ('x, 'a option) op" where
  "withCynapse H load body =
     andThen (tryE (openCynapse H load)) (\<lambda>opened.
     case opened of
       Inl e \<Rightarrow> ret None
     | Inr None \<Rightarrow> ret None
     | Inr (Some C) \<Rightarrow>
         andThen (tryE (body C)) (\<lambda>r.
         andThen (extEff (cy_close C)) (\<lambda>_.
         ret (case r of Inl e \<Rightarrow> None | Inr v \<Rightarrow> v))))"

record project_address =
  pa_subject :: subject
  pa_channel :: "(string \<times> string) option"

definition projectAddress :: "'x host \<Rightarrow> 'x importer \<Rightarrow> project \<Rightarrow> ('x, project_address option) op" where
  "projectAddress H load project =
     withCynapse H load (\<lambda>C.
       andThen (case p_subject project of
           Some s \<Rightarrow> ret (Some s)
         | None \<Rightarrow> andThen (repoSubject H (p_root project)) (\<lambda>s.
             case s of None \<Rightarrow> ret None
             | Some s' \<Rightarrow> andThen (hubWrite (putProject (project\<lparr>p_subject := Some s'\<rparr>))) (\<lambda>_. ret (Some s'))))
         (\<lambda>subject. case subject of None \<Rightarrow> ret None
          | Some s \<Rightarrow> andThen (reads (\<lambda>w. cy_channel C s (ext w))) (\<lambda>ch.
              ret (Some \<lparr>pa_subject = s, pa_channel = ch\<rparr>))))"

definition syncCynapse :: "'x host \<Rightarrow> 'x importer \<Rightarrow> ('x, sync_result option) op" where
  "syncCynapse H load =
     withCynapse H load (\<lambda>C.
       andThen (withLock H ''cynapse-participants'' (syncParticipants H C)) (\<lambda>r. ret (Some r)))"

subsection \<open>What the hub keeps\<close>

lemma hub_syncUnit: "keeps hub (syncUnit C rt mine a acc)"
  unfolding syncUnit_def by (intro frame keeps_hub_extEff [of "\<lambda>x. x"])

lemma hub_retireOne: "keeps hub (retireOne C rt units e acc)"
  unfolding retireOne_def by (intro frame keeps_hub_extEff [of "\<lambda>x. x"])

lemma hub_syncParticipants: "keeps hub (syncParticipants H C)"
  unfolding syncParticipants_def
  by (intro frame keeps_hub_extEff [of "\<lambda>x. x"] hub_syncUnit hub_retireOne)

lemma wf_syncParticipants [pres]: "wf_op (syncParticipants H C)"
  using hub_syncParticipants [of H C] by (simp add: preserves_def keeps_def)

lemma wf_repoSubject [pres]: "wf_op (repoSubject H d)"
  unfolding repoSubject_def by (intro pres)

lemma wf_openCynapse [pres]: "wf_op (openCynapse H load)"
  unfolding openCynapse_def by (intro pres)

lemma wf_withCynapse [pres]: "(\<And>C. wf_op (body C)) \<Longrightarrow> wf_op (withCynapse H load body)"
  unfolding withCynapse_def by (intro pres)

lemma wf_projectAddress [pres]: "wf_op (projectAddress H load p)"
  unfolding projectAddress_def by (intro pres) (auto dest: store_wf)

lemma wf_syncCynapse [pres]: "others_wf H \<Longrightarrow> wf_op (syncCynapse H load)"
  unfolding syncCynapse_def by (intro pres) auto

subsection \<open>What the sync relies on\<close>

text \<open>
  A view of the participants: by key, the participant and who registered it. Registering a key that
  is free, or one's own, gives its live participant (with its id, and unchanged if it was live);
  renaming and retiring change that participant and nothing else; the listing is of what one
  registered.
\<close>

type_synonym 'x registry = "'x \<Rightarrow> string \<Rightarrow> (participant \<times> string option) option"

definition own_row :: "(participant \<times> string option) option \<Rightarrow> string option \<Rightarrow> bool" where
  "own_row row by \<longleftrightarrow> (\<forall>p o'. row = Some (p, o') \<longrightarrow> o' = by)"

definition registers_ok :: "'x cynapse \<Rightarrow> 'x registry \<Rightarrow> bool" where
  "registers_ok C reg \<longleftrightarrow> (\<forall>x k kd nm by. own_row (reg x k) by \<longrightarrow>
     (\<exists>p x'. cy_register C k kd nm by x = (Inr p, x') \<and>
        pt_key p = Some k \<and> pt_status p = PLive \<and> reg x' = (reg x)(k \<mapsto> (p, by)) \<and>
        (\<forall>q o'. reg x k = Some (q, o') \<longrightarrow> pt_id p = pt_id q \<and> (pt_status q = PLive \<longrightarrow> p = q))))"

definition lists_ok :: "'x cynapse \<Rightarrow> 'x registry \<Rightarrow> bool" where
  "lists_ok C reg \<longleftrightarrow> (\<forall>x rt. \<exists>ps. cy_participants C rt x = Inr ps \<and>
     (\<forall>k p. p \<in> set ps \<and> pt_key p = Some k \<longleftrightarrow> reg x k = Some (p, Some rt)))"

definition changes_ok :: "(string \<Rightarrow> 'x \<Rightarrow> (error + unit) \<times> 'x) \<Rightarrow> (participant \<Rightarrow> participant) \<Rightarrow> 'x registry \<Rightarrow> bool" where
  "changes_ok m f reg \<longleftrightarrow> (\<forall>x k p o'. reg x k = Some (p, o') \<longrightarrow>
     (\<exists>x'. m (pt_id p) x = (Inr (), x') \<and> reg x' = (reg x)(k \<mapsto> (f p, o'))))"

definition cynapse_ok :: "'x cynapse \<Rightarrow> 'x registry \<Rightarrow> bool" where
  "cynapse_ok C reg \<longleftrightarrow> registers_ok C reg \<and> lists_ok C reg \<and>
     (\<forall>nm by. changes_ok (\<lambda>i. cy_rename C i nm by) (\<lambda>p. p\<lparr>pt_name := nm\<rparr>) reg) \<and>
     (\<forall>by. changes_ok (\<lambda>i. cy_retire C i by) (\<lambda>p. p\<lparr>pt_status := PRetired\<rparr>) reg)"

lemma cy_register_ok:
  assumes "cynapse_ok C reg" "own_row (reg x k) by"
  obtains p x' where "cy_register C k kd nm by x = (Inr p, x')" "pt_key p = Some k" "pt_status p = PLive"
    "reg x' = (reg x)(k \<mapsto> (p, by))"
    "\<forall>q o'. reg x k = Some (q, o') \<longrightarrow> pt_id p = pt_id q \<and> (pt_status q = PLive \<longrightarrow> p = q)"
proof -
  have "registers_ok C reg" using assms(1) by (simp add: cynapse_ok_def)
  then have "\<exists>p x'. cy_register C k kd nm by x = (Inr p, x') \<and>
        pt_key p = Some k \<and> pt_status p = PLive \<and> reg x' = (reg x)(k \<mapsto> (p, by)) \<and>
        (\<forall>q o'. reg x k = Some (q, o') \<longrightarrow> pt_id p = pt_id q \<and> (pt_status q = PLive \<longrightarrow> p = q))"
    unfolding registers_ok_def using assms(2) by simp
  then show thesis by (elim exE conjE) (rule that)
qed

lemma cy_participants_ok:
  assumes "cynapse_ok C reg"
  obtains ps where "cy_participants C rt x = Inr ps"
    "\<forall>k p. p \<in> set ps \<and> pt_key p = Some k \<longleftrightarrow> reg x k = Some (p, Some rt)"
proof -
  have "lists_ok C reg" using assms by (simp add: cynapse_ok_def)
  then show thesis using that unfolding lists_ok_def by blast
qed

lemma changes_okE:
  assumes "changes_ok m f reg" "reg x k = Some (p, o')"
  obtains x' where "m (pt_id p) x = (Inr (), x')" "reg x' = (reg x)(k \<mapsto> (f p, o'))"
  using assms unfolding changes_ok_def by blast

lemma cy_changes_ok:
  "cynapse_ok C reg \<Longrightarrow> changes_ok (\<lambda>i. cy_rename C i nm by) (\<lambda>p. p\<lparr>pt_name := nm\<rparr>) reg"
  "cynapse_ok C reg \<Longrightarrow> changes_ok (\<lambda>i. cy_retire C i by) (\<lambda>p. p\<lparr>pt_status := PRetired\<rparr>) reg"
  by (simp_all add: cynapse_ok_def)

text \<open>The units this hub runs, and the live units cynapse has from a runtime: id and name.\<close>

definition running :: "agent list \<Rightarrow> (string \<times> string) set" where
  "running agents = {(a_id a, a_handle a) |a. a \<in> set agents \<and> isUnit a \<and> a_status a \<noteq> Exited}"

definition roster :: "'x registry \<Rightarrow> string \<Rightarrow> 'x \<Rightarrow> (string \<times> string) set" where
  "roster reg rt x = {(i, pt_name p) |i p. reg x (unitKey i) = Some (p, Some rt) \<and> pt_status p = PLive}"

text \<open>A unit is settled when its participant is live, the runtime's own and carries its handle.\<close>

definition settled :: "'x registry \<Rightarrow> string \<Rightarrow> 'x \<Rightarrow> agent \<Rightarrow> bool" where
  "settled reg rt x a \<longleftrightarrow> (\<exists>p. reg x (unitKey (a_id a)) = Some (p, Some rt) \<and> pt_status p = PLive \<and> pt_name p = a_handle a)"

definition mine_ok :: "'x registry \<Rightarrow> string \<Rightarrow> 'x \<Rightarrow> (string, participant) dir \<Rightarrow> bool" where
  "mine_ok reg rt x mine \<longleftrightarrow> dir_wf mine \<and> (\<forall>i p. dget mine i = Some p \<longleftrightarrow> reg x (unitKey i) = Some (p, Some rt))"

lemma starts_with_unit: "starts_with k UNIT_PREFIX \<Longrightarrow> unitKey (drop (length UNIT_PREFIX) k) = k"
  unfolding starts_with_def unitKey_def by (metis append_take_drop_id)

lemma unitKey_drop: "starts_with (unitKey i) UNIT_PREFIX" "drop (length UNIT_PREFIX) (unitKey i) = i"
  by (simp_all add: starts_with_def unitKey_def)

lemma minePairs_mem:
  "(i, p) \<in> set (minePairs ps) \<longleftrightarrow> p \<in> set ps \<and> pt_key p = Some (unitKey i)"
proof -
  have one: "(i, p) \<in> set (case pt_key q of None \<Rightarrow> []
     | Some k \<Rightarrow> if starts_with k UNIT_PREFIX then [(drop (length UNIT_PREFIX) k, q)] else [])
     \<longleftrightarrow> q = p \<and> pt_key p = Some (unitKey i)" for q
    using starts_with_unit unitKey_drop by (cases "pt_key q") auto
  have "(i, p) \<in> set (concat (map f ps)) \<longleftrightarrow> (\<exists>q\<in>set ps. (i, p) \<in> set (f q))"
    for f :: "participant \<Rightarrow> (string \<times> participant) list" by auto
  then show ?thesis unfolding minePairs_def by (simp only: one) blast
qed

lemma mine_ok_toMap:
  assumes "\<forall>k p. p \<in> set ps \<and> pt_key p = Some k \<longleftrightarrow> reg x k = Some (p, Some rt)"
  shows "mine_ok reg rt x (toMap (minePairs ps))"
proof -
  have mem: "(i, p) \<in> set (minePairs ps) \<longleftrightarrow> reg x (unitKey i) = Some (p, Some rt)" for i p
    by (simp add: minePairs_mem assms)
  have "dget (toMap (minePairs ps)) i = Some p \<longleftrightarrow> (i, p) \<in> set (minePairs ps)" for i p
    by (rule dget_toMap) (simp add: mem)
  then show ?thesis by (simp add: mine_ok_def dir_wf_toMap mem)
qed

subsection \<open>The two loops\<close>

lemma syncUnit_ok:
  assumes ok: "cynapse_ok C reg" and alive: "a_status a \<noteq> Exited"
    and own: "own_row (reg (ext w) (unitKey (a_id a))) (Some rt)"
    and m: "\<And>p. dget mine (a_id a) = Some p \<longleftrightarrow> reg (ext w) (unitKey (a_id a)) = Some (p, Some rt)"
  shows "\<exists>acc' x'. syncUnit C rt mine a acc w = (Inr acc', w\<lparr>ext := x'\<rparr>) \<and> settled reg rt x' a \<and>
    (\<forall>k. k \<noteq> unitKey (a_id a) \<longrightarrow> reg x' k = reg (ext w) k) \<and>
    (settled reg rt (ext w) a \<longrightarrow> acc' = acc \<and> x' = ext w)"
proof -
  let ?k = "unitKey (a_id a)"
  obtain p acc1 x1 where p: "(if (case dget mine (a_id a) of None \<Rightarrow> True | Some p \<Rightarrow> pt_status p = PRetired)
         then andThen (extEff (cy_register C ?k ''agent'' (a_handle a) (Some rt))) (\<lambda>p.
              ret (p, acc\<lparr>sr_registered := sr_registered acc @ [a_id a]\<rparr>))
         else ret (the (dget mine (a_id a)), acc)) w = (Inr (p, acc1), w\<lparr>ext := x1\<rparr>)"
      "reg x1 ?k = Some (p, Some rt)" "pt_status p = PLive" "\<forall>k. k \<noteq> ?k \<longrightarrow> reg x1 k = reg (ext w) k"
      "settled reg rt (ext w) a \<longrightarrow> acc1 = acc \<and> x1 = ext w \<and> pt_name p = a_handle a"
  proof (cases "\<exists>p. dget mine (a_id a) = Some p \<and> pt_status p = PLive")
    case True
    then obtain p where d: "dget mine (a_id a) = Some p" "pt_status p = PLive" by blast
    then have "reg (ext w) ?k = Some (p, Some rt)" using m by blast
    with d show thesis by (intro that [of p acc "ext w"]) (auto simp: ret_def settled_def)
  next
    case False
    obtain p x1 where r: "cy_register C ?k ''agent'' (a_handle a) (Some rt) (ext w) = (Inr p, x1)"
      "pt_status p = PLive" "reg x1 = (reg (ext w))(?k \<mapsto> (p, Some rt))"
      by (rule cy_register_ok [OF ok own, where kd = "''agent''" and nm = "a_handle a"]) blast
    have c: "case dget mine (a_id a) of None \<Rightarrow> True | Some p \<Rightarrow> pt_status p = PRetired"
      using False by (auto split: option.split) (metis participant_status.exhaust)
    show thesis using c r False m
      by (intro that [of p "acc\<lparr>sr_registered := sr_registered acc @ [a_id a]\<rparr>" x1])
        (auto simp: eff_simps andThen_def settled_def)
  qed
  show ?thesis
  proof (cases "pt_name p = a_handle a")
    case True
    with p alive show ?thesis
      by (intro exI [of _ acc1] exI [of _ x1]) (auto simp: syncUnit_def andThen_def ret_def settled_def)
  next
    case False
    obtain x2 where n: "cy_rename C (pt_id p) (a_handle a) rt x1 = (Inr (), x2)"
      "reg x2 = (reg x1)(?k \<mapsto> (p\<lparr>pt_name := a_handle a\<rparr>, Some rt))"
      by (rule changes_okE [OF cy_changes_ok(1) [OF ok] p(2)])
    from False p n alive show ?thesis
      by (intro exI [of _ "acc1\<lparr>sr_renamed := sr_renamed acc1 @ [a_id a]\<rparr>"] exI [of _ x2])
        (auto simp: syncUnit_def andThen_def eff_simps settled_def)
  qed
qed

definition alive :: "agent list \<Rightarrow> agent list" where
  "alive as = filter (\<lambda>a. a_status a \<noteq> Exited) as"

lemma alive_simps [simp]:
  "alive [] = []" "a_status a = Exited \<Longrightarrow> alive (a # as) = alive as"
  "a_status a \<noteq> Exited \<Longrightarrow> alive (a # as) = a # alive as"
  by (simp_all add: alive_def)

lemma set_alive: "set (alive as) = {a \<in> set as. a_status a \<noteq> Exited}"
  by (simp add: alive_def)

lemma syncUnits_loop:
  assumes ok: "cynapse_ok C reg"
  shows "distinct (map a_id as) \<Longrightarrow>
    (\<forall>a\<in>set as. own_row (reg (ext w) (unitKey (a_id a))) (Some rt)) \<Longrightarrow>
    (\<forall>a\<in>set as. \<forall>p. dget mine (a_id a) = Some p \<longleftrightarrow> reg (ext w) (unitKey (a_id a)) = Some (p, Some rt)) \<Longrightarrow>
    \<exists>acc' x'. foldE (syncUnit C rt mine) as acc w = (Inr acc', w\<lparr>ext := x'\<rparr>) \<and>
      (\<forall>a\<in>set (alive as). settled reg rt x' a) \<and>
      (\<forall>k. k \<notin> unitKey ` a_id ` set (alive as) \<longrightarrow> reg x' k = reg (ext w) k) \<and>
      ((\<forall>a\<in>set (alive as). settled reg rt (ext w) a) \<longrightarrow> acc' = acc \<and> x' = ext w)"
proof (induction as arbitrary: acc w)
  case Nil
  then show ?case by (intro exI [of _ acc] exI [of _ "ext w"]) (simp add: ret_def)
next
  case (Cons a as)
  show ?case
  proof (cases "a_status a = Exited")
    case True
    then have "syncUnit C rt mine a acc w = (Inr acc, w)" by (simp add: syncUnit_def ret_def)
    with Cons True show ?thesis by (simp add: andThen_def)
  next
    case False
    obtain acc1 x1 where one: "syncUnit C rt mine a acc w = (Inr acc1, w\<lparr>ext := x1\<rparr>)" "settled reg rt x1 a"
      "\<forall>k. k \<noteq> unitKey (a_id a) \<longrightarrow> reg x1 k = reg (ext w) k"
      "settled reg rt (ext w) a \<longrightarrow> acc1 = acc \<and> x1 = ext w"
      using syncUnit_ok [OF ok False, of w rt mine acc] Cons.prems by auto
    have new: "a_id a \<notin> a_id ` set as" using Cons.prems(1) by simp
    have same: "reg x1 (unitKey (a_id b)) = reg (ext w) (unitKey (a_id b))" if "b \<in> set as" for b
      using one(3) that new by (metis image_eqI unitKey_inject)
    let ?w = "w\<lparr>ext := x1\<rparr>"
    have "\<exists>acc' x'. foldE (syncUnit C rt mine) as acc1 ?w = (Inr acc', ?w\<lparr>ext := x'\<rparr>) \<and>
      (\<forall>a\<in>set (alive as). settled reg rt x' a) \<and>
      (\<forall>k. k \<notin> unitKey ` a_id ` set (alive as) \<longrightarrow> reg x' k = reg (ext ?w) k) \<and>
      ((\<forall>a\<in>set (alive as). settled reg rt (ext ?w) a) \<longrightarrow> acc' = acc1 \<and> x' = ext ?w)"
      using Cons.prems same by (intro Cons.IH) auto
    then obtain acc2 x2 where rest: "foldE (syncUnit C rt mine) as acc1 ?w = (Inr acc2, w\<lparr>ext := x2\<rparr>)"
      "\<forall>a\<in>set (alive as). settled reg rt x2 a"
      "\<forall>k. k \<notin> unitKey ` a_id ` set (alive as) \<longrightarrow> reg x2 k = reg x1 k"
      "(\<forall>a\<in>set (alive as). settled reg rt x1 a) \<longrightarrow> acc2 = acc1 \<and> x2 = x1" by auto
    have "reg x2 (unitKey (a_id a)) = reg x1 (unitKey (a_id a))"
      using new by (intro rest(3) [rule_format]) (auto simp: set_alive)
    then have "settled reg rt x2 a" using one(2) by (simp add: settled_def)
    moreover have "reg x2 k = reg (ext w) k" if "k \<notin> unitKey ` a_id ` set (alive (a # as))" for k
      using that False rest(3) one(3) by simp
    moreover have "acc2 = acc \<and> x2 = ext w" if "\<forall>b\<in>set (alive (a # as)). settled reg rt (ext w) b"
      using that False one(4) rest(4) by simp
    ultimately show ?thesis using one(1) rest(1,2) False
      by (intro exI [of _ acc2] exI [of _ x2]) (simp add: andThen_def)
  qed
qed

definition retires :: "(string, agent) dir \<Rightarrow> string \<Rightarrow> participant \<Rightarrow> bool" where
  "retires units i p \<longleftrightarrow> pt_status p = PLive \<and>
     (case dget units i of None \<Rightarrow> True | Some rec \<Rightarrow> a_status rec = Exited)"

definition doomed :: "(string, agent) dir \<Rightarrow> (string, participant) dir \<Rightarrow> (string, participant) dir" where
  "doomed units es = filter (\<lambda>e. retires units (fst e) (snd e)) es"

lemma doomed_simps [simp]:
  "doomed units [] = []" "\<not> retires units (fst e) (snd e) \<Longrightarrow> doomed units (e # es) = doomed units es"
  "retires units (fst e) (snd e) \<Longrightarrow> doomed units (e # es) = e # doomed units es"
  by (simp_all add: doomed_def)

definition retired_row :: "(participant \<times> string option) option \<Rightarrow> (participant \<times> string option) option" where
  "retired_row row = map_option (\<lambda>(p, o'). (p\<lparr>pt_status := PRetired\<rparr>, o')) row"

lemma retire_loop:
  assumes ok: "cynapse_ok C reg"
  shows "dir_wf es \<Longrightarrow>
    (\<forall>e\<in>set (doomed units es). reg (ext w) (unitKey (fst e)) = Some (snd e, Some rt)) \<Longrightarrow>
    \<exists>acc' x'. foldE (retireOne C rt units) es acc w = (Inr acc', w\<lparr>ext := x'\<rparr>) \<and>
      (\<forall>k. reg x' k = (if k \<in> unitKey ` fst ` set (doomed units es) then retired_row (reg (ext w) k) else reg (ext w) k)) \<and>
      (doomed units es = [] \<longrightarrow> acc' = acc \<and> x' = ext w)"
proof (induction es arbitrary: acc w)
  case Nil
  then show ?case by (intro exI [of _ acc] exI [of _ "ext w"]) (simp add: ret_def)
next
  case (Cons e es)
  have fresh: "fst e \<notin> fst ` set es" "dir_wf es" using Cons.prems(1) by (auto simp: dir_wf_def)
  show ?case
  proof (cases "retires units (fst e) (snd e)")
    case False
    then have "retireOne C rt units e acc w = (Inr acc, w)"
      by (auto simp: retireOne_def retires_def ret_def split: option.splits prod.split)
    with Cons fresh False show ?thesis by (simp add: andThen_def)
  next
    case True
    have row: "reg (ext w) (unitKey (fst e)) = Some (snd e, Some rt)" using Cons.prems(2) True by simp
    obtain x1 where r: "cy_retire C (pt_id (snd e)) rt (ext w) = (Inr (), x1)"
      "reg x1 = (reg (ext w))(unitKey (fst e) \<mapsto> ((snd e)\<lparr>pt_status := PRetired\<rparr>, Some rt))"
      by (rule changes_okE [OF cy_changes_ok(2) [OF ok] row])
    let ?a = "acc\<lparr>sr_retired := sr_retired acc @ [fst e]\<rparr>"
    let ?w = "w\<lparr>ext := x1\<rparr>"
    have one: "retireOne C rt units e acc w = (Inr ?a, ?w)"
      using True r(1) by (auto simp: retireOne_def retires_def andThen_def eff_simps split: option.splits prod.split)
    have new: "fst e \<notin> fst ` set (doomed units es)" using fresh(1) by (auto simp: doomed_def)
    then have "\<forall>d\<in>set (doomed units es). reg (ext ?w) (unitKey (fst d)) = Some (snd d, Some rt)"
      using Cons.prems(2) r(2) True by (auto simp: image_iff)
    from Cons.IH [OF fresh(2) this, of ?a] obtain acc2 x2 where
      "foldE (retireOne C rt units) es ?a ?w = (Inr acc2, ?w\<lparr>ext := x2\<rparr>)"
      "\<forall>k. reg x2 k = (if k \<in> unitKey ` fst ` set (doomed units es) then retired_row (reg (ext ?w) k)
        else reg (ext ?w) k)" by (elim exE conjE)
    then have two: "foldE (retireOne C rt units) es ?a ?w = (Inr acc2, w\<lparr>ext := x2\<rparr>)"
        "\<forall>k. reg x2 k = (if k \<in> unitKey ` fst ` set (doomed units es) then retired_row (reg x1 k) else reg x1 k)"
      by simp_all
    have "unitKey (fst e) \<notin> unitKey ` fst ` set (doomed units es)" using new by (metis imageE unitKey_inject)
    then have "reg x2 k = (if k \<in> unitKey ` fst ` set (doomed units (e # es))
         then retired_row (reg (ext w) k) else reg (ext w) k)" for k
    proof (cases "k = unitKey (fst e)")
      case True
      with \<open>unitKey (fst e) \<notin> _\<close> have "reg x2 k = reg x1 k" using two(2) by simp
      with True \<open>retires units (fst e) (snd e)\<close> row r(2) show ?thesis by (simp add: retired_row_def)
    next
      case False
      then have "reg x1 k = reg (ext w) k" using r(2) by simp
      with False \<open>retires units (fst e) (snd e)\<close> two(2) show ?thesis by simp
    qed
    moreover have "foldE (retireOne C rt units) (e # es) acc w = (Inr acc2, w\<lparr>ext := x2\<rparr>)"
      using one two(1) by (simp add: andThen_def)
    moreover have "doomed units (e # es) \<noteq> []" using True by simp
    ultimately show ?thesis by blast
  qed
qed

subsection \<open>A sync converges\<close>

lemma units_map:
  assumes "distinct (map a_id agents)"
  shows "toMap (map (\<lambda>a. (a_id a, a)) (filter isUnit agents)) = map (\<lambda>a. (a_id a, a)) (filter isUnit agents)"
    "dget (map (\<lambda>a. (a_id a, a)) (filter isUnit agents)) i = Some a \<longleftrightarrow> a \<in> set agents \<and> isUnit a \<and> a_id a = i"
proof -
  have d: "distinct (map a_id (filter isUnit agents))" using assms by (rule distinct_map_filter)
  then show "toMap (map (\<lambda>a. (a_id a, a)) (filter isUnit agents)) = map (\<lambda>a. (a_id a, a)) (filter isUnit agents)"
    by (intro toMap_distinct) (simp add: comp_def)
  have "dir_wf (map (\<lambda>a. (a_id a, a)) (filter isUnit agents))" using d by (simp add: dir_wf_def comp_def)
  then show "dget (map (\<lambda>a. (a_id a, a)) (filter isUnit agents)) i = Some a \<longleftrightarrow> a \<in> set agents \<and> isUnit a \<and> a_id a = i"
    by (auto simp: dget_in_set_iff)
qed

text \<open>
  Of cynapse's state the sync needs only that this hub's own key, and the keys of its units, were not
  registered by someone else.
\<close>

definition hub_registry :: "'x host \<Rightarrow> 'x registry \<Rightarrow> string \<Rightarrow> agent list \<Rightarrow> 'x \<Rightarrow> bool" where
  "hub_registry H reg root agents x \<longleftrightarrow> own_row (reg x (runtimeKey H root)) None \<and>
     (\<forall>a\<in>set agents. \<forall>p o'. reg x (unitKey (a_id a)) = Some (p, o') \<longrightarrow>
        (\<exists>me. reg x (runtimeKey H root) = Some (me, None) \<and> o' = Some (pt_id me)))"

definition in_sync :: "'x host \<Rightarrow> 'x registry \<Rightarrow> string \<Rightarrow> agent list \<Rightarrow> 'x \<Rightarrow> bool" where
  "in_sync H reg root agents x \<longleftrightarrow> (\<exists>me. reg x (runtimeKey H root) = Some (me, None) \<and> pt_status me = PLive \<and>
     roster reg (pt_id me) x = running agents)"

definition nothing_done :: sync_result where
  "nothing_done = \<lparr>sr_registered = [], sr_retired = [], sr_renamed = []\<rparr>"

lemma roster_iff: "(i, n) \<in> roster reg rt x \<longleftrightarrow>
    (\<exists>p. reg x (unitKey i) = Some (p, Some rt) \<and> pt_status p = PLive \<and> pt_name p = n)"
  by (auto simp: roster_def)

lemma running_iff: "(i, n) \<in> running agents \<longleftrightarrow>
    (\<exists>a\<in>set (alive (filter isUnit agents)). a_id a = i \<and> a_handle a = n)"
  by (auto simp: running_def set_alive)

lemma settled_roster: "settled reg rt x a \<longleftrightarrow> (a_id a, a_handle a) \<in> roster reg rt x"
  by (auto simp: settled_def roster_iff)

lemma loops_roster:
  assumes m: "mine_ok reg rt x1 mine" and d: "distinct (map a_id agents)"
    and units: "units = map (\<lambda>a. (a_id a, a)) (filter isUnit agents)"
    and s: "\<forall>a\<in>set (alive (filter isUnit agents)). settled reg rt x2 a"
    and same: "\<forall>k. k \<notin> unitKey ` a_id ` set (alive (filter isUnit agents)) \<longrightarrow> reg x2 k = reg x1 k"
    and ret: "\<forall>k. reg x3 k = (if k \<in> unitKey ` fst ` set (doomed units mine) then retired_row (reg x2 k) else reg x2 k)"
  shows "roster reg rt x3 = running agents"
proof -
  let ?alive = "alive (filter isUnit agents)"
  have dg: "dget units j = Some a \<longleftrightarrow> a \<in> set agents \<and> isUnit a \<and> a_id a = j" for j a
    using units_map(2) [OF d] by (simp add: units)
  have in_mine: "(j, p) \<in> set mine \<longleftrightarrow> reg x1 (unitKey j) = Some (p, Some rt)" for j p
    using m by (simp add: mine_ok_def flip: dget_in_set_iff)
  have keep: "unitKey j \<notin> unitKey ` fst ` set (doomed units mine)" if a: "a \<in> set ?alive" "a_id a = j" for a j
  proof -
    have "dget units j = Some a" "a_status a \<noteq> Exited" using a dg by (auto simp: set_alive)
    then have "\<not> retires units j p" for p by (simp add: retires_def)
    then show ?thesis by (auto simp: doomed_def)
  qed
  have "(j, n) \<in> roster reg rt x3 \<longleftrightarrow> (j, n) \<in> running agents" for j n
  proof (cases "\<exists>a\<in>set ?alive. a_id a = j")
    case True
    then obtain a where a: "a \<in> set ?alive" "a_id a = j" by blast
    have "reg x3 (unitKey j) = reg x2 (unitKey j)" using ret keep [OF a] by simp
    then have r: "(j, n) \<in> roster reg rt x3 \<longleftrightarrow> n = a_handle a"
      using s a by (auto simp: roster_iff settled_def)
    have "b = a" if "b \<in> set ?alive" "a_id b = j" for b
    proof -
      have "b \<in> set agents" "a \<in> set agents" "a_id b = a_id a" using that a by (simp_all add: set_alive)
      with d show "b = a" unfolding distinct_map by (meson inj_onD)
    qed
    then have "(j, n) \<in> running agents \<longleftrightarrow> n = a_handle a" using a unfolding running_iff by blast
    with r show ?thesis by simp
  next
    case False
    then have "unitKey j \<notin> unitKey ` a_id ` set ?alive" by auto
    then have x2: "reg x2 (unitKey j) = reg x1 (unitKey j)" using same by simp
    have none: "\<not> (reg x3 (unitKey j) = Some (p, Some rt) \<and> pt_status p = PLive)" for p
    proof
      assume c: "reg x3 (unitKey j) = Some (p, Some rt) \<and> pt_status p = PLive"
      then have nd: "unitKey j \<notin> unitKey ` fst ` set (doomed units mine)"
        using ret by (auto simp: retired_row_def split: if_splits)
      then have row: "reg x1 (unitKey j) = Some (p, Some rt)" using c ret x2 by simp
      have "retires units j p" using c False dg
        by (auto simp: retires_def set_alive split: option.split)
      then have "(j, p) \<in> set (doomed units mine)" using in_mine row by (simp add: doomed_def)
      with nd show False by (force simp: image_iff)
    qed
    have "(j, n) \<notin> roster reg rt x3" unfolding roster_iff using none by blast
    moreover have "(j, n) \<notin> running agents" using False by (auto simp: running_iff)
    ultimately show ?thesis by simp
  qed
  then show ?thesis by auto
qed

lemma sync_run:
  assumes ok: "cynapse_ok C reg" and wf: "hub_wf (hub w)" and as: "listAgents (hub w) = Inr agents"
    and reg: "hub_registry H reg (h_root (hub w)) agents (ext w)"
  shows "\<exists>r x'. syncParticipants H C w = (Inr r, w\<lparr>ext := x'\<rparr>) \<and>
    in_sync H reg (h_root (hub w)) agents x' \<and> hub_registry H reg (h_root (hub w)) agents x' \<and>
    (in_sync H reg (h_root (hub w)) agents (ext w) \<longrightarrow> r = nothing_done \<and> reg x' = reg (ext w))"
proof -
  let ?rk = "runtimeKey H (h_root (hub w))" and ?x = "ext w"
  have d: "distinct (map a_id agents)" using listAgents_wf [OF wf] as by (metis sum.inject(2))
  obtain me x1 where me: "cy_register C ?rk ''service'' ''cyberlegion'' None ?x = (Inr me, x1)"
    "pt_status me = PLive" "reg x1 = (reg ?x)(?rk \<mapsto> (me, None))"
    "\<forall>q o'. reg ?x ?rk = Some (q, o') \<longrightarrow> pt_id me = pt_id q \<and> (pt_status q = PLive \<longrightarrow> me = q)"
    by (rule cy_register_ok [OF ok, of ?x ?rk None]) (use reg in \<open>simp add: hub_registry_def\<close>)
  let ?rt = "pt_id me"
  obtain ps where ps: "cy_participants C ?rt x1 = Inr ps"
    "\<forall>k p. p \<in> set ps \<and> pt_key p = Some k \<longleftrightarrow> reg x1 k = Some (p, Some ?rt)"
    by (rule cy_participants_ok [OF ok])
  let ?mine = "toMap (minePairs ps)" and ?us = "filter isUnit agents"
  let ?units = "map (\<lambda>a. (a_id a, a)) ?us"
  have m: "mine_ok reg ?rt x1 ?mine" by (rule mine_ok_toMap) (rule ps(2))
  have row1: "reg x1 (unitKey i) = reg ?x (unitKey i)" for i using me(3) by simp
  have own1: "own_row (reg x1 (unitKey (a_id a))) (Some ?rt)" if "a \<in> set agents" for a
    using that reg me(4) row1 by (fastforce simp: hub_registry_def own_row_def)
  let ?w1 = "w\<lparr>ext := x1\<rparr>"
  have "\<exists>acc' x'. foldE (syncUnit C ?rt ?mine) ?us nothing_done ?w1 = (Inr acc', ?w1\<lparr>ext := x'\<rparr>) \<and>
      (\<forall>a\<in>set (alive ?us). settled reg ?rt x' a) \<and>
      (\<forall>k. k \<notin> unitKey ` a_id ` set (alive ?us) \<longrightarrow> reg x' k = reg (ext ?w1) k) \<and>
      ((\<forall>a\<in>set (alive ?us). settled reg ?rt (ext ?w1) a) \<longrightarrow> acc' = nothing_done \<and> x' = ext ?w1)"
    using d own1 m by (intro syncUnits_loop [OF ok]) (auto simp: distinct_map_filter mine_ok_def)
  then obtain acc2 x2 where two: "foldE (syncUnit C ?rt ?mine) ?us nothing_done ?w1 = (Inr acc2, w\<lparr>ext := x2\<rparr>)"
      "\<forall>a\<in>set (alive ?us). settled reg ?rt x2 a"
      "\<forall>k. k \<notin> unitKey ` a_id ` set (alive ?us) \<longrightarrow> reg x2 k = reg x1 k"
      "(\<forall>a\<in>set (alive ?us). settled reg ?rt x1 a) \<longrightarrow> acc2 = nothing_done \<and> x2 = x1" by auto
  let ?w2 = "w\<lparr>ext := x2\<rparr>"
  have in_mine: "(j, p) \<in> set ?mine \<longleftrightarrow> reg x1 (unitKey j) = Some (p, Some ?rt)" for j p
    using m by (simp add: mine_ok_def flip: dget_in_set_iff)
  have dead: "unitKey j \<notin> unitKey ` a_id ` set (alive ?us)" if "retires ?units j p" for j p
  proof
    assume "unitKey j \<in> unitKey ` a_id ` set (alive ?us)"
    then obtain a where a: "a \<in> set (alive ?us)" "a_id a = j" by auto
    then have "dget ?units j = Some a" using units_map(2) [OF d, of j a] by (simp add: set_alive)
    with a that show False by (simp add: retires_def set_alive)
  qed
  have pre: "\<forall>e\<in>set (doomed ?units ?mine). reg (ext ?w2) (unitKey (fst e)) = Some (snd e, Some ?rt)"
  proof
    fix e assume e: "e \<in> set (doomed ?units ?mine)"
    then have r: "retires ?units (fst e) (snd e)" and i: "(fst e, snd e) \<in> set ?mine" by (simp_all add: doomed_def)
    from two(3) dead [OF r] iffD1 [OF in_mine i]
    show "reg (ext ?w2) (unitKey (fst e)) = Some (snd e, Some ?rt)" by simp
  qed
  obtain acc3 x3 where three: "foldE (retireOne C ?rt ?units) ?mine acc2 ?w2 = (Inr acc3, ?w2\<lparr>ext := x3\<rparr>)"
      "\<forall>k. reg x3 k = (if k \<in> unitKey ` fst ` set (doomed ?units ?mine) then retired_row (reg (ext ?w2) k) else reg (ext ?w2) k)"
      "doomed ?units ?mine = [] \<longrightarrow> acc3 = acc2 \<and> x3 = ext ?w2"
    using retire_loop [OF ok dir_wf_toMap pre, of acc2] by (elim exE conjE)
  have run: "syncParticipants H C w = (Inr acc3, w\<lparr>ext := x3\<rparr>)"
    using me(1) ps(1) as units_map(1) [OF d] two(1) three(1)
    by (simp add: syncParticipants_def andThen_def eff_simps Let_def comp_def nothing_done_def)
  have ros: "roster reg ?rt x3 = running agents"
    by (rule loops_roster [OF m d refl two(2) two(3)]) (use three(2) in simp)
  have "?rk \<notin> unitKey ` S" for S by auto
  then have rt3: "reg x3 ?rk = Some (me, None)" using three(2) two(3) me(3) by simp
  have "own_row (reg x3 (unitKey (a_id a))) (Some ?rt)" if a: "a \<in> set agents" for a
  proof -
    have "own_row (reg x2 (unitKey (a_id a))) (Some ?rt)"
    proof (cases "unitKey (a_id a) \<in> unitKey ` a_id ` set (alive ?us)")
      case True
      then obtain b where "b \<in> set (alive ?us)" "a_id b = a_id a" by auto
      with two(2) show ?thesis by (force simp: settled_def own_row_def)
    qed (use two(3) own1 [OF a] in simp)
    then show ?thesis using three(2) by (auto simp: own_row_def retired_row_def)
  qed
  then have "hub_registry H reg (h_root (hub w)) agents x3"
    using rt3 by (auto simp: hub_registry_def own_row_def)
  moreover have "in_sync H reg (h_root (hub w)) agents x3" using rt3 me(2) ros by (auto simp: in_sync_def)
  moreover have "acc3 = nothing_done \<and> reg x3 = reg ?x" if s: "in_sync H reg (h_root (hub w)) agents ?x"
  proof -
    obtain q where q: "reg ?x ?rk = Some (q, None)" "pt_status q = PLive" "roster reg (pt_id q) ?x = running agents"
      using s by (auto simp: in_sync_def)
    then have "me = q" using me(4) by blast
    then have same: "reg x1 = reg ?x" and r1: "roster reg ?rt x1 = running agents"
      using q me(3) by (auto simp: roster_def)
    have "settled reg ?rt x1 a" if "a \<in> set (alive ?us)" for a
      using that r1 by (auto simp: settled_roster running_iff)
    then have two': "acc2 = nothing_done" "x2 = x1" using two(4) by blast+
    have "\<not> retires ?units i p" if "(i, p) \<in> set ?mine" for i p
    proof
      assume r: "retires ?units i p"
      then have "(i, pt_name p) \<in> roster reg ?rt x1" using in_mine that by (simp add: roster_iff retires_def)
      then show False using r1 dead [OF r] by (auto simp: running_iff)
    qed
    then have "doomed ?units ?mine = []" by (auto simp: doomed_def filter_empty_conv)
    with two' three(3) same show ?thesis by simp
  qed
  ultimately show ?thesis using run by blast
qed

text \<open>
  C37. A sync converges. Whatever cynapse held for this hub, a sync succeeds, touches no file of the
  hub, and leaves cynapse's roster of this hub's live units equal to the units the hub runs, by id
  and handle: none missing, none stale, none under an old name. A sync of a roster that already
  agrees registers, renames and retires nothing.
\<close>
theorem sync_converges:
  assumes "cynapse_ok C reg" "hub_wf (hub w)" "listAgents (hub w) = Inr agents"
    "hub_registry H reg (h_root (hub w)) agents (ext w)"
  shows "\<exists>r w' r' w''. syncParticipants H C w = (Inr r, w') \<and> hub w' = hub w \<and>
    in_sync H reg (h_root (hub w)) agents (ext w') \<and>
    syncParticipants H C w' = (Inr r', w'') \<and> r' = nothing_done \<and> reg (ext w'') = reg (ext w')"
proof -
  obtain r x' where 1: "syncParticipants H C w = (Inr r, w\<lparr>ext := x'\<rparr>)"
    "in_sync H reg (h_root (hub w)) agents x'" "hub_registry H reg (h_root (hub w)) agents x'"
    using sync_run [OF assms] by blast
  have "\<exists>r'' x''. syncParticipants H C (w\<lparr>ext := x'\<rparr>) = (Inr r'', (w\<lparr>ext := x'\<rparr>)\<lparr>ext := x''\<rparr>) \<and>
      r'' = nothing_done \<and> reg x'' = reg x'"
    using sync_run [of C reg "w\<lparr>ext := x'\<rparr>" agents H] assms 1 by auto
  then obtain r'' x'' where "syncParticipants H C (w\<lparr>ext := x'\<rparr>) = (Inr r'', w\<lparr>ext := x''\<rparr>)"
    "r'' = nothing_done" "reg x'' = reg x'" by auto
  with 1 show ?thesis by (intro exI [of _ r] exI [of _ "w\<lparr>ext := x'\<rparr>"] exI [of _ r''] exI [of _ "w\<lparr>ext := x''\<rparr>"]) simp
qed

subsection \<open>A concrete cynapse\<close>

text \<open>Participants by key; a participant's id is its key.\<close>

type_synonym cyn_state = "(string, participant \<times> string option) dir"

definition table_reg :: "cyn_state registry" where
  "table_reg x k = map_option (\<lambda>(p, o'). (p\<lparr>pt_id := k, pt_key := Some k\<rparr>, o')) (dget x k)"

definition table_set :: "(participant \<Rightarrow> participant) \<Rightarrow> string \<Rightarrow> (error, cyn_state, unit) eff" where
  "table_set f k x = (case dget x k of
       None \<Rightarrow> (Inl (HostError k), x)
     | Some (p, o') \<Rightarrow> (Inr (), dput k (f p, o') x))"

definition table_cynapse :: "cyn_state cynapse" where
  "table_cynapse = \<lparr>
     cy_register = (\<lambda>k kd nm by x.
       let p = (case table_reg x k of
           Some (q, o') \<Rightarrow> q\<lparr>pt_status := PLive\<rparr>
         | None \<Rightarrow> \<lparr>pt_id = k, pt_key = Some k, pt_name = nm, pt_status = PLive\<rparr>)
       in (Inr p, dput k (p, by) x)),
     cy_participants = (\<lambda>rt x. Inr (concat (map (\<lambda>k. case table_reg x k of
         Some (p, Some r) \<Rightarrow> if r = rt then [p] else []
       | _ \<Rightarrow> []) (map fst x)))),
     cy_rename = (\<lambda>i nm by. table_set (\<lambda>p. p\<lparr>pt_name := nm\<rparr>) i),
     cy_retire = (\<lambda>i by. table_set (\<lambda>p. p\<lparr>pt_status := PRetired\<rparr>) i),
     cy_channel = (\<lambda>s x. Inr None),
     cy_close = ret ()\<rparr>"

lemma table_reg_dput: "table_reg (dput k (p, o') x) = (table_reg x)(k \<mapsto> (p\<lparr>pt_id := k, pt_key := Some k\<rparr>, o'))"
  by (auto simp: table_reg_def dget_dput)

lemma table_reg_Some:
  "table_reg x k = Some (p, o') \<Longrightarrow> pt_id p = k \<and> pt_key p = Some k \<and> p\<lparr>pt_id := k, pt_key := Some k\<rparr> = p"
  by (auto simp: table_reg_def)

lemma table_changes_ok:
  assumes "\<And>p k. f (p\<lparr>pt_id := k, pt_key := Some k\<rparr>) = (f p)\<lparr>pt_id := k, pt_key := Some k\<rparr>"
  shows "changes_ok (table_set f) f table_reg"
  unfolding changes_ok_def
proof (intro allI impI)
  fix x k p o'
  assume r: "table_reg x k = Some (p, o')"
  then obtain q where q: "dget x k = Some (q, o')" "p = q\<lparr>pt_id := k, pt_key := Some k\<rparr>" by (auto simp: table_reg_def)
  have "table_set f (pt_id p) x = (Inr (), dput k (f q, o') x)" using q by (simp add: table_set_def)
  then show "\<exists>x'. table_set f (pt_id p) x = (Inr (), x') \<and> table_reg x' = (table_reg x)(k \<mapsto> (f p, o'))"
    using q assms by (auto simp: table_reg_dput)
qed

lemma table_lists_ok: "lists_ok table_cynapse table_reg"
proof -
  have "p \<in> set (concat (map (\<lambda>k. case table_reg x k of Some (p, Some r) \<Rightarrow> if r = rt then [p] else [] | _ \<Rightarrow> [])
      (map fst x))) \<and> pt_key p = Some k \<longleftrightarrow> table_reg x k = Some (p, Some rt)" (is "?l \<longleftrightarrow> ?r") for x rt k p
  proof
    assume ?l
    then obtain j where "table_reg x j = Some (p, Some rt)" "pt_key p = Some k"
      by (auto split: option.splits if_splits)
    with table_reg_Some show ?r by fastforce
  next
    assume r: ?r
    then have "k \<in> set (map fst x)" by (auto simp: table_reg_def dest: dget_Some_in_set intro: rev_image_eqI)
    with r table_reg_Some [OF r] show ?l by force
  qed
  then show ?thesis by (simp add: lists_ok_def table_cynapse_def)
qed

lemma keyed_participant: "pt_id p = k \<Longrightarrow> pt_key p = Some k \<Longrightarrow> p\<lparr>pt_id := k, pt_key := Some k\<rparr> = p"
  by simp

lemma table_registers_ok: "registers_ok table_cynapse table_reg"
  unfolding registers_ok_def
proof (intro allI impI)
  fix x k kd nm "by"
  assume own: "own_row (table_reg x k) by"
  obtain p where run: "cy_register table_cynapse k kd nm by x = (Inr p, dput k (p, by) x)"
    and p: "pt_id p = k" "pt_key p = Some k" "pt_status p = PLive"
    and old: "\<forall>q o'. table_reg x k = Some (q, o') \<longrightarrow> pt_id p = pt_id q \<and> (pt_status q = PLive \<longrightarrow> p = q)"
  proof (cases "table_reg x k")
    case None
    then show thesis
      by (intro that [of "\<lparr>pt_id = k, pt_key = Some k, pt_name = nm, pt_status = PLive\<rparr>"])
        (simp_all add: table_cynapse_def Let_def)
  next
    case (Some row)
    obtain q o' where row: "row = (q, o')" by (cases row)
    have q: "pt_id q = k" "pt_key q = Some k" using table_reg_Some [of x k q o'] Some row by auto
    have "pt_status q = PLive \<Longrightarrow> q\<lparr>pt_status := PLive\<rparr> = q" by simp
    with Some row q show thesis
      by (intro that [of "q\<lparr>pt_status := PLive\<rparr>"]) (simp_all add: table_cynapse_def Let_def)
  qed
  have "table_reg (dput k (p, by) x) = (table_reg x)(k \<mapsto> (p, by))"
    by (simp add: table_reg_dput keyed_participant [OF p(1,2)])
  with run p old show "\<exists>p x'. cy_register table_cynapse k kd nm by x = (Inr p, x') \<and> pt_key p = Some k \<and> pt_status p = PLive \<and>
      table_reg x' = (table_reg x)(k \<mapsto> (p, by)) \<and>
      (\<forall>q o'. table_reg x k = Some (q, o') \<longrightarrow> pt_id p = pt_id q \<and> (pt_status q = PLive \<longrightarrow> p = q))"
    by blast
qed

lemma table_cynapse_ok: "cynapse_ok table_cynapse table_reg"
  using table_lists_ok table_registers_ok
  by (auto simp: cynapse_ok_def table_cynapse_def intro!: table_changes_ok)

definition table_host :: "cyn_state host" where
  "table_host = quiet_host"

text \<open>The hub runs unit \<open>a\<close>; cynapse still has a unit of this hub that is gone.\<close>

definition hub_key :: string where
  "hub_key = runtimeKey table_host ''/hub''"

definition stale_table :: cyn_state where
  "stale_table =
     [(hub_key, (\<lparr>pt_id = hub_key, pt_key = Some hub_key, pt_name = ''cyberlegion'', pt_status = PLive\<rparr>, None)),
      (unitKey ''gone'', (\<lparr>pt_id = unitKey ''gone'', pt_key = Some (unitKey ''gone''), pt_name = ''x'', pt_status = PLive\<rparr>,
        Some hub_key))]"

theorem sync_converges_witness:
  "\<exists>r w' r' w''. syncParticipants table_host table_cynapse \<lparr>hub = hub1, ext = stale_table\<rparr> = (Inr r, w') \<and>
     in_sync table_host table_reg ''/hub'' [demo_agent ''a''] (ext w') \<and>
     syncParticipants table_host table_cynapse w' = (Inr r', w'') \<and> r' = nothing_done"
proof -
  let ?w = "\<lparr>hub = hub1, ext = stale_table\<rparr>"
  have l: "listAgents (hub ?w) = Inr [demo_agent ''a'']"
    by (simp add: listAgents_def readAll_def hub1_def is_json_a agentsDir_def)
  have root: "h_root hub1 = ''/hub''" by (simp add: hub1_def empty_hub_def)
  have "unitKey ''a'' \<noteq> hub_key" "unitKey ''gone'' \<noteq> hub_key" by (simp_all add: hub_key_def)
  then have "hub_registry table_host table_reg (h_root (hub ?w)) [demo_agent ''a''] (ext ?w)"
    by (simp add: hub_registry_def root own_row_def table_reg_def stale_table_def dget_Cons demo_agent_def
        flip: hub_key_def)
  from sync_converges [OF table_cynapse_ok _ l this] hub1_wf root show ?thesis by (simp, blast)
qed

end
