(* ===== verification/Admin.thy ===== *)
theory Admin
  imports FileStore
begin

text \<open>
  \<open>admin.ts\<close>: merging one hub's registry, mailboxes and briefs into another. The state of these
  operations is the destination hub; the source is only read.
\<close>

record migrate_result =
  mg_agents :: nat
  mg_messages :: nat
  mg_briefs :: nat

definition fileAll :: "string \<Rightarrow> message list \<Rightarrow> (error, hub, unit) eff" where
  "fileAll i ms = forEach ms (\<lambda>m. writes (putMessage i m))"

definition migrateOne :: "hub \<Rightarrow> agent \<Rightarrow> migrate_result \<Rightarrow> (error, hub, migrate_result) eff" where
  "migrateOne src rec acc =
     andThen (reads (getAgent (a_id rec))) (\<lambda>there.
     andThen (if there = None then writes (putAgent rec) else ret ()) (\<lambda>_.
     andThen (ofSum (listInbox (a_id rec) src)) (\<lambda>(un, rd).
     andThen (fileAll (a_id rec) (un @ rd)) (\<lambda>_.
     andThen (ofSum (readBrief (a_id rec) src)) (\<lambda>brief.
     andThen (case brief of None \<Rightarrow> ret () | Some t \<Rightarrow> writes (writeBrief (a_id rec) t)) (\<lambda>_.
     ret \<lparr>mg_agents = mg_agents acc + (if there = None then 1 else 0),
          mg_messages = mg_messages acc + length un + length rd,
          mg_briefs = mg_briefs acc + (if brief = None then 0 else 1)\<rparr>))))))"

definition migrateStore :: "hub \<Rightarrow> (error, hub, migrate_result) eff" where
  "migrateStore src =
     andThen (update ensureMarker) (\<lambda>_.
     andThen (ofSum (listAgents src)) (\<lambda>recs.
     foldE (migrateOne src) recs \<lparr>mg_agents = 0, mg_messages = 0, mg_briefs = 0\<rparr>))"

subsection \<open>What one record brings over\<close>

lemma fileAll_run:
  "safe_id i \<Longrightarrow> (\<forall>m\<in>set ms. safe_id (m_id m)) \<Longrightarrow> distinct (map m_id ms) \<Longrightarrow>
   \<exists>h'. fileAll i ms h = (Inr (), h') \<and> h_agents h' = h_agents h \<and> h_root h' = h_root h \<and>
     (hub_wf h \<longrightarrow> hub_wf h') \<and> (\<forall>j. j \<noteq> i \<longrightarrow> mailboxOf h' j = mailboxOf h j) \<and>
     mb_read (mailboxOf h' i) = mb_read (mailboxOf h i) \<and>
     filed (mb_unread (mailboxOf h' i)) =
       set ms \<union> {m \<in> filed (mb_unread (mailboxOf h i)). m_id m \<notin> m_id ` set ms}"
proof (induction ms arbitrary: h)
  case Nil
  then show ?case by (simp add: fileAll_def ret_def)
next
  case (Cons m ms)
  let ?b = "(mailboxOf h i)\<lparr>mb_unread := dput (m_id m @ json) (Json m) (mb_unread (mailboxOf h i))\<rparr>"
  let ?h1 = "putMailbox i ?b h"
  have p: "putMessage i m h = Inr ?h1" using Cons.prems by (simp add: putMessage_simp)
  obtain h' where h': "fileAll i ms ?h1 = (Inr (), h')" "h_agents h' = h_agents ?h1" "h_root h' = h_root ?h1"
     "hub_wf ?h1 \<longrightarrow> hub_wf h'" "\<forall>j. j \<noteq> i \<longrightarrow> mailboxOf h' j = mailboxOf ?h1 j"
     "mb_read (mailboxOf h' i) = mb_read (mailboxOf ?h1 i)"
     "filed (mb_unread (mailboxOf h' i)) =
       set ms \<union> {m \<in> filed (mb_unread (mailboxOf ?h1 i)). m_id m \<notin> m_id ` set ms}"
    using Cons.IH [of ?h1] Cons.prems by auto
  have run: "fileAll i (m # ms) h = (Inr (), h')" using p h'(1) by (simp add: fileAll_def andThen_writes)
  have "filed (mb_unread (mailboxOf h' i)) =
      set (m # ms) \<union> {x \<in> filed (mb_unread (mailboxOf h i)). m_id x \<notin> m_id ` set (m # ms)}"
    using Cons.prems by (auto simp: h'(7) filed_dput)
  moreover have "h_agents ?h1 = h_agents h" by (simp add: putMailbox_def)
  ultimately show ?case using run h' putMessage_wf [OF _ p] by (intro exI [of _ h']) simp
qed

text \<open>What a destination has for an id once the source's record, mail and brief are merged in.\<close>

definition merged :: "hub \<Rightarrow> hub \<Rightarrow> hub \<Rightarrow> string \<Rightarrow> bool" where
  "merged src h h' i \<longleftrightarrow>
     getAgent i h' = (if getAgent i h = Inr None then getAgent i src else getAgent i h) \<and>
     set (unreadOf i src) \<union> set (readOf i src) \<subseteq> set (unreadOf i h') \<and>
     m_id ` set (unreadOf i h') = m_id ` (set (unreadOf i h) \<union> set (unreadOf i src) \<union> set (readOf i src)) \<and>
     readOf i h' = readOf i h"

definition untouched :: "hub \<Rightarrow> hub \<Rightarrow> string \<Rightarrow> bool" where
  "untouched h h' i \<longleftrightarrow> getAgent i h' = getAgent i h \<and> mailboxOf h' i = mailboxOf h i \<and> h_root h' = h_root h"

lemma untouched_mail:
  assumes "untouched h h' i"
  shows "listInbox i h' = listInbox i h"
proof -
  have e: "mailboxOf h' i = mailboxOf h i" "h_root h' = h_root h" using assms by (simp_all add: untouched_def)
  show ?thesis unfolding listInbox_def e ..
qed

lemma untouched_refl [simp]: "untouched h h i"
  by (simp add: untouched_def)

lemma untouched_trans: "untouched a b i \<Longrightarrow> untouched b c i \<Longrightarrow> untouched a c i"
  by (simp add: untouched_def)

lemma merged_untouched:
  assumes "untouched h0 h i" "merged src h h1 i" "untouched h1 h' i"
  shows "merged src h0 h' i"
  using assms(2) assms(1,3) [THEN untouched_mail] assms(1,3)
  by (simp add: merged_def unreadOf_def readOf_def untouched_def)

lemma readOf_same:
  assumes "mb_read (mailboxOf h' i) = mb_read (mailboxOf h i)" "h_root h' = h_root h" "hub_wf h" "hub_wf h'" "safe_id i"
  shows "readOf i h' = readOf i h"
proof -
  obtain un r where 1: "listInbox i h = Inr (un, r)" by (rule listInbox_wf [OF assms(3,5)])
  obtain un' r' where 2: "listInbox i h' = Inr (un', r')" by (rule listInbox_wf [OF assms(4,5)])
  from 1 2 assms(1,2,5) show ?thesis by (auto simp: readOf_def listInbox_def path_defs split: sum.splits)
qed

lemma migrateOne_run:
  assumes src: "hub_wf src" "getAgent (a_id rec) src = Inr (Some rec)"
    and apart: "m_id ` set (unreadOf (a_id rec) src) \<inter> m_id ` set (readOf (a_id rec) src) = {}"
    and wf: "hub_wf h"
  shows "\<exists>acc' h'. migrateOne src rec acc h = (Inr acc', h') \<and> hub_wf h' \<and>
    merged src h h' (a_id rec) \<and> (\<forall>j. j \<noteq> a_id rec \<longrightarrow> untouched h h' j)"
proof -
  let ?i = "a_id rec"
  have i: "safe_id ?i" using getAgent_wf_id [OF src] by simp
  obtain un r where box: "listInbox ?i src = Inr (un, r)" "set un = filed (mb_unread (mailboxOf src ?i))"
    "set r = filed (mb_read (mailboxOf src ?i))" "distinct (map m_id un)" "distinct (map m_id r)"
    by (rule listInbox_wf [OF src(1) i])
  have ur: "unreadOf ?i src = un" "readOf ?i src = r" by (simp_all add: unreadOf_def readOf_def box(1))
  have "files_wf m_id (mb_unread (mailboxOf src ?i))" "files_wf m_id (mb_read (mailboxOf src ?i))"
    using hub_wf_mailbox [OF src(1)] by (simp_all add: mailbox_wf_def)
  then have safe: "\<forall>m\<in>set (un @ r). safe_id (m_id m)"
    using box(2,3) files_wf_get by (force simp: filed_def)
  have dist: "distinct (map m_id (un @ r))" using apart box(4,5) by (simp add: ur)
  obtain there where there: "getAgent ?i h = Inr there" using getAgent_wf_total [OF wf] by blast
  obtain h1 where h1: "(if there = None then writes (putAgent rec) else ret ()) h = (Inr (), h1)" "hub_wf h1"
    "getAgent ?i h1 = Inr (Some (defaultTo there rec))" "\<forall>j. j \<noteq> ?i \<longrightarrow> getAgent j h1 = getAgent j h"
    "h_inbox h1 = h_inbox h" "h_root h1 = h_root h"
  proof (cases there)
    case None
    let ?h1 = "h\<lparr>h_agents := dput (?i @ json) (Json rec) (h_agents h)\<rparr>"
    have "putAgent rec h = Inr ?h1" using i by (simp add: putAgent_simp)
    with None putAgent_wf [OF wf this] agent_store.get_put [OF this] show thesis
      by (intro that [of ?h1]) (simp_all add: writes_def)
  qed (use there wf in \<open>auto intro: that [of h] simp: ret_def\<close>)
  obtain h2 where h2: "fileAll ?i (un @ r) h1 = (Inr (), h2)" "h_agents h2 = h_agents h1" "h_root h2 = h_root h1"
     "hub_wf h1 \<longrightarrow> hub_wf h2" "\<forall>j. j \<noteq> ?i \<longrightarrow> mailboxOf h2 j = mailboxOf h1 j"
     "mb_read (mailboxOf h2 ?i) = mb_read (mailboxOf h1 ?i)"
     "filed (mb_unread (mailboxOf h2 ?i)) =
       set (un @ r) \<union> {m \<in> filed (mb_unread (mailboxOf h1 ?i)). m_id m \<notin> m_id ` set (un @ r)}"
    using fileAll_run [OF i safe dist, of h1] by (elim exE conjE)
  define brief where "brief = (if safe_id ?i then dd_brief (defaultTo (dget (h_data src) ?i) empty_data) else None)"
  have br: "readBrief ?i src = Inr brief" by (simp add: readBrief_simp brief_def)
  obtain h' where h': "(case brief of None \<Rightarrow> ret () | Some t \<Rightarrow> writes (writeBrief ?i t)) h2 = (Inr (), h')"
    "hub_wf h2 \<longrightarrow> hub_wf h'" "h_agents h' = h_agents h2" "h_inbox h' = h_inbox h2" "h_root h' = h_root h2"
  proof (cases brief)
    case (Some t)
    obtain h' where w: "writeBrief ?i t h2 = Inr h'" using i by (simp add: writeBrief_def path_defs)
    with Some writeBrief_wf [OF _ w] i show thesis
      by (intro that [of h']) (auto simp: writes_def writeBrief_def path_defs)
  qed (auto intro: that [of h2] simp: ret_def)
  obtain acc' where run: "migrateOne src rec acc h = (Inr acc', h')"
    using there h1(1) h2(1) h'(1) box(1) br by (simp add: migrateOne_def andThen_def eff_simps)
  have wf': "hub_wf h'" using h1(2) h2(4) h'(2) by simp
  have mb: "mailboxOf h' j = mailboxOf h2 j" "mailboxOf h1 j = mailboxOf h j" for j
    by (simp_all add: mailboxOf_def h'(4) h1(5))
  have ga: "getAgent j h' = getAgent j h1" for j by (simp add: getAgent_simp h'(3,5) h2(2,3))
  have "untouched h h' j" if "j \<noteq> ?i" for j
    using that ga mb h1(4,6) h2(3,5) h'(5) by (simp add: untouched_def)
  moreover have "merged src h h' ?i"
  proof -
    have u: "set (unreadOf ?i h') = set un \<union> set r \<union> {m \<in> set (unreadOf ?i h). m_id m \<notin> m_id ` (set un \<union> set r)}"
      using unreadOf_wf [OF wf' i] unreadOf_wf [OF wf i] h2(7) mb by simp
    have "readOf ?i h' = readOf ?i h"
      using readOf_same [OF _ _ wf wf' i] h2(3,6) h1(6) h'(5) mb by simp
    moreover have "getAgent ?i h' = (if getAgent ?i h = Inr None then getAgent ?i src else getAgent ?i h)"
      using ga h1(3) there src(2) by (cases there) auto
    ultimately show ?thesis unfolding merged_def ur u by (auto simp: image_iff)
  qed
  ultimately show ?thesis using run wf' by blast
qed

lemma migrate_loop:
  assumes src: "hub_wf src"
  shows "hub_wf h \<Longrightarrow> distinct (map a_id recs) \<Longrightarrow>
    (\<forall>a\<in>set recs. getAgent (a_id a) src = Inr (Some a) \<and>
       m_id ` set (unreadOf (a_id a) src) \<inter> m_id ` set (readOf (a_id a) src) = {}) \<Longrightarrow>
    \<exists>acc' h'. foldE (migrateOne src) recs acc h = (Inr acc', h') \<and> hub_wf h' \<and>
      (\<forall>a\<in>set recs. merged src h h' (a_id a)) \<and> (\<forall>j. j \<notin> a_id ` set recs \<longrightarrow> untouched h h' j)"
proof (induction recs arbitrary: acc h)
  case Nil
  then show ?case by (auto simp: ret_def)
next
  case (Cons a recs)
  obtain acc1 h1 where 1: "migrateOne src a acc h = (Inr acc1, h1)" "hub_wf h1" "merged src h h1 (a_id a)"
    "\<forall>j. j \<noteq> a_id a \<longrightarrow> untouched h h1 j"
    using migrateOne_run [OF src, of a h acc] Cons.prems by auto
  obtain acc2 h2 where 2: "foldE (migrateOne src) recs acc1 h1 = (Inr acc2, h2)" "hub_wf h2"
    "\<forall>a\<in>set recs. merged src h1 h2 (a_id a)" "\<forall>j. j \<notin> a_id ` set recs \<longrightarrow> untouched h1 h2 j"
    using Cons.IH [OF 1(2), of acc1] Cons.prems by auto
  have new: "a_id a \<notin> a_id ` set recs" using Cons.prems(2) by simp
  have "merged src h h2 (a_id b)" if "b \<in> set (a # recs)" for b
  proof (cases "b = a")
    case True
    with new 2(4) show ?thesis using merged_untouched [OF untouched_refl 1(3)] by simp
  next
    case False
    then have "b \<in> set recs" using that by simp
    moreover from this have "a_id b \<noteq> a_id a" using new by (metis imageI)
    ultimately have "b \<in> set recs" "a_id b \<noteq> a_id a" by blast+
    with 1(4) 2(3) show ?thesis using merged_untouched [OF _ _ untouched_refl] by blast
  qed
  moreover have "untouched h h2 j" if "j \<notin> a_id ` set (a # recs)" for j
    using that 1(4) 2(4) untouched_trans by auto
  ultimately show ?case using 1(1) 2(1,2) by (intro exI [of _ acc2] exI [of _ h2]) (simp add: andThen_def)
qed



end
