(* ===== verification/InjectInbox.thy ===== *)
theory InjectInbox
  imports Message
begin

text \<open>
  \<open>runtime/inject-inbox.ts\<close>: what a harness's session-start hook shows the session, its own unread
  mail and, in a root session, that of the standing owners. The payload is the event's name and the
  text.
\<close>

definition EVENTS :: "string list" where
  "EVENTS = [''SessionStart'']"

text \<open>An em dash between spaces, as UTF-8.\<close>

definition dash :: string where
  "dash = '' '' @ [CHR 0xE2, CHR 0x80, CHR 0x94] @ '' ''"

definition mailLine :: "inbox_item \<Rightarrow> string" where
  "mailLine it = (let m = fst it in
     ''- **'' @ m_fromHandle m @ ''**'' @ (case truthy (m_subject m) of None \<Rightarrow> [] | Some s \<Rightarrow> dash @ s) @
     '': '' @ m_body m @ '' `('' @ m_id m @ '')`'')"

definition mailPart :: "string \<Rightarrow> inbox_item list \<Rightarrow> string" where
  "mailPart title items =
     ''## '' @ title @ '' ('' @ nat_str (length items) @ '')'' @ nl @ nl @ join_with nl (map mailLine items)"

definition unreadQuery :: "string \<Rightarrow> inbox_query" where
  "unreadQuery i = \<lparr>iq_me = i, iq_unread = True, iq_from = None, iq_thread = None\<rparr>"

text \<open>The loop over the owners, in a \<open>try\<close>: an error ends it and keeps what it has collected.\<close>

fun ownerParts :: "agent list \<Rightarrow> hub \<Rightarrow> string list" where
  "ownerParts [] h = []"
| "ownerParts (owner # rest) h = (case inbox (unreadQuery (a_id owner)) h of
       Inl e \<Rightarrow> []
     | Inr [] \<Rightarrow> ownerParts rest h
     | Inr (it # its) \<Rightarrow> mailPart (''Owner mail'' @ dash @ a_handle owner) (it # its) # ownerParts rest h)"

definition ownerMail :: "'x host \<Rightarrow> hub \<Rightarrow> string list" where
  "ownerMail H h =
     (let bound = truthy (getMainPane h)
      in if bound = None \<or> map_option snd (currentPane H) = bound
         then (case listAgents h of
             Inl e \<Rightarrow> []
           | Inr agents \<Rightarrow> ownerParts (filter (\<lambda>a. a_kind a = Some StandingKind) agents) h)
         else [])"

text \<open>The caller's id: its own, or that of a registration made here when it sits in a pane.\<close>

definition hookSelf :: "'x host \<Rightarrow> ('x, string option) op" where
  "hookSelf H =
     andThen (hubGet (resolveSelfId H)) (\<lambda>me.
     case truthy me of Some i \<Rightarrow> ret (Some i)
     | None \<Rightarrow>
         if currentPane H = None then ret None
         else andThen (tryE (register H None None)) (\<lambda>r.
           case r of Inl e \<Rightarrow> ret None
           | Inr _ \<Rightarrow> andThen (hubGet (resolveSelfId H)) (\<lambda>me'. ret (truthy me'))))"

definition payload :: "'x host \<Rightarrow> string \<Rightarrow> hub \<Rightarrow> error + string list" where
  "payload H me h = (case getAgent me h of
       Inl e \<Rightarrow> Inl e
     | Inr rec \<Rightarrow> (case inbox (unreadQuery me) h of
         Inl e \<Rightarrow> Inl e
       | Inr unread \<Rightarrow> Inr (
           (if unread = [] then [] else [mailPart ''Unread mail'' unread]) @
           (case rec of
              None \<Rightarrow> []
            | Some r \<Rightarrow> if truthy (a_spawnedBy r) = None then ownerMail H h else []))))"

definition injectInbox :: "'x host \<Rightarrow> string \<Rightarrow> ('x, (string \<times> string) option) op" where
  "injectInbox H event =
     (if event \<notin> set EVENTS then throw (ConsoleE (UnsupportedEvent event))
      else andThen (hookSelf H) (\<lambda>me.
        case me of None \<Rightarrow> ret None
        | Some i \<Rightarrow> andThen (hubRead (payload H i)) (\<lambda>parts.
            ret (if parts = [] then None else Some (event, join_with (nl @ nl) parts)))))"

lemma wf_hookSelf [pres]: "wf_op (hookSelf H)"
  unfolding hookSelf_def by (intro pres)

lemma wf_injectInbox [pres]: "wf_op (injectInbox H event)"
  unfolding injectInbox_def by (intro pres)

text \<open>Surfacing mail is read-only: a registered caller's hook leaves the world as it was.\<close>

lemma injectInbox_readonly:
  "truthy (resolveSelfId H (hub w)) \<noteq> None \<Longrightarrow> injectInbox H event w = (r, w') \<Longrightarrow> w' = w"
  by (auto simp: injectInbox_def hookSelf_def andThen_def eff_simps split: if_splits option.splits sum.splits)

end
