(* ===== verification/Ring.thy ===== *)
theory Ring
  imports FileStore
begin

text \<open>
  \<open>console/ring.ts\<close>: typing a message into a peer's pane and submitting it until the screen
  shows that the peer took the turn. \<open>isStaged\<close> of \<open>cyber-mux\<close> is the host's \<open>mx_isStaged\<close>.
\<close>

subsection \<open>Counting copies on the screen\<close>

definition DEFAULT_ATTEMPTS :: nat where
  "DEFAULT_ATTEMPTS = 10"

definition DEFAULT_SETTLE_MS :: nat where
  "DEFAULT_SETTLE_MS = 400"

definition NEEDLE_LEN :: nat where
  "NEEDLE_LEN = 40"

definition copiesOn :: "ustr option \<Rightarrow> ustr \<Rightarrow> nat" where
  "copiesOn screen message = (case truthy screen of
       None \<Rightarrow> 0
     | Some s \<Rightarrow>
         let needle = take NEEDLE_LEN (utrim (collapse message))
         in if needle = [] then 0
            else length (filter (\<lambda>row. contains (collapse row) needle) (urows s)))"

subsection \<open>Ringing\<close>

record ring_opts =
  ro_attempts :: "nat option"
  ro_settleMs :: "nat option"
  ro_requirePosted :: bool

datatype turn = Taken | Staged | Lost

definition turnOf :: "'x host \<Rightarrow> bool \<Rightarrow> nat \<Rightarrow> ustr \<Rightarrow> ustr option \<Rightarrow> turn" where
  "turnOf H requirePosted before message screen =
     (let copies = copiesOn screen message
      in if mx_isStaged H screen message
         then if before + 2 \<le> copies then Taken else Staged
         else if before < copies \<or> \<not> requirePosted then Taken else Lost)"

text \<open>What every step of a ring refers to: the pane, the message and what was on screen before.\<close>

record 'x ring =
  rg_host :: "'x host"
  rg_adapter :: "'x adapter"
  rg_pane :: string
  rg_message :: ustr
  rg_required :: bool
  rg_before :: nat
  rg_settle :: nat

definition paneText :: "'x adapter \<Rightarrow> string \<Rightarrow> ('x, ustr option) op" where
  "paneText A pane = reads (\<lambda>w. ad_read A pane None (ext w))"

definition ring_check :: "'x ring \<Rightarrow> ('x, turn) op" where
  "ring_check R =
     andThen (paneText (rg_adapter R) (rg_pane R)) (\<lambda>screen.
     ret (turnOf (rg_host R) (rg_required R) (rg_before R) (rg_message R) screen))"

text \<open>The flush of one attempt: a bare Enter for staged text, the text again once it was lost twice.\<close>

definition ring_flush :: "'x ring \<Rightarrow> turn \<Rightarrow> nat \<Rightarrow> ('x, nat) op" where
  "ring_flush R state lost =
     (if state = Staged
      then andThen (extEff (ad_submit (rg_adapter R) (rg_pane R) None)) (\<lambda>_. ret lost)
      else if 2 \<le> lost
      then andThen (extEff (ad_submit (rg_adapter R) (rg_pane R) (Some (rg_message R)))) (\<lambda>_. ret 0)
      else ret lost)"

fun ring_loop :: "'x ring \<Rightarrow> nat \<Rightarrow> turn \<Rightarrow> nat \<Rightarrow> nat \<Rightarrow> ('x, nat) op" where
  "ring_loop R attempt state lost 0 =
     throw (ConsoleE (if state = Lost then NudgeLost (rg_pane R) else NudgeStaged (rg_pane R)))"
| "ring_loop R attempt state lost (Suc left) =
     andThen (ring_flush R state lost) (\<lambda>lost'.
     andThen (sleep (rg_host R) (rg_settle R)) (\<lambda>_.
     andThen (ring_check R) (\<lambda>state'.
     if state' = Taken then ret attempt
     else ring_loop R (Suc attempt) state' (if state' = Lost then Suc lost' else 0) left)))"

text \<open>The result is the number of re-submits; a turn that was not taken is a throw.\<close>

definition ringTurn :: "'x host \<Rightarrow> 'x adapter \<Rightarrow> string \<Rightarrow> ustr \<Rightarrow> ring_opts \<Rightarrow> ('x, nat) op" where
  "ringTurn H A pane message opts =
     andThen (extGet (ad_paneExists A pane)) (\<lambda>there.
     if \<not> there then throw (ConsoleE (NudgeGone pane))
     else andThen (paneText A pane) (\<lambda>screen.
       let R = \<lparr>rg_host = H, rg_adapter = A, rg_pane = pane, rg_message = message,
                rg_required = ro_requirePosted opts, rg_before = copiesOn screen message,
                rg_settle = defaultTo (ro_settleMs opts) DEFAULT_SETTLE_MS\<rparr>
       in andThen (extEff (ad_submit A pane (Some message))) (\<lambda>_.
          andThen (sleep H (rg_settle R)) (\<lambda>_.
          andThen (ring_check R) (\<lambda>state.
          if state = Taken then ret 0
          else ring_loop R 1 state (if state = Lost then 1 else 0)
                 (defaultTo (ro_attempts opts) DEFAULT_ATTEMPTS))))))"

lemma hub_paneText [frame]: "keeps f (paneText A p)"
  by (simp add: paneText_def frame)

lemma pres_paneText [pres]: "preserves P (paneText A p)"
  by (simp add: paneText_def pres)

lemma pres_ring_loop [pres]: "sleep_keeps (rg_host R) P \<Longrightarrow> hub_op P (ring_loop R attempt state lost n)"
  by (induction n arbitrary: attempt state lost)
    (auto simp: ring_flush_def ring_check_def intro!: pres)

lemma pres_ringTurn [pres]: "sleep_keeps H P \<Longrightarrow> hub_op P (ringTurn H A pane message opts)"
  unfolding ringTurn_def ring_check_def Let_def by (auto intro!: pres)

subsection \<open>What a ring types\<close>

text \<open>
  A log of what was submitted to the pane: each submit adds its text (\<open>None\<close> for a bare Enter), also
  one that throws; the passing of time adds nothing.
\<close>

definition submit_log :: "'x host \<Rightarrow> 'x adapter \<Rightarrow> string \<Rightarrow> ('x \<Rightarrow> ustr option list) \<Rightarrow> bool" where
  "submit_log H A pane log \<longleftrightarrow>
     (\<forall>t x. log (snd (ad_submit A pane t x)) = log x @ [t]) \<and>
     (\<forall>ms w. log (ext (os_sleep H ms w)) = log (ext w))"

definition retyped :: "ustr option list \<Rightarrow> nat" where
  "retyped ts = length (filter (\<lambda>t. t \<noteq> None) ts)"

lemma retyped_simps [simp]:
  "retyped [] = 0" "retyped (None # ts) = retyped ts" "retyped (Some t # ts) = Suc (retyped ts)"
  by (simp_all add: retyped_def)

text \<open>The turn was seen: the last screen shows it as taken.\<close>

definition turn_seen :: "'x host \<Rightarrow> 'x adapter \<Rightarrow> string \<Rightarrow> ustr \<Rightarrow> bool \<Rightarrow> nat \<Rightarrow> 'x \<Rightarrow> bool" where
  "turn_seen H A pane message required before x \<longleftrightarrow>
     (case ad_read A pane None x of
        Inl e \<Rightarrow> False
      | Inr screen \<Rightarrow>
          (if mx_isStaged H screen message then before + 2 \<le> copiesOn screen message
           else required \<longrightarrow> before < copiesOn screen message))"

definition ring_seen :: "'x ring \<Rightarrow> 'x \<Rightarrow> bool" where
  "ring_seen R x = turn_seen (rg_host R) (rg_adapter R) (rg_pane R) (rg_message R) (rg_required R) (rg_before R) x"

definition ring_log :: "'x ring \<Rightarrow> ('x \<Rightarrow> ustr option list) \<Rightarrow> bool" where
  "ring_log R log = submit_log (rg_host R) (rg_adapter R) (rg_pane R) log"

lemma ring_check_run:
  "ring_check R w = (Inr s, w') \<Longrightarrow> w' = w \<and> (s = Taken \<longrightarrow> ring_seen R (ext w)) \<and> (\<not> rg_required R \<longrightarrow> s \<noteq> Lost)"
  by (auto simp: ring_check_def paneText_def andThen_reads ret_def ring_seen_def turn_seen_def turnOf_def Let_def
      split: sum.splits if_splits)

lemma ring_check_err: "ring_check R w = (Inl e, w') \<Longrightarrow> w' = w"
  by (auto simp: ring_check_def paneText_def andThen_reads ret_def split: sum.splits)

lemma submit_logD: "submit_log H A pane log \<Longrightarrow> log (snd (ad_submit A pane t x)) = log x @ [t]"
  by (simp add: submit_log_def)

lemma sleep_log: "ring_log R log \<Longrightarrow> log (ext (os_sleep (rg_host R) ms w)) = log (ext w)"
  by (simp add: ring_log_def submit_log_def)

text \<open>
  A flush submits at most once. The budget of re-typings: an attempt may retype only after two lost
  reads, and starts the count again.
\<close>

lemma ring_flush_run:
  assumes "ring_log R log" "ring_flush R state lost w = (r, w')"
  obtains ts where "log (ext w') = log (ext w) @ ts" "length ts \<le> 1"
    "set ts \<subseteq> {None, Some (rg_message R)}"
    "retyped ts \<noteq> 0 \<Longrightarrow> state \<noteq> Staged \<and> 2 \<le> lost \<and> retyped ts = 1"
    "\<And>l. r = Inr l \<Longrightarrow> l = (if retyped ts \<noteq> 0 then 0 else lost)"
proof -
  note logs = submit_logD [OF assms(1) [unfolded ring_log_def]]
  have sub: "log (ext w1) = log (ext w) @ [t]"
    if "extEff (ad_submit (rg_adapter R) (rg_pane R) t) w = (q, w1)" for t q w1
    using logs [of t "ext w"] that by (auto simp: extEff_def split: prod.splits)
  consider (enter) "state = Staged" | (again) "state \<noteq> Staged" "2 \<le> lost"
    | (idle) "state \<noteq> Staged" "\<not> 2 \<le> lost" by blast
  then show thesis
  proof cases
    case enter
    obtain q w1 where e: "extEff (ad_submit (rg_adapter R) (rg_pane R) None) w = (q, w1)" by fastforce
    with enter assms(2) have "w' = w1" and "\<And>l. r = Inr l \<Longrightarrow> l = lost"
      by (auto simp: ring_flush_def andThen_def ret_def split: sum.splits)
    with sub [OF e] show thesis by (intro that [of "[None]"]) auto
  next
    case again
    obtain q w1 where e: "extEff (ad_submit (rg_adapter R) (rg_pane R) (Some (rg_message R))) w = (q, w1)"
      by fastforce
    with again assms(2) have "w' = w1" and "\<And>l. r = Inr l \<Longrightarrow> l = 0"
      by (auto simp: ring_flush_def andThen_def ret_def split: sum.splits)
    with sub [OF e] again show thesis by (intro that [of "[Some (rg_message R)]"]) auto
  next
    case idle
    with assms(2) have "w' = w" "r = Inr lost" by (auto simp: ring_flush_def ret_def)
    then show thesis by (intro that [of "[]"]) auto
  qed
qed

lemma retyped_append [simp]: "retyped (ts @ us) = retyped ts + retyped us"
  by (simp add: retyped_def)

definition ring_result :: "'x ring \<Rightarrow> nat \<Rightarrow> nat \<Rightarrow> error + nat \<Rightarrow> 'x world \<Rightarrow> bool" where
  "ring_result R lo hi r w = (case r of Inl e \<Rightarrow> True | Inr k \<Rightarrow> lo \<le> k \<and> k \<le> hi \<and> ring_seen R (ext w))"

lemma ring_loop_run:
  assumes "ring_log R log" "ring_loop R attempt state lost n w = (r, w')"
  shows "\<exists>ts. log (ext w') = log (ext w) @ ts \<and> length ts \<le> n \<and> set ts \<subseteq> {None, Some (rg_message R)} \<and>
     retyped ts \<le> (n + lost - 1) div 2 \<and> (rg_required R \<or> lost \<noteq> 0 \<or> retyped ts = 0) \<and>
     ring_result R attempt (attempt + n - 1) r w'"
  using assms(2)
proof (induction n arbitrary: attempt state lost w)
  case 0
  then show ?case by (intro exI [of _ "[]"]) (auto simp: throw_def ring_result_def)
next
  case (Suc n)
  obtain q w1 where f: "ring_flush R state lost w = (q, w1)" by fastforce
  obtain ts where ts: "log (ext w1) = log (ext w) @ ts" "length ts \<le> 1"
      "set ts \<subseteq> {None, Some (rg_message R)}"
      "retyped ts \<noteq> 0 \<Longrightarrow> state \<noteq> Staged \<and> 2 \<le> lost \<and> retyped ts = 1"
      "\<And>l. q = Inr l \<Longrightarrow> l = (if retyped ts \<noteq> 0 then 0 else lost)"
    using ring_flush_run [OF assms(1) f] by blast
  have few: "retyped ts \<le> (Suc n + lost - 1) div 2" "rg_required R \<or> lost \<noteq> 0 \<or> retyped ts = 0"
  proof -
    have "2 \<le> lost \<Longrightarrow> 2 div 2 \<le> (Suc n + lost - 1) div 2" by (intro div_le_mono) simp
    then show "retyped ts \<le> (Suc n + lost - 1) div 2" using ts(4) by (cases "retyped ts = 0") auto
    show "rg_required R \<or> lost \<noteq> 0 \<or> retyped ts = 0" using ts(4) by (cases "retyped ts = 0") auto
  qed
  show ?case
  proof (cases q)
    case (Inl e)
    with Suc.prems f have "w' = w1" "r = Inl e" by (simp_all add: andThen_def)
    with ts few show ?thesis by (intro exI [of _ ts]) (simp add: ring_result_def)
  next
    case (Inr l)
    define w2 where "w2 = os_sleep (rg_host R) (rg_settle R) w1"
    have l2: "log (ext w2) = log (ext w) @ ts" using sleep_log [OF assms(1)] ts(1) by (simp add: w2_def)
    obtain c w3 where c: "ring_check R w2 = (c, w3)" by fastforce
    have rest: "(r, w') = (case c of Inl e \<Rightarrow> (Inl e, w3) | Inr s \<Rightarrow>
         (if s = Taken then ret attempt
          else ring_loop R (Suc attempt) s (if s = Lost then Suc l else 0) n) w3)"
      using Suc.prems f c Inr by (simp add: andThen_def sleep_run w2_def split: sum.splits)
    show ?thesis
    proof (cases c)
      case (Inl e)
      with rest ring_check_err c have "w' = w2" "r = Inl e" by auto
      with ts few l2 show ?thesis by (intro exI [of _ ts]) (simp add: ring_result_def)
    next
      case (Inr s)
      with ring_check_run c have s: "w3 = w2" "s = Taken \<longrightarrow> ring_seen R (ext w2)"
        "\<not> rg_required R \<longrightarrow> s \<noteq> Lost" by blast+
      show ?thesis
      proof (cases "s = Taken")
        case True
        with rest Inr s(1) have "w' = w2" "r = Inr attempt" by (simp_all add: ret_def)
        with True ts few l2 s(2) show ?thesis by (intro exI [of _ ts]) (simp add: ring_result_def)
      next
        case False
        define k where "k = (if s = Lost then Suc l else 0)"
        have run: "ring_loop R (Suc attempt) s k n w2 = (r, w')" using rest Inr s(1) False by (simp add: k_def)
        from Suc.IH [OF run] obtain us where us: "log (ext w') = log (ext w2) @ us" "length us \<le> n"
            "set us \<subseteq> {None, Some (rg_message R)}" "retyped us \<le> (n + k - 1) div 2"
            "rg_required R \<or> k \<noteq> 0 \<or> retyped us = 0" "ring_result R (Suc attempt) (Suc attempt + n - 1) r w'"
          by blast
        have kb: "k \<le> Suc (if retyped ts \<noteq> 0 then 0 else lost)"
          using ts(5) [OF \<open>q = Inr l\<close>] by (simp add: k_def)
        have n: "retyped (ts @ us) \<le> (Suc n + lost - 1) div 2"
        proof (cases "retyped ts = 0")
          case True
          then have "(n + k - 1) div 2 \<le> (Suc n + lost - 1) div 2" using kb by (intro div_le_mono) simp
          with True us(4) show ?thesis by simp
        next
          case False
          then have "retyped ts = 1" "2 \<le> lost" "k \<le> 1" using ts(4) kb by auto
          then have "(n + k - 1) div 2 \<le> n div 2" "(n + 2) div 2 \<le> (Suc n + lost - 1) div 2"
            by (intro div_le_mono; simp)+
          with us(4) \<open>retyped ts = 1\<close> show ?thesis by simp
        qed
        have z: "rg_required R \<or> lost \<noteq> 0 \<or> retyped (ts @ us) = 0"
          using few(2) us(5) s(3) by (auto simp: k_def)
        have "ring_result R attempt (attempt + Suc n - 1) r w'"
          using us(6) by (auto simp: ring_result_def split: sum.splits)
        then show ?thesis using l2 us(1,2,3) ts(2,3) n z by (intro exI [of _ "ts @ us"]) auto
      qed
    qed
  qed
qed

definition copies_before :: "'x adapter \<Rightarrow> string \<Rightarrow> ustr \<Rightarrow> 'x \<Rightarrow> nat" where
  "copies_before A pane message x =
     (case ad_read A pane None x of Inl e \<Rightarrow> 0 | Inr screen \<Rightarrow> copiesOn screen message)"

text \<open>
  C36. A ring is bounded and honest. It submits to the pane at most once more than the number of
  attempts, first the message and then only bare Enters or the message again; it types the message
  again at most once in two attempts, and never unless the caller asks to see it posted. It reports
  the turn as taken only when the last screen shows it: the message no longer staged (and posted, where
  that is required), or posted beside the copy that is still staged.
\<close>
theorem ring_turn_bounded:
  assumes "submit_log H A pane log" "ringTurn H A pane message opts w = (r, w')"
    and "n = defaultTo (ro_attempts opts) DEFAULT_ATTEMPTS"
  shows "\<exists>ts. log (ext w') = log (ext w) @ ts \<and> length ts \<le> Suc n \<and>
     (case ts of [] \<Rightarrow> True | t # us \<Rightarrow> t = Some message) \<and> set ts \<subseteq> {None, Some message} \<and>
     retyped ts \<le> Suc (n div 2) \<and> (ro_requirePosted opts \<or> retyped ts \<le> 1) \<and>
     (case r of Inl e \<Rightarrow> True | Inr k \<Rightarrow> k \<le> n \<and>
        turn_seen H A pane message (ro_requirePosted opts) (copies_before A pane message (ext w)) (ext w'))"
proof -
  consider (gone) "log (ext w') = log (ext w)" "\<exists>e. r = Inl e"
    | (typed) screen where "ad_paneExists A pane (ext w)" "ad_read A pane None (ext w) = Inr screen"
    using assms(2)
    by (cases "ad_paneExists A pane (ext w)"; cases "ad_read A pane None (ext w)")
      (auto simp: ringTurn_def andThen_def extGet_run throw_def paneText_def reads_def)
  then show ?thesis
  proof cases
    case gone
    then show ?thesis by (intro exI [of _ "[]"]) auto
  next
    case typed
    define R where "R = \<lparr>rg_host = H, rg_adapter = A, rg_pane = pane, rg_message = message,
                rg_required = ro_requirePosted opts, rg_before = copiesOn screen message,
                rg_settle = defaultTo (ro_settleMs opts) DEFAULT_SETTLE_MS\<rparr>"
    have before: "copies_before A pane message (ext w) = rg_before R"
      using typed by (simp add: copies_before_def R_def)
    have logs: "ring_log R log" using assms(1) by (simp add: ring_log_def R_def)
    obtain q w1 where sub: "extEff (ad_submit A pane (Some message)) w = (q, w1)" by fastforce
    then have l1: "log (ext w1) = log (ext w) @ [Some message]"
      using submit_logD [OF assms(1), of "Some message" "ext w"] by (auto simp: extEff_def split: prod.splits)
    define w2 where "w2 = os_sleep H (rg_settle R) w1"
    have l2: "log (ext w2) = log (ext w) @ [Some message]"
      using sleep_log [OF logs, of "rg_settle R" w1] l1 by (simp add: w2_def R_def)
    obtain c w3 where c: "ring_check R w2 = (c, w3)" by fastforce
    have run: "(r, w') = (case q of Inl e \<Rightarrow> (Inl e, w1) | Inr _ \<Rightarrow> (case c of Inl e \<Rightarrow> (Inl e, w3) | Inr s \<Rightarrow>
        (if s = Taken then ret 0 else ring_loop R 1 s (if s = Lost then 1 else 0) n) w3))"
      using assms(2) typed sub c
      by (cases q; cases c)
        (auto simp: ringTurn_def andThen_def extGet_run paneText_def reads_def sleep_run w2_def assms(3)
          Let_def R_def split: if_splits)
    have one: ?thesis if "log (ext w') = log (ext w) @ [Some message]"
        "case r of Inl e \<Rightarrow> True | Inr k \<Rightarrow> k = 0 \<and> ring_seen R (ext w')"
      using that before by (intro exI [of _ "[Some message]"]) (auto simp: ring_seen_def R_def split: sum.splits)
    show ?thesis
    proof (cases "\<exists>s. q = Inr () \<and> c = Inr s \<and> s \<noteq> Taken")
      case False
      then consider (thrown) e where "q = Inl e" | (blind) e where "q = Inr ()" "c = Inl e"
        | (taken) "q = Inr ()" "c = Inr Taken"
        by (cases q; cases c) auto
      then have "log (ext w') = log (ext w) @ [Some message] \<and>
          (case r of Inl e \<Rightarrow> True | Inr k \<Rightarrow> k = 0 \<and> ring_seen R (ext w'))"
      proof cases
        case thrown
        with run l1 show ?thesis by simp
      next
        case blind
        with c have "w3 = w2" by (auto dest: ring_check_err)
        with blind run l2 show ?thesis by simp
      next
        case taken
        with c have "w3 = w2" "ring_seen R (ext w2)" by (auto dest: ring_check_run)
        with taken run l2 show ?thesis by (simp add: ret_def)
      qed
      then show ?thesis by (intro one) simp_all
    next
      case True
      then obtain s where s: "q = Inr ()" "c = Inr s" "s \<noteq> Taken" by blast
      with ring_check_run [of R w2 s w3] c have w3: "w3 = w2" "\<not> rg_required R \<longrightarrow> s \<noteq> Lost" by auto
      define k :: nat where "k = (if s = Lost then 1 else 0)"
      have "ring_loop R 1 s k n w2 = (r, w')" using run s w3(1) by (simp add: k_def)
      from ring_loop_run [OF logs this] obtain us where us: "log (ext w') = log (ext w2) @ us" "length us \<le> n"
          "set us \<subseteq> {None, Some (rg_message R)}" "retyped us \<le> (n + k - 1) div 2"
          "rg_required R \<or> k \<noteq> 0 \<or> retyped us = 0" "ring_result R 1 (1 + n - 1) r w'"
        by blast
      have "(n + k - 1) div 2 \<le> n div 2" by (intro div_le_mono) (simp add: k_def)
      moreover have "rg_required R \<or> retyped us = 0" using us(5) w3(2) by (auto simp: k_def)
      moreover have "case r of Inl e \<Rightarrow> True | Inr k \<Rightarrow> k \<le> n \<and> ring_seen R (ext w')"
        using us(6) by (auto simp: ring_result_def split: sum.splits)
      ultimately show ?thesis using us(1-4) l2 before
        by (intro exI [of _ "Some message # us"]) (auto simp: R_def ring_seen_def split: sum.splits)
    qed
  qed
qed

text \<open>
  A terminal whose outside world is the log of what was submitted to it; it swallows the first Enter
  (the text stays in the box) and takes the turn at the second.
\<close>

definition ring_adapter :: "ustr option list adapter" where
  "ring_adapter = (quiet_adapter ''tmux'')\<lparr>
     ad_paneExists := (\<lambda>p x. True),
     ad_read := (\<lambda>p n x. Inr (Some (if length x = 1 then [104, 105] else []))),
     ad_submit := (\<lambda>p t x. (Inr (), x @ [t]))\<rparr>"

definition ring_host :: "ustr option list host" where
  "ring_host = quiet_host\<lparr>mx_isStaged := (\<lambda>screen m. screen = Some m)\<rparr>"

definition ring_world :: "ustr option list world" where
  "ring_world = \<lparr>hub = empty_hub ''/hub'', ext = []\<rparr>"

lemma ring_copies: "copiesOn (Some [104, 105]) [104, 105] = 1" "copiesOn (Some []) [104, 105] = 0"
  by (simp_all add: copiesOn_def NEEDLE_LEN_def utrim_def utrim_end_def uspace_def urows_def starts_with_def)

lemma ring_host_simps [simp]:
  "os_sleep ring_host ms w = w" "mx_isStaged ring_host scr m \<longleftrightarrow> scr = Some m"
  "ad_paneExists ring_adapter p x" "ad_read ring_adapter p n x = Inr (Some (if length x = 1 then [104, 105] else []))"
  "ad_submit ring_adapter p t x = (Inr (), x @ [t])"
  by (simp_all add: ring_host_def quiet_host_def ring_adapter_def)

theorem ring_turn_bounded_witness:
  "\<exists>w' ts. ringTurn ring_host ring_adapter ''%3'' [104, 105] \<lparr>ro_attempts = Some 2, ro_settleMs = None, ro_requirePosted = False\<rparr>
       ring_world = (Inr 1, w') \<and>
     ext w' = ext ring_world @ ts \<and> set ts \<subseteq> {None, Some [104, 105]} \<and> length ts \<le> 3 \<and> ext w' = [Some [104, 105], None]"
proof -
  let ?o = "\<lparr>ro_attempts = Some 2, ro_settleMs = None, ro_requirePosted = False\<rparr>"
  have l: "submit_log ring_host ring_adapter ''%3'' (\<lambda>x. x)"
    by (simp add: submit_log_def)
  have run: "ringTurn ring_host ring_adapter ''%3'' [104, 105] ?o ring_world =
      (Inr 1, ring_world\<lparr>ext := [Some [104, 105], None]\<rparr>)"
    by (simp add: ringTurn_def ring_world_def Let_def paneText_def ring_check_def ring_flush_def turnOf_def
        ring_copies andThen_def eff_simps extGet_run sleep_run numeral_2_eq_2)
  show ?thesis
    using ring_turn_bounded [OF l run refl] run by auto
qed

end
