(* ===== verification/PromptGuard.thy ===== *)
theory PromptGuard
  imports FileStore
begin

text \<open>
  \<open>console/prompt-guard.ts\<close>: reading a harness's input box off a scrape of its pane, and running a
  send without trampling a draft a human left in that box. Screens are lists of UTF-16 code units.
\<close>

subsection \<open>Reading the input box\<close>

datatype prompt_state = PEmpty | PDraft ustr nat | PUnknown

record prompt_shape =
  ps_head :: "ustr \<Rightarrow> ustr option"
  ps_indent :: ustr
  ps_ruled :: bool
  ps_placeholder :: "ustr \<Rightarrow> bool"

text \<open>What a dot of a regular expression does not match.\<close>

definition line_end :: "nat \<Rightarrow> bool" where
  "line_end c \<longleftrightarrow> c = 10 \<or> c = 13 \<or> c = 8232 \<or> c = 8233"

text \<open>
  A head row: a mark, and nothing else or one of the given blanks and the text typed so far; the
  mark is a prompt character after so many columns.
\<close>

definition head_row :: "ustr \<Rightarrow> nat list \<Rightarrow> ustr \<Rightarrow> ustr option" where
  "head_row mark blanks row =
     (if \<not> starts_with row mark then None
      else case drop (length mark) row of
        [] \<Rightarrow> Some []
      | b # t \<Rightarrow> if b \<in> set blanks \<and> list_all (\<lambda>c. \<not> line_end c) t then Some t else None)"

definition CODEX_PLACEHOLDERS :: "ustr list" where
  "CODEX_PLACEHOLDERS = map ustr_of
     [''Ask Codex to do anything'', ''Explain this codebase'', ''Summarize recent commits'',
      ''Implement {feature}'', ''Find and fix a bug in @filename'', ''Write tests for @filename'',
      ''Improve documentation in @filename'', ''Run /review on my current changes'',
      ''Use /skills to list available skills'']"

text \<open>\<open>/^Try ".*"$/\<close> on a text of one row.\<close>

definition claude_placeholder :: "ustr \<Rightarrow> bool" where
  "claude_placeholder t \<longleftrightarrow>
     starts_with t (ustr_of ''Try \"'') \<and> ends_with t (ustr_of ''\"'') \<and> 6 \<le> length t \<and>
     list_all (\<lambda>c. \<not> line_end c) t"

fun SHAPES :: "harness \<Rightarrow> prompt_shape" where
  "SHAPES Claude = \<lparr>ps_head = head_row [0x276F] [32, 160], ps_indent = [32, 32], ps_ruled = True,
     ps_placeholder = claude_placeholder\<rparr>"
| "SHAPES Codex = \<lparr>ps_head = head_row [0x203A] [32], ps_indent = [32, 32], ps_ruled = False,
     ps_placeholder = (\<lambda>t. t \<in> set CODEX_PLACEHOLDERS)\<rparr>"
| "SHAPES Cursor = \<lparr>ps_head = head_row [32, 32, 0x2192] [32], ps_indent = [32, 32, 32, 32], ps_ruled = False,
     ps_placeholder = (\<lambda>t. t = ustr_of ''Plan, search, build anything'')\<rparr>"

definition MAX_ROWS_BELOW :: nat where
  "MAX_ROWS_BELOW = 6"

definition isRule :: "ustr \<Rightarrow> bool" where
  "isRule row \<longleftrightarrow> take 3 row = [0x2500, 0x2500, 0x2500]"

definition row_at :: "ustr list \<Rightarrow> ustr" where
  "row_at rows = (case rows of [] \<Rightarrow> [] | r # _ \<Rightarrow> r)"

definition continues :: "prompt_shape \<Rightarrow> ustr \<Rightarrow> bool" where
  "continues sh row \<longleftrightarrow> starts_with row (ps_indent sh) \<and> utrim row \<noteq> []"

text \<open>The box whose head row has text \<open>t\<close>, between the rows \<open>upper\<close> it (nearest first) and \<open>below\<close>.\<close>

definition readBoxAt :: "prompt_shape \<Rightarrow> ustr list \<Rightarrow> ustr \<Rightarrow> ustr list \<Rightarrow> prompt_state option" where
  "readBoxAt sh upper t below =
     (let lines = utrim_end t # map (\<lambda>r. utrim_end (drop (length (ps_indent sh)) r)) (takeWhile (continues sh) below);
          rest = dropWhile (continues sh) below
      in if ps_ruled sh \<and> \<not> isRule (row_at upper) then None
         else if ps_ruled sh \<and> \<not> isRule (row_at rest) then None
         else if \<not> ps_ruled sh \<and> utrim (row_at rest) \<noteq> [] then None
         else if \<not> ps_ruled sh \<and> MAX_ROWS_BELOW < length (filter (\<lambda>r. utrim r \<noteq> []) rest) then None
         else let text = join_with [10] lines
              in Some (if text = [] \<or> (length lines = 1 \<and> ps_placeholder sh text) then PEmpty
                       else PDraft text (length lines)))"

text \<open>From the last row up: \<open>upper\<close> holds the rows not yet looked at, the lowest first.\<close>

fun readRows :: "prompt_shape \<Rightarrow> ustr list \<Rightarrow> ustr list \<Rightarrow> prompt_state" where
  "readRows sh [] below = PUnknown"
| "readRows sh (row # upper) below =
     (case ps_head sh row of
        None \<Rightarrow> readRows sh upper (row # below)
      | Some t \<Rightarrow> (case readBoxAt sh upper t below of
            None \<Rightarrow> readRows sh upper (row # below)
          | Some s \<Rightarrow> s))"

definition readShape :: "ustr list \<Rightarrow> prompt_shape \<Rightarrow> prompt_state" where
  "readShape rows sh = readRows sh (rev rows) []"

definition readPrompt :: "ustr \<Rightarrow> harness option \<Rightarrow> prompt_state" where
  "readPrompt screen hs =
     (let shapes = (case hs of Some x \<Rightarrow> [SHAPES x] | None \<Rightarrow> [SHAPES Claude, SHAPES Codex, SHAPES Cursor])
      in defaultTo (find (\<lambda>s. s \<noteq> PUnknown) (map (readShape (urows screen)) shapes)) PUnknown)"

subsection \<open>The guard\<close>

definition DRAFT_IDLE_MS :: nat where
  "DRAFT_IDLE_MS = 20000"

definition DRAFT_MAX_WAIT_MS :: nat where
  "DRAFT_MAX_WAIT_MS = 60000"

definition DRAFT_POLL_MS :: nat where
  "DRAFT_POLL_MS = 1000"

definition KEY_SETTLE_MS :: nat where
  "KEY_SETTLE_MS = 150"

definition END_OF_LINE :: ustr where
  "END_OF_LINE = [5]"

definition KILL_LINE :: ustr where
  "KILL_LINE = [21]"

record guard_opts =
  go_harness :: "harness option"
  go_ownText :: "ustr \<Rightarrow> bool"
  go_idleMs :: "nat option"
  go_maxWaitMs :: "nat option"
  go_pollMs :: "nat option"

definition default_guard :: guard_opts where
  "default_guard = \<lparr>go_harness = None, go_ownText = (\<lambda>t. False), go_idleMs = None, go_maxWaitMs = None, go_pollMs = None\<rparr>"

definition readBox :: "'x adapter \<Rightarrow> string \<Rightarrow> harness option \<Rightarrow> 'x \<Rightarrow> prompt_state" where
  "readBox A pane hs x = (case ad_read A pane None x of
       Inl e \<Rightarrow> PUnknown
     | Inr None \<Rightarrow> PUnknown
     | Inr (Some screen) \<Rightarrow> readPrompt screen hs)"

definition isOwn :: "guard_opts \<Rightarrow> prompt_state \<Rightarrow> bool" where
  "isOwn opts s = (case s of PDraft t n \<Rightarrow> go_ownText opts t | _ \<Rightarrow> False)"

definition is_draft :: "prompt_state \<Rightarrow> bool" where
  "is_draft s = (case s of PDraft t n \<Rightarrow> True | _ \<Rightarrow> False)"

definition same_draft :: "prompt_state \<Rightarrow> prompt_state \<Rightarrow> bool" where
  "same_draft s s' = (case (s, s') of (PDraft t n, PDraft t' n') \<Rightarrow> t = t' | _ \<Rightarrow> False)"

definition clearLine :: "'x host \<Rightarrow> 'x adapter \<Rightarrow> string \<Rightarrow> ('x, unit) op" where
  "clearLine H A pane =
     andThen (extEff (ad_sendText A pane END_OF_LINE)) (\<lambda>_.
     andThen (sleep H KEY_SETTLE_MS) (\<lambda>_.
     andThen (extEff (ad_sendText A pane KILL_LINE)) (\<lambda>_.
     sleep H KEY_SETTLE_MS)))"

text \<open>The wait for a human's draft; every comparison of times is written without subtraction.\<close>

fun guard_loop ::
  "'x host \<Rightarrow> 'x adapter \<Rightarrow> string \<Rightarrow> guard_opts \<Rightarrow> nat \<Rightarrow> nat \<Rightarrow> prompt_state \<Rightarrow> nat \<Rightarrow> ('x, prompt_state) op" where
  "guard_loop H A pane opts start changedAt state 0 = throw out_of_fuel"
| "guard_loop H A pane opts start changedAt state (Suc fuel) =
     andThen (now H) (\<lambda>t.
     if is_draft state \<and> \<not> isOwn opts state \<and> t < changedAt + defaultTo (go_idleMs opts) DRAFT_IDLE_MS
     then if start + defaultTo (go_maxWaitMs opts) DRAFT_MAX_WAIT_MS < t + defaultTo (go_pollMs opts) DRAFT_POLL_MS
          then throw (ConsoleE (DraftBusy pane))
          else andThen (sleep H (defaultTo (go_pollMs opts) DRAFT_POLL_MS)) (\<lambda>_.
               andThen (extGet (readBox A pane (go_harness opts))) (\<lambda>next.
               andThen (now H) (\<lambda>t'.
               guard_loop H A pane opts start (if same_draft state next then changedAt else t') next fuel)))
     else ret state)"

text \<open>One round per millisecond of the longest wait is enough whenever sleeping lets the clock advance.\<close>

definition guard_wait :: "'x host \<Rightarrow> 'x adapter \<Rightarrow> string \<Rightarrow> guard_opts \<Rightarrow> ('x, prompt_state) op" where
  "guard_wait H A pane opts =
     andThen (extGet (readBox A pane (go_harness opts))) (\<lambda>state.
     andThen (now H) (\<lambda>start.
     guard_loop H A pane opts start start state (defaultTo (go_maxWaitMs opts) DRAFT_MAX_WAIT_MS + 2)))"

text \<open>
  The typing back is a \<open>finally\<close>: it runs when \<open>send\<close> throws too, and what it throws itself hides
  the outcome of \<open>send\<close>.
\<close>

definition withDraftGuard :: "'x host \<Rightarrow> 'x adapter \<Rightarrow> string \<Rightarrow> ('x, 'a) op \<Rightarrow> guard_opts \<Rightarrow> ('x, 'a) op" where
  "withDraftGuard H A pane send opts =
     andThen (guard_wait H A pane opts) (\<lambda>state. case state of
       PDraft draft rows \<Rightarrow>
         if isOwn opts state then andThen (clearLine H A pane) (\<lambda>_. send)
         else if 1 < rows then throw (ConsoleE (DraftMultiRow pane))
         else andThen (clearLine H A pane) (\<lambda>_.
              andThen (extGet (readBox A pane (go_harness opts))) (\<lambda>after.
              if same_draft after state then send
              else andThen (tryE send) (\<lambda>r.
                   andThen (sleep H KEY_SETTLE_MS) (\<lambda>_.
                   andThen (extEff (ad_sendText A pane draft)) (\<lambda>_. ofSum r)))))
     | _ \<Rightarrow> send)"

lemma guard_loop_returns:
  fixes H :: "'x host"
  assumes clock: "clock_advances H" and poll: "0 < defaultTo (go_pollMs opts) DRAFT_POLL_MS"
    and longest: "m = defaultTo (go_maxWaitMs opts) DRAFT_MAX_WAIT_MS"
  shows "0 < fuel \<Longrightarrow> start + m < os_now H (ext w) + fuel \<Longrightarrow>
    case fst (guard_loop H A pane opts start changedAt state fuel w) of
      Inl e \<Rightarrow> e = ConsoleE (DraftBusy pane)
    | Inr s \<Rightarrow> True"
proof (induction fuel arbitrary: w changedAt state)
  case 0
  then show ?case by simp
next
  case (Suc f)
  let ?p = "defaultTo (go_pollMs opts) DRAFT_POLL_MS" and ?t = "os_now H (ext w)"
  show ?case
  proof (cases "is_draft state \<and> \<not> isOwn opts state \<and> ?t < changedAt + defaultTo (go_idleMs opts) DRAFT_IDLE_MS")
    case False
    then have "guard_loop H A pane opts start changedAt state (Suc f) w = (Inr state, w)"
      by (auto simp: andThen_def now_run ret_def)
    then show ?thesis by simp
  next
    case editing: True
    show ?thesis
    proof (cases "start + m < ?t + ?p")
      case True
      with editing longest have "guard_loop H A pane opts start changedAt state (Suc f) w = (Inl (ConsoleE (DraftBusy pane)), w)"
        by (simp add: andThen_def now_run throw_def)
      then show ?thesis by simp
    next
      case False
      define w1 where "w1 = os_sleep H ?p w"
      have later: "?t + ?p \<le> os_now H (ext w1)" using clock by (simp add: clock_advances_def w1_def)
      with Suc.prems False poll have "0 < f" "start + m < os_now H (ext w1) + f" by simp_all
      note IH = Suc.IH [OF this]
      have "guard_loop H A pane opts start changedAt state (Suc f) w =
        (let next = readBox A pane (go_harness opts) (ext w1)
         in guard_loop H A pane opts start (if same_draft state next then changedAt else os_now H (ext w1)) next f w1)"
        using editing False longest by (simp add: andThen_def now_run sleep_run extGet_run w1_def Let_def)
      then show ?thesis using IH by (simp only: Let_def)
    qed
  qed
qed

lemma guard_wait_returns:
  assumes "clock_advances H" "0 < defaultTo (go_pollMs opts) DRAFT_POLL_MS"
  shows "case fst (guard_wait H A pane opts w) of Inl e \<Rightarrow> e = ConsoleE (DraftBusy pane) | Inr s \<Rightarrow> True"
  using guard_loop_returns [OF assms refl, where fuel = "defaultTo (go_maxWaitMs opts) DRAFT_MAX_WAIT_MS + 2"
      and start = "os_now H (ext w)" and w = w and A = A and pane = pane]
  by (simp add: guard_wait_def andThen_def extGet_run now_run del: guard_loop.simps)

lemma pres_clearLine [pres]: "sleep_keeps H P \<Longrightarrow> hub_op P (clearLine H A pane)"
  unfolding clearLine_def by (intro pres)

lemma pres_guard_loop [pres]: "sleep_keeps H P \<Longrightarrow> hub_op P (guard_loop H A pane opts start changedAt state fuel)"
  by (induction fuel arbitrary: changedAt state) (auto intro!: pres)

lemma pres_guard_wait [pres]: "sleep_keeps H P \<Longrightarrow> hub_op P (guard_wait H A pane opts)"
  unfolding guard_wait_def by (intro pres)

lemma pres_prompt [pres]:
  "preserves P a \<Longrightarrow> (\<And>t n. preserves P (b t n)) \<Longrightarrow> preserves P c \<Longrightarrow>
   preserves P (case s of PEmpty \<Rightarrow> a | PDraft t n \<Rightarrow> b t n | PUnknown \<Rightarrow> c)"
  by (simp split: prompt_state.splits)

lemma pres_withDraftGuard [pres]: "sleep_keeps H P \<Longrightarrow> hub_op P send \<Longrightarrow> hub_op P (withDraftGuard H A pane send opts)"
  unfolding withDraftGuard_def by (intro pres)

subsection \<open>A human's draft survives\<close>

definition plain_text :: "ustr \<Rightarrow> bool" where
  "plain_text t \<longleftrightarrow> list_all (\<lambda>c. 32 \<le> c \<and> c \<noteq> 127) t"

definition box_state :: "ustr \<Rightarrow> prompt_state" where
  "box_state t = (if t = [] then PEmpty else PDraft t (length (urows t)))"

text \<open>
  A pane that is a line editor with a draft: the guard reads the box when it holds the draft and when
  it is empty, the two control keys clear it, plain text is added at its end. The human is away: the
  box does not change while time passes.
\<close>

definition line_editor ::
  "'x host \<Rightarrow> 'x adapter \<Rightarrow> string \<Rightarrow> harness option \<Rightarrow> ('x \<Rightarrow> ustr) \<Rightarrow> ustr \<Rightarrow> bool" where
  "line_editor H A pane hs box draft \<longleftrightarrow>
     (\<forall>x. box x = draft \<or> box x = [] \<longrightarrow> readBox A pane hs x = box_state (box x)) \<and>
     (\<forall>x. \<exists>x'. ad_sendText A pane END_OF_LINE x = (Inr (), x') \<and> box x' = box x) \<and>
     (\<forall>x. \<exists>x'. ad_sendText A pane KILL_LINE x = (Inr (), x') \<and> box x' = []) \<and>
     (\<forall>t x. plain_text t \<longrightarrow> (\<exists>x'. ad_sendText A pane t x = (Inr (), x') \<and> box x' = box x @ t)) \<and>
     (\<forall>ms w. box (ext (os_sleep H ms w)) = box (ext w))"

lemma line_editorD:
  assumes "line_editor H A pane hs box draft"
  shows "box x = draft \<or> box x = [] \<Longrightarrow> readBox A pane hs x = box_state (box x)" "box (ext (os_sleep H ms w)) = box (ext w)"
  using assms by (auto simp: line_editor_def)

lemma clearLine_run:
  assumes "line_editor H A pane hs box draft"
  obtains w' where "clearLine H A pane w = (Inr (), w')" "box (ext w') = []"
proof -
  obtain x1 where 1: "ad_sendText A pane END_OF_LINE (ext w) = (Inr (), x1)"
    using assms unfolding line_editor_def by blast
  define w1 where "w1 = os_sleep H KEY_SETTLE_MS (w\<lparr>ext := x1\<rparr>)"
  obtain x2 where 2: "ad_sendText A pane KILL_LINE (ext w1) = (Inr (), x2)" "box x2 = []"
    using assms unfolding line_editor_def by blast
  have "clearLine H A pane w = (Inr (), os_sleep H KEY_SETTLE_MS (w1\<lparr>ext := x2\<rparr>))"
    using 1 2(1) by (simp add: clearLine_def andThen_def extEff_def sleep_run w1_def)
  with that 2(2) line_editorD(2) [OF assms] show thesis by simp
qed

lemma typed_back:
  assumes "line_editor H A pane hs box draft" "plain_text t"
  obtains w' where "extEff (ad_sendText A pane t) w = (Inr (), w')" "box (ext w') = box (ext w) @ t"
proof -
  obtain x1 where "ad_sendText A pane t (ext w) = (Inr (), x1)" "box x1 = box (ext w) @ t"
    using assms unfolding line_editor_def by blast
  with that [of "w\<lparr>ext := x1\<rparr>"] show thesis by (simp add: extEff_def)
qed

lemma guard_loop_away:
  assumes "line_editor H A pane (go_harness opts) box draft" "clock_advances H"
    and "0 < poll" "poll = defaultTo (go_pollMs opts) DRAFT_POLL_MS"
    and "idle = defaultTo (go_idleMs opts) DRAFT_IDLE_MS"
    and "idle + poll \<le> defaultTo (go_maxWaitMs opts) DRAFT_MAX_WAIT_MS"
    and "box (ext w) = draft" "state = box_state draft" "0 < fuel" "start + idle < os_now H (ext w) + fuel"
  shows "\<exists>w'. guard_loop H A pane opts start start state fuel w = (Inr state, w') \<and> box (ext w') = box (ext w)"
  using assms(7-)
proof (induction fuel arbitrary: w)
  case 0
  then show ?case by simp
next
  case (Suc fuel)
  define w1 where "w1 = os_sleep H poll w"
  have b1: "box (ext w1) = box (ext w)" using line_editorD(2) [OF assms(1)] by (simp add: w1_def)
  have t1: "os_now H (ext w) + poll \<le> os_now H (ext w1)"
    using assms(2) by (simp add: clock_advances_def w1_def)
  show ?case
  proof (cases "is_draft state \<and> \<not> isOwn opts state \<and> os_now H (ext w) < start + idle")
    case False
    then show ?thesis using assms(5) by (auto simp: andThen_def now_run ret_def)
  next
    case True
    then have same: "same_draft state (readBox A pane (go_harness opts) (ext w1))"
      using line_editorD(1) [OF assms(1)] Suc.prems(1,2) b1
      by (auto simp: same_draft_def is_draft_def box_state_def split: if_splits)
    have re: "readBox A pane (go_harness opts) (ext w1) = state"
      using line_editorD(1) [OF assms(1)] Suc.prems(1,2) b1 by simp
    have "guard_loop H A pane opts start start state (Suc fuel) w = guard_loop H A pane opts start start state fuel w1"
      using True assms(6) same re by (simp add: andThen_def now_run sleep_run extGet_run flip: assms(4,5) w1_def)
    moreover have "\<exists>w'. guard_loop H A pane opts start start state fuel w1 = (Inr state, w') \<and> box (ext w') = box (ext w1)"
      using True Suc.prems t1 b1 assms(3) by (intro Suc.IH) auto
    ultimately show ?thesis using b1 by simp
  qed
qed

text \<open>
  C23. A draft survives a send. On a pane that is a line editor whose human has stepped away, guarding a
  send that submits all it types leaves the box with the text it had before, whether the send succeeds or
  throws. The send is run on an empty box, and its outcome is the outcome; only a draft of several rows,
  which could not be typed back, makes the guard refuse, and then nothing is typed.
\<close>
theorem draft_guard_restores:
  assumes "line_editor H A pane (go_harness opts) box (box (ext w))" "clock_advances H"
    and "0 < defaultTo (go_pollMs opts) DRAFT_POLL_MS"
    and "defaultTo (go_idleMs opts) DRAFT_IDLE_MS + defaultTo (go_pollMs opts) DRAFT_POLL_MS
           \<le> defaultTo (go_maxWaitMs opts) DRAFT_MAX_WAIT_MS"
    and "\<forall>w. box (ext w) = [] \<longrightarrow> box (ext (snd (send w))) = []"
    and "\<not> go_ownText opts (box (ext w))" "length (urows (box (ext w))) = 1 \<longrightarrow> plain_text (box (ext w))"
    and "withDraftGuard H A pane send opts w = (r, w')"
  shows "box (ext w') = box (ext w) \<and>
    (if length (urows (box (ext w))) = 1 then \<exists>w1. box (ext w1) = [] \<and> r = fst (send w1)
     else r = Inl (ConsoleE (DraftMultiRow pane)))"
proof -
  define t where "t = box (ext w)"
  note ed = line_editorD [OF assms(1)]
  have sends: "box (ext (snd (send v))) = []" if "box (ext v) = []" for v using assms(5) that by blast
  have "\<exists>v. guard_wait H A pane opts w = (Inr (box_state t), v) \<and> box (ext v) = t"
    using guard_loop_away [OF assms(1,2,3) refl refl assms(4), of w "box_state t"
        "defaultTo (go_maxWaitMs opts) DRAFT_MAX_WAIT_MS + 2" "os_now H (ext w)"] assms(4)
    by (simp add: guard_wait_def andThen_def extGet_run now_run ed t_def)
  then obtain v where v: "guard_wait H A pane opts w = (Inr (box_state t), v)" "box (ext v) = t" by blast
  consider (empty) "t = []" | (rows) "t \<noteq> []" "1 < length (urows t)" | (draft) "t \<noteq> []" "length (urows t) = 1"
    by (cases "urows t") (auto simp: urows_def Suc_lessI)
  then show ?thesis
  proof cases
    case empty
    with assms(8) v have "(r, w') = send v" by (simp add: withDraftGuard_def andThen_def box_state_def)
    then have "r = fst (send v)" "w' = snd (send v)" by (metis fst_conv snd_conv)+
    with empty v(2) sends [of v] show ?thesis by (auto simp: urows_def simp flip: t_def)
  next
    case rows
    with assms(6,8) v show ?thesis
      by (auto simp: withDraftGuard_def andThen_def box_state_def isOwn_def throw_def simp flip: t_def)
  next
    case draft
    obtain w1 where w1: "clearLine H A pane v = (Inr (), w1)" "box (ext w1) = []"
      using clearLine_run [OF assms(1)] by blast
    obtain q w2 where s: "send w1 = (q, w2)" by fastforce
    then have b2: "box (ext w2) = []" using sends [OF w1(2)] by simp
    define w3 where "w3 = os_sleep H KEY_SETTLE_MS w2"
    have b3: "box (ext w3) = []" using ed(2) b2 by (simp add: w3_def)
    obtain w4 where w4: "extEff (ad_sendText A pane t) w3 = (Inr (), w4)" "box (ext w4) = box (ext w3) @ t"
      using typed_back [OF assms(1)] assms(7) draft(2) by (auto simp: t_def)
    have "withDraftGuard H A pane send opts w = (q, w4)"
      using v w1 s w4(1) draft assms(6)
      by (simp add: withDraftGuard_def andThen_def box_state_def isOwn_def extGet_run ed same_draft_def
          tryE_def sleep_run ofSum_def flip: t_def w3_def)
    with assms(8) have "r = q" "w' = w4" by simp_all
    with w4(2) b3 w1(2) s draft(2) show ?thesis by (auto simp flip: t_def intro!: exI [of _ w1])
  qed
qed

text \<open>A terminal with a codex input box, whose outside world is a clock and the text in the box.\<close>

definition codex_adapter :: "(nat \<times> ustr) adapter" where
  "codex_adapter = (quiet_adapter ''tmux'')\<lparr>
     ad_read := (\<lambda>p n x. Inr (Some ([0x203A, 32] @ snd x))),
     ad_sendText := (\<lambda>p t x. (Inr (), (fst x, if t = END_OF_LINE then snd x else if t = KILL_LINE then [] else snd x @ t)))\<rparr>"

definition codex_host :: "(nat \<times> ustr) host" where
  "codex_host = quiet_host\<lparr>os_now := fst, os_sleep := (\<lambda>ms w. w\<lparr>ext := (fst (ext w) + ms, snd (ext w))\<rparr>)\<rparr>"

definition codex_world :: "(nat \<times> ustr) world" where
  "codex_world = \<lparr>hub = empty_hub ''/hub'', ext = (0, ustr_of ''hi'')\<rparr>"

definition codex_opts :: guard_opts where
  "codex_opts = \<lparr>go_harness = Some Codex, go_ownText = (\<lambda>t. False), go_idleMs = None, go_maxWaitMs = None, go_pollMs = None\<rparr>"

lemma codex_reads:
  "readPrompt [0x203A, 32, 104, 105] (Some Codex) = PDraft [104, 105] 1"
  "readPrompt [0x203A, 32] (Some Codex) = PEmpty"
  by (simp_all add: readPrompt_def readShape_def readBoxAt_def urows_def head_row_def starts_with_def line_end_def
      row_at_def utrim_def utrim_end_def uspace_def CODEX_PLACEHOLDERS_def ustr_of_def Let_def)

theorem draft_guard_restores_witness:
  "snd (ext (snd (withDraftGuard codex_host codex_adapter ''%3'' (throw NoBody :: (nat \<times> ustr, unit) op) codex_opts codex_world)))
     = ustr_of ''hi'' \<and>
   fst (withDraftGuard codex_host codex_adapter ''%3'' (throw NoBody :: (nat \<times> ustr, unit) op) codex_opts codex_world) = Inl NoBody"
proof -
  let ?send = "throw NoBody :: (nat \<times> ustr, unit) op"
  obtain r w' where run: "withDraftGuard codex_host codex_adapter ''%3'' ?send codex_opts codex_world = (r, w')" by fastforce
  have hi: "ustr_of ''hi'' = [104, 105]" by (simp add: ustr_of_def)
  have rows: "urows [104, 105] = [[104, 105]]" by (simp add: urows_def)
  have ed: "line_editor codex_host codex_adapter ''%3'' (go_harness codex_opts) snd (snd (ext codex_world))"
    by (auto simp: line_editor_def codex_adapter_def codex_host_def codex_opts_def codex_world_def readBox_def
        codex_reads box_state_def hi rows END_OF_LINE_def KILL_LINE_def plain_text_def)
  have clock: "clock_advances codex_host" by (simp add: clock_advances_def codex_host_def)
  have "snd (ext w') = snd (ext codex_world) \<and>
    (if length (urows (snd (ext codex_world))) = 1 then \<exists>w1. snd (ext w1) = [] \<and> r = fst (?send w1)
     else r = Inl (ConsoleE (DraftMultiRow ''%3'')))"
    by (rule draft_guard_restores [OF ed clock _ _ _ _ _ run])
      (simp_all add: codex_opts_def DRAFT_POLL_MS_def DRAFT_IDLE_MS_def DRAFT_MAX_WAIT_MS_def throw_def
        codex_world_def hi rows plain_text_def)
  then show ?thesis using run by (simp add: codex_world_def hi rows throw_def)
qed

end
