(* ===== verification/Trust.thy ===== *)
theory Trust
  imports FileStore
begin

text \<open>
  \<open>console/trust.ts\<close>: watching a fresh pane for its harness's folder-trust prompt and answering it.
  The texts of the reports are not modelled. \<open>collapse\<close> is \<open>JsText\<close>'s.
\<close>

subsection \<open>The prompts\<close>

record trust_move =
  tm_keys :: "string list option"
  tm_text :: "ustr option"
  tm_until :: "(ustr \<Rightarrow> bool) option"

record trust_shape =
  ts_markers :: "ustr list list"
  ts_accept :: "trust_move list"

text \<open>An unanchored regular expression: it matches at some position of the screen.\<close>

fun somewhere :: "(ustr \<Rightarrow> bool) \<Rightarrow> ustr \<Rightarrow> bool" where
  "somewhere P [] \<longleftrightarrow> P []"
| "somewhere P (c # s) \<longleftrightarrow> P (c # s) \<or> somewhere P s"

text \<open>\<open>\\s*\<close> and then a text that does not start with white space.\<close>

definition spaced :: "ustr \<Rightarrow> ustr \<Rightarrow> bool" where
  "spaced s t \<longleftrightarrow> starts_with (dropWhile uspace s) t"

definition claude_selected :: "ustr \<Rightarrow> bool" where
  "claude_selected = somewhere (\<lambda>s. starts_with s [0x276F] \<and> spaced (tl s) (ustr_of ''Yes, I trust this folder''))"

definition codex_selected :: "ustr \<Rightarrow> bool" where
  "codex_selected = somewhere (\<lambda>s. starts_with s [0x203A] \<and> spaced (tl s) (ustr_of ''1.'') \<and>
     (let rest = drop 2 (dropWhile uspace (tl s))
      in spaced rest (ustr_of ''Yes, continue'') \<or> spaced rest (ustr_of ''Trust and continue'')))"

fun TRUST_PROMPTS :: "harness \<Rightarrow> trust_shape" where
  "TRUST_PROMPTS Claude = \<lparr>
     ts_markers = [[ustr_of ''Quick safety check'', ustr_of ''Yes, I trust this folder'']],
     ts_accept = [\<lparr>tm_keys = Some [''Down''], tm_text = None, tm_until = Some claude_selected\<rparr>,
                  \<lparr>tm_keys = Some [''Enter''], tm_text = None, tm_until = None\<rparr>]\<rparr>"
| "TRUST_PROMPTS Codex = \<lparr>
     ts_markers = [[ustr_of ''Do you trust the contents of this directory?'', ustr_of ''Yes, continue''],
                   [ustr_of ''Trust this folder?'', ustr_of ''Trust and continue'']],
     ts_accept = [\<lparr>tm_keys = None, tm_text = Some (ustr_of ''1''), tm_until = Some codex_selected\<rparr>,
                  \<lparr>tm_keys = Some [''Enter''], tm_text = None, tm_until = None\<rparr>]\<rparr>"
| "TRUST_PROMPTS Cursor = \<lparr>
     ts_markers = [[ustr_of ''Workspace Trust Required'', ustr_of ''Trust this workspace'']],
     ts_accept = [\<lparr>tm_keys = None, tm_text = Some (ustr_of ''a''), tm_until = None\<rparr>]\<rparr>"

definition showsTrustPrompt :: "harness \<Rightarrow> ustr \<Rightarrow> bool" where
  "showsTrustPrompt h screen =
     (let flat = collapse screen
      in \<exists>ps\<in>set (ts_markers (TRUST_PROMPTS h)). \<forall>phrase\<in>set ps. contains flat (collapse phrase))"

subsection \<open>Watching and answering\<close>

datatype trust_policy = Accept | Ask

record trust_input =
  ti_harness :: harness
  ti_folder :: string
  ti_pane :: string
  ti_policy :: trust_policy

record trust_opts =
  to_pollMs :: "nat option"
  to_timeoutMs :: "nat option"
  to_stableReads :: "nat option"
  to_blankReads :: "nat option"
  to_keyDelayMs :: "nat option"
  to_attempts :: "nat option"

datatype trust_outcome = TNone | TUnsettled | TAccepted | TNeedsHuman | TStuck

text \<open>The options with their defaults filled in.\<close>

definition pollMs :: "trust_opts \<Rightarrow> nat" where
  "pollMs opts = defaultTo (to_pollMs opts) 500"

definition trustTimeoutMs :: "trust_opts \<Rightarrow> nat" where
  "trustTimeoutMs opts = defaultTo (to_timeoutMs opts) 20000"

definition stableReads :: "trust_opts \<Rightarrow> nat" where
  "stableReads opts = defaultTo (to_stableReads opts) 3"

definition blankReads :: "trust_opts \<Rightarrow> nat" where
  "blankReads opts = defaultTo (to_blankReads opts) 6"

definition keyDelayMs :: "trust_opts \<Rightarrow> nat" where
  "keyDelayMs opts = defaultTo (to_keyDelayMs opts) 1000"

definition trustAttempts :: "trust_opts \<Rightarrow> nat" where
  "trustAttempts opts = defaultTo (to_attempts opts) 5"

definition trust_screen :: "'x adapter \<Rightarrow> string \<Rightarrow> 'x \<Rightarrow> ustr" where
  "trust_screen A pane x = (case ad_read A pane None x of Inl e \<Rightarrow> [] | Inr s \<Rightarrow> defaultTo s [])"

text \<open>\<open>Inr True\<close>: the prompt is shown; \<open>Inr False\<close>: the screen settled without it; \<open>Inl\<close>: neither.\<close>

fun trust_watch ::
  "'x host \<Rightarrow> 'x adapter \<Rightarrow> string \<Rightarrow> harness \<Rightarrow> trust_opts \<Rightarrow> ustr \<Rightarrow> ustr \<Rightarrow> bool \<Rightarrow> nat \<Rightarrow> nat \<Rightarrow> nat \<Rightarrow>
   ('x, unit + bool) op" where
  "trust_watch H A pane h opts first previous changed same waited 0 = throw out_of_fuel"
| "trust_watch H A pane h opts first previous changed same waited (Suc fuel) =
     (if trustTimeoutMs opts \<le> waited then ret (Inl ())
      else andThen (sleep H (pollMs opts)) (\<lambda>_.
           andThen (extGet (trust_screen A pane)) (\<lambda>screen.
           if showsTrustPrompt h screen then ret (Inr True)
           else let changed' = (changed \<or> screen \<noteq> first);
                    same' = (if screen = previous then same + 1 else 1)
                in if changed' \<and> stableReads opts \<le> same' then ret (Inr False)
                   else if \<not> changed' \<and> utrim first = [] \<and> blankReads opts \<le> same' then ret (Inl ())
                   else trust_watch H A pane h opts first screen changed' same' (waited + pollMs opts) fuel)))"

definition pressMove :: "'x host \<Rightarrow> 'x adapter \<Rightarrow> string \<Rightarrow> trust_move \<Rightarrow> ('x, unit) op" where
  "pressMove H A pane m =
     andThen (case tm_keys m of None \<Rightarrow> ret () | Some ks \<Rightarrow> extEff (ad_sendKeys A pane ks)) (\<lambda>_.
     (case tm_text m of None \<Rightarrow> ret () | Some t \<Rightarrow> extEff (ad_sendText A pane t)))"

definition moveDone :: "'x adapter \<Rightarrow> string \<Rightarrow> trust_move \<Rightarrow> bool \<Rightarrow> ('x, bool) op" where
  "moveDone A pane m otherwise = (case tm_until m of
       None \<Rightarrow> ret otherwise
     | Some P \<Rightarrow> extGet (\<lambda>x. P (trust_screen A pane x)))"

fun trust_press :: "'x host \<Rightarrow> 'x adapter \<Rightarrow> string \<Rightarrow> trust_opts \<Rightarrow> trust_move \<Rightarrow> nat \<Rightarrow> ('x, bool) op" where
  "trust_press H A pane opts m 0 = ret False"
| "trust_press H A pane opts m (Suc n) =
     andThen (pressMove H A pane m) (\<lambda>_.
     andThen (sleep H (pollMs opts)) (\<lambda>_.
     andThen (moveDone A pane m True) (\<lambda>d.
     if d then ret True else trust_press H A pane opts m n)))"

fun trust_moves :: "'x host \<Rightarrow> 'x adapter \<Rightarrow> string \<Rightarrow> trust_opts \<Rightarrow> trust_move list \<Rightarrow> ('x, bool) op" where
  "trust_moves H A pane opts [] = ret True"
| "trust_moves H A pane opts (m # ms) =
     andThen (moveDone A pane m False) (\<lambda>d.
     andThen (if d then ret True else trust_press H A pane opts m (trustAttempts opts)) (\<lambda>d'.
     if d' then trust_moves H A pane opts ms else ret False))"

fun trust_clear :: "'x host \<Rightarrow> 'x adapter \<Rightarrow> string \<Rightarrow> harness \<Rightarrow> trust_opts \<Rightarrow> nat \<Rightarrow> ('x, trust_outcome) op" where
  "trust_clear H A pane h opts 0 = ret TStuck"
| "trust_clear H A pane h opts (Suc n) =
     andThen (extGet (trust_screen A pane)) (\<lambda>screen.
     if \<not> showsTrustPrompt h screen then ret TAccepted
     else andThen (sleep H (pollMs opts)) (\<lambda>_. trust_clear H A pane h opts n))"

definition acceptTrust :: "'x host \<Rightarrow> 'x adapter \<Rightarrow> string \<Rightarrow> harness \<Rightarrow> trust_opts \<Rightarrow> ('x, trust_outcome) op" where
  "acceptTrust H A pane h opts =
     andThen (sleep H (keyDelayMs opts)) (\<lambda>_.
     andThen (trust_moves H A pane opts (ts_accept (TRUST_PROMPTS h))) (\<lambda>d.
     if d then trust_clear H A pane h opts (trustAttempts opts) else ret TStuck))"

text \<open>Each round of the watch waits at least a millisecond, so the timeout bounds their number.\<close>

definition answerTrustPrompt :: "'x host \<Rightarrow> 'x adapter \<Rightarrow> string \<Rightarrow> trust_input \<Rightarrow> trust_opts \<Rightarrow> ('x, trust_outcome) op" where
  "answerTrustPrompt H A pane inp opts =
     andThen (extGet (trust_screen A pane)) (\<lambda>first.
     andThen (if showsTrustPrompt (ti_harness inp) first then ret (Inr True)
              else trust_watch H A pane (ti_harness inp) opts first first False 1 0 (trustTimeoutMs opts + 1)) (\<lambda>seen.
     case seen of
       Inl _ \<Rightarrow> ret TUnsettled
     | Inr shown \<Rightarrow>
         if \<not> shown then ret TNone
         else if ti_policy inp = Ask then ret TNeedsHuman
         else acceptTrust H A pane (ti_harness inp) opts))"

lemma trust_watch_returns:
  assumes "0 < pollMs opts"
  shows "0 < fuel \<Longrightarrow> trustTimeoutMs opts < waited + fuel \<Longrightarrow>
    \<not> isl (fst (trust_watch H A pane h opts first previous changed same waited fuel w))"
proof (induction fuel arbitrary: first previous changed same waited w)
  case 0
  then show ?case by simp
next
  case (Suc f)
  show ?case
  proof (cases "trustTimeoutMs opts \<le> waited")
    case True
    then show ?thesis by (simp add: ret_def)
  next
    case False
    with Suc.prems assms have "0 < f" "trustTimeoutMs opts < (waited + pollMs opts) + f" by simp_all
    note IH = Suc.IH [OF this]
    show ?thesis using False by (auto simp: andThen_def sleep_run extGet_run ret_def Let_def IH)
  qed
qed

lemma pres_trust_watch [pres]:
  "sleep_keeps H P \<Longrightarrow> hub_op P (trust_watch H A pane h opts first previous changed same waited fuel)"
  by (induction fuel arbitrary: previous changed same waited) (auto simp: Let_def intro!: pres)

lemma pres_trust_press [pres]: "sleep_keeps H P \<Longrightarrow> hub_op P (trust_press H A pane opts m n)"
  by (induction n) (auto simp: pressMove_def moveDone_def intro!: pres split: option.splits)

lemma pres_trust_moves [pres]: "sleep_keeps H P \<Longrightarrow> hub_op P (trust_moves H A pane opts ms)"
  by (induction ms) (auto simp: moveDone_def intro!: pres split: option.splits)

lemma pres_trust_clear [pres]: "sleep_keeps H P \<Longrightarrow> hub_op P (trust_clear H A pane h opts n)"
  by (induction n) (auto intro!: pres)

lemma pres_answerTrustPrompt [pres]: "sleep_keeps H P \<Longrightarrow> hub_op P (answerTrustPrompt H A pane inp opts)"
  unfolding answerTrustPrompt_def acceptTrust_def by (auto intro!: pres)

subsection \<open>Which keys are pressed\<close>

datatype keypress = Keys "string list" | Typed ustr

definition key_log :: "'x host \<Rightarrow> 'x adapter \<Rightarrow> string \<Rightarrow> ('x \<Rightarrow> keypress list) \<Rightarrow> bool" where
  "key_log H A pane log \<longleftrightarrow>
     (\<forall>ks x. log (snd (ad_sendKeys A pane ks x)) = log x @ [Keys ks]) \<and>
     (\<forall>t x. log (snd (ad_sendText A pane t x)) = log x @ [Typed t]) \<and>
     (\<forall>ms w. log (ext (os_sleep H ms w)) = log (ext w))"

lemma key_logD:
  assumes "key_log H A pane log"
  shows "log (snd (ad_sendKeys A pane ks x)) = log x @ [Keys ks]"
    "log (snd (ad_sendText A pane t x)) = log x @ [Typed t]" "log (ext (os_sleep H ms w)) = log (ext w)"
  using assms by (simp_all add: key_log_def)

lemma key_log_run:
  assumes "key_log H A pane log"
  shows "ad_sendKeys A pane ks x = (q, x') \<Longrightarrow> log x' = log x @ [Keys ks]"
    "ad_sendText A pane t x = (q, x') \<Longrightarrow> log x' = log x @ [Typed t]"
  using key_logD(1) [OF assms, of ks x] key_logD(2) [OF assms, of t x] by simp_all

lemma trust_watch_quiet:
  assumes "key_log H A pane log"
    and "trust_watch H A pane h opts first previous changed same waited fuel w = (r, w')"
  shows "log (ext w') = log (ext w)"
  using assms(2)
proof (induction fuel arbitrary: previous changed same waited w)
  case 0
  then show ?case by (simp add: throw_def)
next
  case (Suc fuel)
  from Suc.prems Suc.IH [of _ _ _ _ "os_sleep H (pollMs opts) w"] show ?case
    by (auto simp: Let_def andThen_def sleep_run extGet_run ret_def key_logD(3) [OF assms(1)] split: if_splits)
qed

definition press_of :: "trust_move \<Rightarrow> keypress list" where
  "press_of m = (case tm_keys m of None \<Rightarrow> [] | Some ks \<Rightarrow> [Keys ks]) @ (case tm_text m of None \<Rightarrow> [] | Some t \<Rightarrow> [Typed t])"

definition until_seen :: "'x adapter \<Rightarrow> string \<Rightarrow> trust_move \<Rightarrow> 'x \<Rightarrow> bool" where
  "until_seen A pane m x = (case tm_until m of None \<Rightarrow> True | Some P \<Rightarrow> P (trust_screen A pane x))"

lemma pressMove_log:
  assumes "key_log H A pane log" "press_of m = [k]" "pressMove H A pane m w = (r, w')"
  shows "log (ext w') = log (ext w) @ [k]"
  using assms(2,3) by (auto dest!: key_log_run [OF assms(1)] simp: press_of_def pressMove_def andThen_def extEff_def ret_def split: option.splits prod.splits sum.splits)

lemma moveDone_run:
  "moveDone A pane m b w = (Inr (case tm_until m of None \<Rightarrow> b | Some P \<Rightarrow> P (trust_screen A pane (ext w))), w)"
  by (simp add: moveDone_def ret_def extGet_run split: option.splits)

lemma trust_press_log:
  assumes "key_log H A pane log" "press_of m = [k]" "trust_press H A pane opts m n w = (r, w')"
  shows "\<exists>i\<le>n. log (ext w') = log (ext w) @ replicate i k \<and> (r = Inr True \<longrightarrow> until_seen A pane m (ext w')) \<and>
    (tm_until m = None \<longrightarrow> i \<le> 1)"
  using assms(3)
proof (induction n arbitrary: w)
  case 0
  then show ?case by (auto simp: ret_def)
next
  case (Suc n)
  obtain q w1 where p: "pressMove H A pane m w = (q, w1)" by fastforce
  have l1: "log (ext w1) = log (ext w) @ [k]" by (rule pressMove_log [OF assms(1,2) p])
  define w2 where "w2 = os_sleep H (pollMs opts) w1"
  have l2: "log (ext w2) = log (ext w) @ [k]" using l1 key_logD(3) [OF assms(1)] by (simp add: w2_def)
  show ?case
  proof (cases "\<exists>e. q = Inl e")
    case True
    with Suc.prems p have "w' = w1" "r \<noteq> Inr True" by (auto simp: andThen_def)
    with l1 show ?thesis by (intro exI [of _ 1]) simp
  next
    case False
    then have q: "q = Inr ()" by (cases q) auto
    define d where "d = until_seen A pane m (ext w2)"
    have run: "(r, w') = (if d then ret True else trust_press H A pane opts m n) w2"
      using Suc.prems p q
      by (auto simp: andThen_def sleep_run moveDone_run d_def until_seen_def simp flip: w2_def split: option.splits if_splits)
    show ?thesis
    proof (cases d)
      case True
      with run have "w' = w2" by (simp add: ret_def)
      with l2 True show ?thesis by (intro exI [of _ 1]) (simp add: d_def)
    next
      case False
      with run have "trust_press H A pane opts m n w2 = (r, w')" by simp
      from Suc.IH [OF this] obtain i where i: "i \<le> n" "log (ext w') = log (ext w2) @ replicate i k"
          "r = Inr True \<longrightarrow> until_seen A pane m (ext w')" by blast
      have "tm_until m \<noteq> None" using False unfolding d_def until_seen_def by (cases "tm_until m") auto
      with i l2 show ?thesis by (intro exI [of _ "Suc i"]) auto
    qed
  qed
qed

definition oneMove :: "'x host \<Rightarrow> 'x adapter \<Rightarrow> string \<Rightarrow> trust_opts \<Rightarrow> trust_move \<Rightarrow> ('x, bool) op" where
  "oneMove H A pane opts m =
     andThen (moveDone A pane m False) (\<lambda>d.
     if d then ret True else trust_press H A pane opts m (trustAttempts opts))"

lemma trust_moves_Cons:
  "trust_moves H A pane opts (m # ms) =
     andThen (oneMove H A pane opts m) (\<lambda>d. if d then trust_moves H A pane opts ms else ret False)"
  by (simp add: oneMove_def andThen_assoc)

lemma oneMove_log:
  assumes "key_log H A pane log" "press_of m = [k]" "oneMove H A pane opts m w = (r, w')"
  shows "\<exists>i\<le>trustAttempts opts. log (ext w') = log (ext w) @ replicate i k \<and>
    (r = Inr True \<longrightarrow> until_seen A pane m (ext w')) \<and> (tm_until m = None \<longrightarrow> i \<le> 1)"
proof (cases "tm_until m \<noteq> None \<and> until_seen A pane m (ext w)")
  case True
  with assms(3) have "w' = w" "r = Inr True"
    by (auto simp: oneMove_def andThen_def moveDone_run ret_def until_seen_def)
  with True show ?thesis by (intro exI [of _ 0]) simp
next
  case False
  then have "trust_press H A pane opts m (trustAttempts opts) w = (r, w')"
    using assms(3) by (auto simp: oneMove_def andThen_def moveDone_run until_seen_def split: option.splits)
  from trust_press_log [OF assms(1,2) this] show ?thesis .
qed

lemma trust_clear_run:
  assumes "key_log H A pane log" "trust_clear H A pane h opts n w = (r, w')"
  shows "log (ext w') = log (ext w) \<and> (r = Inr TStuck \<or> r = Inr TAccepted \<and> \<not> showsTrustPrompt h (trust_screen A pane (ext w')))"
  using assms(2)
proof (induction n arbitrary: w)
  case 0
  then show ?case by (simp add: ret_def)
next
  case (Suc n)
  from Suc.prems Suc.IH [of "os_sleep H (pollMs opts) w"] show ?case
    by (auto simp: andThen_def extGet_run sleep_run ret_def key_logD(3) [OF assms(1)] split: if_splits)
qed

text \<open>The two moves that accept the prompt of Claude Code.\<close>

definition claude_moves :: "trust_move list" where
  "claude_moves = ts_accept (TRUST_PROMPTS Claude)"

lemma claude_keys:
  fixes H :: "'x host"
  assumes "key_log H A pane log" "trust_moves H A pane opts claude_moves w = (r, w')"
  shows "\<exists>i\<le>trustAttempts opts. \<exists>j\<le>1. log (ext w') = log (ext w) @ replicate i (Keys [''Down'']) @ replicate j (Keys [''Enter'']) \<and>
    (j = 1 \<longrightarrow> (\<exists>w1 :: 'x world. log (ext w1) = log (ext w) @ replicate i (Keys [''Down'']) \<and> claude_selected (trust_screen A pane (ext w1))))"
proof -
  define m where "m = \<lparr>tm_keys = Some [''Down''], tm_text = None, tm_until = Some claude_selected\<rparr>"
  define e where "e = \<lparr>tm_keys = Some [''Enter''], tm_text = None, tm_until = (None :: (ustr \<Rightarrow> bool) option)\<rparr>"
  have moves: "claude_moves = [m, e]" by (simp add: claude_moves_def m_def e_def)
  have pm: "press_of m = [Keys [''Down'']]" and pe: "press_of e = [Keys [''Enter'']]"
    by (simp_all add: press_of_def m_def e_def)
  obtain q w1 where 1: "oneMove H A pane opts m w = (q, w1)" by fastforce
  obtain i where i: "i \<le> trustAttempts opts" "log (ext w1) = log (ext w) @ replicate i (Keys [''Down''])"
      "q = Inr True \<longrightarrow> until_seen A pane m (ext w1)"
    using oneMove_log [OF assms(1) pm 1] by blast
  show ?thesis
  proof (cases "q = Inr True")
    case False
    then have "w' = w1" using assms(2) 1
      by (cases q) (auto simp: moves trust_moves_Cons andThen_def ret_def simp del: trust_moves.simps(2))
    with i show ?thesis by - (rule exI [of _ i], auto intro!: exI [of _ 0])
  next
    case True
    obtain q' w2 where 2: "oneMove H A pane opts e w1 = (q', w2)" by fastforce
    obtain j where j: "j \<le> 1" "log (ext w2) = log (ext w1) @ replicate j (Keys [''Enter''])"
      using oneMove_log [OF assms(1) pe 2] by (auto simp: e_def)
    have "w' = w2" using assms(2) 1 2 True
      by (cases q') (auto simp: moves trust_moves_Cons andThen_def ret_def simp del: trust_moves.simps(2) split: if_splits)
    moreover have "\<exists>v :: 'x world. log (ext v) = log (ext w) @ replicate i (Keys [''Down'']) \<and> claude_selected (trust_screen A pane (ext v))"
      using i(2,3) True by (intro exI [of _ w1]) (simp add: until_seen_def m_def)
    ultimately show ?thesis using i j
      by - (rule exI [of _ i], auto intro!: exI [of _ j])
  qed
qed

text \<open>
  C24. Trust is never given by accident. A spawn that must ask presses no key in the pane, and none is
  pressed when the watch ends without a prompt. Answering Claude Code's prompt, whose focused option is
  to exit, presses Down a bounded number of times and Enter at most once, and Enter only after the screen
  showed the trusting option selected. It reports the prompt accepted only when the screen no longer
  shows it.
\<close>
theorem trust_never_by_accident:
  fixes H :: "'x host"
  assumes "key_log H A pane log" "answerTrustPrompt H A pane inp opts w = (r, w')"
  shows "(ti_policy inp = Ask \<or> r = Inr TNone \<or> r = Inr TUnsettled \<longrightarrow> log (ext w') = log (ext w)) \<and>
    (ti_harness inp = Claude \<longrightarrow> (\<exists>i\<le>trustAttempts opts. \<exists>j\<le>1.
       log (ext w') = log (ext w) @ replicate i (Keys [''Down'']) @ replicate j (Keys [''Enter'']) \<and>
       (j = 1 \<longrightarrow> (\<exists>w1 :: 'x world. log (ext w1) = log (ext w) @ replicate i (Keys [''Down'']) \<and>
          claude_selected (trust_screen A pane (ext w1)))))) \<and>
    (r = Inr TAccepted \<longrightarrow> ti_policy inp = Accept \<and> \<not> showsTrustPrompt (ti_harness inp) (trust_screen A pane (ext w')))"
proof -
  let ?h = "ti_harness inp" and ?first = "trust_screen A pane (ext w)"
  define watch where "watch = (if showsTrustPrompt ?h ?first then ret (Inr True)
              else trust_watch H A pane ?h opts ?first ?first False 1 0 (trustTimeoutMs opts + 1))"
  obtain s w1 where s: "watch w = (s, w1)" by fastforce
  have l1: "log (ext w1) = log (ext w)"
    using s trust_watch_quiet [OF assms(1)] by (cases "showsTrustPrompt ?h ?first") (auto simp: watch_def ret_def simp del: trust_watch.simps)
  have run: "(r, w') = (case s of Inl e \<Rightarrow> (Inl e, w1) | Inr (Inl _) \<Rightarrow> (Inr TUnsettled, w1)
     | Inr (Inr shown) \<Rightarrow> if \<not> shown then (Inr TNone, w1) else if ti_policy inp = Ask then (Inr TNeedsHuman, w1)
         else acceptTrust H A pane ?h opts w1)"
    using assms(2) s
    unfolding answerTrustPrompt_def andThen_def extGet_run prod.case sum.case watch_def [symmetric]
    by (auto simp: ret_def split: sum.splits if_splits)
  show ?thesis
  proof (cases "s = Inr (Inr True) \<and> ti_policy inp = Accept")
    case False
    have "ti_policy inp = Accept \<or> ti_policy inp = Ask" by (cases "ti_policy inp") auto
    with False run have "w' = w1" "r \<noteq> Inr TAccepted" by (auto split: sum.splits if_splits)
    with l1 show ?thesis by (auto intro!: exI [of _ 0])
  next
    case True
    with run have acc: "acceptTrust H A pane ?h opts w1 = (r, w')" by simp
    define w2 where "w2 = os_sleep H (keyDelayMs opts) w1"
    have l2: "log (ext w2) = log (ext w)" using l1 key_logD(3) [OF assms(1)] by (simp add: w2_def)
    obtain d w3 where d: "trust_moves H A pane opts (ts_accept (TRUST_PROMPTS ?h)) w2 = (d, w3)" by fastforce
    have fin: "(r, w') = (case d of Inl e \<Rightarrow> (Inl e, w3)
       | Inr b \<Rightarrow> if b then trust_clear H A pane ?h opts (trustAttempts opts) w3 else (Inr TStuck, w3))"
      using acc d by (auto simp: acceptTrust_def andThen_def sleep_run ret_def simp flip: w2_def split: sum.splits if_splits)
    have clear: "log (ext w') = log (ext w3) \<and> r \<noteq> Inr TNone \<and> r \<noteq> Inr TUnsettled \<and>
        (r = Inr TAccepted \<longrightarrow> \<not> showsTrustPrompt ?h (trust_screen A pane (ext w')))"
      using fin trust_clear_run [OF assms(1), of ?h opts "trustAttempts opts" w3 r w']
      by (cases d) (auto split: if_splits)
    have claude: "\<exists>i\<le>trustAttempts opts. \<exists>j\<le>1.
       log (ext w') = log (ext w) @ replicate i (Keys [''Down'']) @ replicate j (Keys [''Enter'']) \<and>
       (j = 1 \<longrightarrow> (\<exists>w1 :: 'x world. log (ext w1) = log (ext w) @ replicate i (Keys [''Down'']) \<and>
          claude_selected (trust_screen A pane (ext w1))))" if "?h = Claude"
    proof -
      have "trust_moves H A pane opts claude_moves w2 = (d, w3)" using d that by (simp add: claude_moves_def)
      from claude_keys [OF assms(1) this] clear l2 show ?thesis by simp
    qed
    have "\<not> (ti_policy inp = Ask \<or> r = Inr TNone \<or> r = Inr TUnsettled)" using clear True by auto
    with claude clear True show ?thesis by blast
  qed
qed

text \<open>A Claude Code dialog, whose outside world is the keys pressed so far.\<close>

definition asking :: ustr where
  "asking = ustr_of ''Quick safety check: Yes, I trust this folder''"

definition chosen :: ustr where
  "chosen = ustr_of ''Quick safety check: '' @ [0x276F, 32] @ ustr_of ''Yes, I trust this folder''"

definition dialog_adapter :: "keypress list adapter" where
  "dialog_adapter = (quiet_adapter ''tmux'')\<lparr>
     ad_read := (\<lambda>p n x. Inr (Some (if x = [] then asking else if length x = 1 then chosen else []))),
     ad_sendKeys := (\<lambda>p ks x. (Inr (), x @ [Keys ks])),
     ad_sendText := (\<lambda>p t x. (Inr (), x @ [Typed t]))\<rparr>"

definition dialog_host :: "keypress list host" where
  "dialog_host = quiet_host"

definition dialog_world :: "keypress list world" where
  "dialog_world = \<lparr>hub = empty_hub ''/hub'', ext = []\<rparr>"

definition dialog_input :: trust_input where
  "dialog_input = \<lparr>ti_harness = Claude, ti_folder = ''/r'', ti_pane = ''%3'', ti_policy = Accept\<rparr>"

definition plain_opts :: trust_opts where
  "plain_opts = \<lparr>to_pollMs = None, to_timeoutMs = None, to_stableReads = None, to_blankReads = None,
     to_keyDelayMs = None, to_attempts = Some 2\<rparr>"

lemma dialog_simps [simp]:
  "os_sleep dialog_host ms w = w"
  "trust_screen dialog_adapter p x = (if x = [] then asking else if length x = 1 then chosen else [])"
  "ad_sendKeys dialog_adapter p ks x = (Inr (), x @ [Keys ks])"
  by (simp_all add: dialog_host_def quiet_host_def dialog_adapter_def trust_screen_def)

lemma dialog_shows:
  "showsTrustPrompt Claude asking" "showsTrustPrompt Claude chosen" "\<not> showsTrustPrompt Claude []"
  by (simp_all add: showsTrustPrompt_def asking_def chosen_def ustr_of_def uspace_def starts_with_def)

lemma dialog_selected: "\<not> claude_selected asking" "claude_selected chosen"
  by (simp_all add: claude_selected_def spaced_def asking_def chosen_def ustr_of_def uspace_def starts_with_def)

theorem trust_never_by_accident_witness:
  "\<exists>w'. answerTrustPrompt dialog_host dialog_adapter ''%3'' dialog_input plain_opts dialog_world = (Inr TAccepted, w') \<and>
     ext w' = [Keys [''Down''], Keys [''Enter'']] \<and>
     \<not> showsTrustPrompt Claude (trust_screen dialog_adapter ''%3'' (ext w')) \<and>
     (\<exists>w1 :: keypress list world. ext w1 = [Keys [''Down'']] \<and> claude_selected (trust_screen dialog_adapter ''%3'' (ext w1)))"
proof -
  have l: "key_log dialog_host dialog_adapter ''%3'' (\<lambda>x. x)"
    by (simp add: key_log_def) (simp add: dialog_adapter_def)
  have run: "answerTrustPrompt dialog_host dialog_adapter ''%3'' dialog_input plain_opts dialog_world =
      (Inr TAccepted, dialog_world\<lparr>ext := [Keys [''Down''], Keys [''Enter'']]\<rparr>)"
    by (simp add: answerTrustPrompt_def acceptTrust_def dialog_input_def dialog_world_def pressMove_def moveDone_def
        trustAttempts_def plain_opts_def dialog_shows dialog_selected andThen_def eff_simps extGet_run sleep_run
        numeral_2_eq_2 del: trust_watch.simps)
  have "\<exists>i\<le>trustAttempts plain_opts. \<exists>j\<le>1.
       ext (dialog_world\<lparr>ext := [Keys [''Down''], Keys [''Enter'']]\<rparr>)
         = ext dialog_world @ replicate i (Keys [''Down'']) @ replicate j (Keys [''Enter'']) \<and>
       (j = 1 \<longrightarrow> (\<exists>w1 :: keypress list world. ext w1 = ext dialog_world @ replicate i (Keys [''Down'']) \<and>
          claude_selected (trust_screen dialog_adapter ''%3'' (ext w1))))"
    and gone: "\<not> showsTrustPrompt Claude (trust_screen dialog_adapter ''%3''
        (ext (dialog_world\<lparr>ext := [Keys [''Down''], Keys [''Enter'']]\<rparr>)))"
    using trust_never_by_accident [OF l run] by (simp_all add: dialog_input_def)
  then obtain i j where ij: "j \<le> 1" "[Keys [''Down''], Keys [''Enter'']] = replicate i (Keys [''Down'']) @ replicate j (Keys [''Enter''])"
      "j = 1 \<longrightarrow> (\<exists>w1 :: keypress list world. ext w1 = replicate i (Keys [''Down'']) \<and>
          claude_selected (trust_screen dialog_adapter ''%3'' (ext w1)))"
    by (auto simp: dialog_world_def)
  have j: "j = 1"
  proof (rule ccontr)
    assume "j \<noteq> 1"
    with ij(1,2) have "[Keys [''Down''], Keys [''Enter'']] = replicate i (Keys [''Down''])" by simp
    then have "Keys [''Enter''] \<in> set (replicate i (Keys [''Down'']))" by (metis list.set_intros)
    then show False by simp
  qed
  have "length [Keys [''Down''], Keys [''Enter'']] = length (replicate i (Keys [''Down'']) @ replicate j (Keys [''Enter'']))"
    using ij(2) by (rule arg_cong)
  with j have "i + 1 = 2" by simp
  then have "i = 1" by simp
  with ij(3) j run gone show ?thesis by (simp add: dialog_world_def)
qed

end
