(* ===== verification/Doorbell.thy ===== *)
theory Doorbell
  imports Identity PromptGuard Ring Trust
begin

text \<open>
  \<open>console/doorbell.ts\<close>: the texts a ring types, recognising one's own ring in an input box, and waking
  the recipient of a delivered message or a spawned unit. The texts of warnings are not modelled: a
  warning is the error it reports.
\<close>

subsection \<open>The texts\<close>

definition DELIVERY_DOORBELL :: ustr where
  "DELIVERY_DOORBELL = ustr_of ''You have unread mail '' @ [0x2014] @ ustr_of '' check your inbox.''"

definition spawnDoorbell :: "string \<Rightarrow> ustr" where
  "spawnDoorbell briefPath = ustr_of ''Read your brief at '' @ ustr_of briefPath @ ustr_of '', then begin work.''"

definition resumeDoorbell :: "string \<Rightarrow> ustr" where
  "resumeDoorbell briefPath =
     ustr_of ''Your session was restarted with its conversation resumed '' @ [0x2014] @
     ustr_of '' continue your work. If you have no earlier conversation, read your brief at '' @
     ustr_of briefPath @ ustr_of '', then begin work.''"

text \<open>A regular expression \<open>/^a.+b$/\<close> on a text without white space.\<close>

definition frames :: "ustr \<Rightarrow> ustr \<Rightarrow> ustr \<Rightarrow> bool" where
  "frames a b s \<longleftrightarrow> starts_with s a \<and> ends_with s b \<and> length a + length b < length s"

definition SPAWN_DOORBELL :: "ustr \<Rightarrow> bool" where
  "SPAWN_DOORBELL = frames (ustr_of ''Readyourbriefat'') (ustr_of '',thenbeginwork.'')"

definition RESUME_DOORBELL :: "ustr \<Rightarrow> bool" where
  "RESUME_DOORBELL = frames
     (ustr_of ''Yoursessionwasrestartedwithitsconversationresumed'' @ [0x2014] @
      ustr_of ''continueyourwork.Ifyouhavenoearlierconversation,readyourbriefat'')
     (ustr_of '',thenbeginwork.'')"

definition isRingText :: "ustr \<Rightarrow> ustr option \<Rightarrow> bool" where
  "isRingText text message =
     (let box = squeeze text
      in box \<noteq> [] \<and>
         (box = squeeze DELIVERY_DOORBELL \<or> SPAWN_DOORBELL box \<or> RESUME_DOORBELL box \<or>
          (case message of None \<Rightarrow> False | Some m \<Rightarrow> box = squeeze m)))"

definition SPAWN_NUDGE_OPTS :: ring_opts where
  "SPAWN_NUDGE_OPTS = \<lparr>ro_attempts = Some 20, ro_settleMs = Some 400, ro_requirePosted = False\<rparr>"

definition NUDGE_OPTS :: ring_opts where
  "NUDGE_OPTS = \<lparr>ro_attempts = None, ro_settleMs = None, ro_requirePosted = False\<rparr>"

subsection \<open>Results\<close>

datatype wake_warning =
    RingFailed error
  | HomeFailed string error
  | TrustBlocked trust_outcome
  | Both wake_warning wake_warning

text \<open>\<open>session.ts\<close>'s \<open>FirstTurn\<close> and \<open>presence-spawn.ts\<close>'s \<open>PresenceSpawn\<close>, which a wake is given.\<close>

record first_turn =
  ft_rung :: bool
  ft_warning :: "wake_warning option"
  ft_trust :: trust_outcome

definition trust_blocked :: "trust_outcome \<Rightarrow> bool" where
  "trust_blocked t \<longleftrightarrow> t = TNeedsHuman \<or> t = TStuck"

datatype presence_spawn =
    Existing agent
  | SpawnedPresence agent string bool first_turn

record wake_input =
  wk_toId :: string
  wk_fromId :: string
  wk_noNudge :: bool

record wake_result =
  wr_rung :: bool
  wr_spawned :: "string option"
  wr_pane :: "string option"
  wr_warning :: "wake_warning option"

definition not_rung :: wake_result where
  "not_rung = \<lparr>wr_rung = False, wr_spawned = None, wr_pane = None, wr_warning = None\<rparr>"

definition paneOf :: "string \<Rightarrow> hub \<Rightarrow> error + string option" where
  "paneOf i h = (case getAgent i h of
       Inl e \<Rightarrow> Inl e
     | Inr rec \<Rightarrow> Inr (case rec of
           None \<Rightarrow> findPaneByAgentId i h
         | Some a \<Rightarrow> (case a_pane a of Some p \<Rightarrow> Some (pn_id p) | None \<Rightarrow> findPaneByAgentId i h)))"

definition homeSpawnWarning :: "string \<Rightarrow> error \<Rightarrow> wake_warning" where
  "homeSpawnWarning handle e = HomeFailed handle e"

subsection \<open>Waking a recipient\<close>

definition focusProbe :: "('x, 'x adapter) op \<Rightarrow> string \<Rightarrow> ('x, bool option) op" where
  "focusProbe getAdapter pane =
     andThen (tryE (andThen getAdapter (\<lambda>A. reads (\<lambda>w. ad_isPaneFocused A pane (ext w))))) (\<lambda>r.
     ret (case r of Inl e \<Rightarrow> None | Inr f \<Rightarrow> f))"

definition ringPane :: "'x host \<Rightarrow> ('x, 'x adapter) op \<Rightarrow> ring_opts \<Rightarrow> guard_opts \<Rightarrow> string \<Rightarrow> ('x, wake_result) op" where
  "ringPane H getAdapter nudge guard pane =
     andThen (tryE (andThen getAdapter (\<lambda>A.
       withDraftGuard H A pane (ringTurn H A pane DELIVERY_DOORBELL nudge) guard))) (\<lambda>r.
     ret (case r of
         Inr k \<Rightarrow> \<lparr>wr_rung = True, wr_spawned = None, wr_pane = Some pane, wr_warning = None\<rparr>
       | Inl e \<Rightarrow> \<lparr>wr_rung = False, wr_spawned = None, wr_pane = Some pane, wr_warning = Some (RingFailed e)\<rparr>))"

definition ringResolved ::
  "'x host \<Rightarrow> ('x, 'x adapter) op \<Rightarrow> ring_opts \<Rightarrow> guard_opts \<Rightarrow> string \<Rightarrow> string option \<Rightarrow> bool \<Rightarrow> ('x, wake_result) op" where
  "ringResolved H getAdapter nudge guard fromId pane focusGated =
     (case truthy pane of
        None \<Rightarrow> ret not_rung
      | Some p \<Rightarrow>
          andThen (hubRead (paneOf fromId)) (\<lambda>sender.
          if sender = Some p then ret not_rung
          else andThen (if focusGated then focusProbe getAdapter p else ret None) (\<lambda>focused.
               if focused = Some False then ret (not_rung\<lparr>wr_pane := Some p\<rparr>)
               else ringPane H getAdapter nudge guard p)))"

definition withWarning :: "wake_warning option \<Rightarrow> wake_result \<Rightarrow> wake_result" where
  "withWarning warn r = (case warn of
       None \<Rightarrow> r
     | Some x \<Rightarrow> r\<lparr>wr_warning := Some (case wr_warning r of None \<Rightarrow> x | Some y \<Rightarrow> Both x y)\<rparr>)"

text \<open>A guard for the harness of whoever is rung; \<open>None\<close> is the human's own main pane.\<close>

definition ringGuard :: "guard_opts \<Rightarrow> harness option \<Rightarrow> guard_opts" where
  "ringGuard guard h = guard\<lparr>go_harness := h, go_ownText := (\<lambda>t. isRingText t None)\<rparr>"

definition ringStanding ::
  "'x host \<Rightarrow> ('x, 'x adapter) op \<Rightarrow> ring_opts \<Rightarrow> guard_opts \<Rightarrow> string \<Rightarrow> agent option \<Rightarrow> wake_warning option \<Rightarrow>
   ('x, wake_result) op" where
  "ringStanding H getAdapter nudge guard fromId presenceUnit warn =
     andThen (case presenceUnit of
         Some u \<Rightarrow>
           andThen (hubRead (paneOf (a_id u))) (\<lambda>pane.
           ringResolved H getAdapter nudge (ringGuard guard (a_harness u)) fromId pane False)
       | None \<Rightarrow>
           andThen (hubGet getMainPane) (\<lambda>pane.
           ringResolved H getAdapter nudge (ringGuard guard None) fromId pane True)) (\<lambda>r.
     ret (withWarning warn r))"

text \<open>What a spawn into the owner's home means for the wake.\<close>

definition afterHomeSpawn ::
  "'x host \<Rightarrow> ('x, 'x adapter) op \<Rightarrow> ring_opts \<Rightarrow> guard_opts \<Rightarrow> string \<Rightarrow> agent \<Rightarrow> error + presence_spawn \<Rightarrow>
   ('x, wake_result) op" where
  "afterHomeSpawn H getAdapter nudge guard fromId owner outcome = (case outcome of
       Inl e \<Rightarrow> ringStanding H getAdapter nudge guard fromId None (Some (homeSpawnWarning (a_handle owner) e))
     | Inr (Existing u) \<Rightarrow> ringStanding H getAdapter nudge guard fromId (Some u) None
     | Inr (SpawnedPresence u pane unbound turn) \<Rightarrow>
         ret \<lparr>wr_rung = ft_rung turn, wr_spawned = Some (a_id u), wr_pane = Some pane,
              wr_warning = (if trust_blocked (ft_trust turn) then Some (TrustBlocked (ft_trust turn)) else ft_warning turn)\<rparr>)"

definition wakeRecipient ::
  "'x host \<Rightarrow> ('x, 'x adapter) op \<Rightarrow> (agent \<Rightarrow> ('x, presence_spawn) op) option \<Rightarrow> wake_input \<Rightarrow>
   ring_opts \<Rightarrow> guard_opts \<Rightarrow> ('x, wake_result) op" where
  "wakeRecipient H getAdapter spawnHome inp nudge guard =
     (if wk_noNudge inp then ret not_rung
      else andThen (hubRead (getAgent (wk_toId inp))) (\<lambda>found.
      case found of
        None \<Rightarrow> ret not_rung
      | Some recipient \<Rightarrow>
          if a_kind recipient = Some StandingKind
          then andThen (hubRead (presenceOf recipient)) (\<lambda>presenceUnit.
               case spawnHome of
                 None \<Rightarrow> ringStanding H getAdapter nudge guard (wk_fromId inp) presenceUnit None
               | Some spawn \<Rightarrow>
                   if presenceUnit = None \<and> a_home recipient \<noteq> None
                   then andThen (tryE (spawn recipient)) (afterHomeSpawn H getAdapter nudge guard (wk_fromId inp) recipient)
                   else ringStanding H getAdapter nudge guard (wk_fromId inp) presenceUnit None)
          else andThen (hubRead (paneOf (a_id recipient))) (\<lambda>pane.
               ringResolved H getAdapter nudge (ringGuard guard (a_harness recipient)) (wk_fromId inp) pane False)))"

subsection \<open>Waking a spawned unit\<close>

record wake_spawn_input =
  ws_target :: string
  ws_briefPath :: string
  ws_noWake :: bool
  ws_resumed :: bool
  ws_harness :: "harness option"

definition wakeSpawn :: "'x host \<Rightarrow> ('x, 'x adapter) op \<Rightarrow> wake_spawn_input \<Rightarrow> ring_opts \<Rightarrow> guard_opts \<Rightarrow> ('x, wake_result) op" where
  "wakeSpawn H getAdapter inp nudge guard =
     (if ws_noWake inp then ret not_rung
      else andThen (tryE (andThen getAdapter (\<lambda>A.
             let doorbell = (if ws_resumed inp then resumeDoorbell else spawnDoorbell) (ws_briefPath inp)
             in withDraftGuard H A (ws_target inp)
                  (ringTurn H A (ws_target inp) doorbell (nudge\<lparr>ro_requirePosted := True\<rparr>))
                  (ringGuard guard (ws_harness inp))))) (\<lambda>r.
           ret (case r of
               Inr k \<Rightarrow> \<lparr>wr_rung = True, wr_spawned = None, wr_pane = Some (ws_target inp), wr_warning = None\<rparr>
             | Inl e \<Rightarrow> \<lparr>wr_rung = False, wr_spawned = None, wr_pane = Some (ws_target inp), wr_warning = Some (RingFailed e)\<rparr>)))"

lemma pres_ringPane [pres]: "sleep_keeps H P \<Longrightarrow> hub_op P getAdapter \<Longrightarrow> hub_op P (ringPane H getAdapter nudge guard pane)"
  unfolding ringPane_def by (intro pres)

lemma pres_ringResolved [pres]:
  "sleep_keeps H P \<Longrightarrow> hub_op P getAdapter \<Longrightarrow> hub_op P (ringResolved H getAdapter nudge guard fromId pane gated)"
  unfolding ringResolved_def focusProbe_def by (intro pres)

lemma pres_ringStanding [pres]:
  "sleep_keeps H P \<Longrightarrow> hub_op P getAdapter \<Longrightarrow> hub_op P (ringStanding H getAdapter nudge guard fromId u warn)"
  unfolding ringStanding_def by (intro pres)

lemma pres_afterHomeSpawn [pres]:
  "sleep_keeps H P \<Longrightarrow> hub_op P getAdapter \<Longrightarrow> hub_op P (afterHomeSpawn H getAdapter nudge guard fromId owner outcome)"
  unfolding afterHomeSpawn_def by (auto intro!: pres split: sum.splits presence_spawn.splits)

lemma pres_wakeRecipient [pres]:
  assumes "sleep_keeps H P" "hub_op P getAdapter" "\<And>f a. spawnHome = Some f \<Longrightarrow> hub_op P (f a)"
  shows "hub_op P (wakeRecipient H getAdapter spawnHome inp nudge guard)"
proof (cases spawnHome)
  case None
  show ?thesis unfolding wakeRecipient_def None option.case by (intro pres assms(1,2))
next
  case (Some f)
  have "hub_op P (f a)" for a using assms(3) Some by blast
  then show ?thesis unfolding wakeRecipient_def Some option.case by (intro pres assms(1,2))
qed

lemma pres_wakeSpawn [pres]: "sleep_keeps H P \<Longrightarrow> hub_op P getAdapter \<Longrightarrow> hub_op P (wakeSpawn H getAdapter inp nudge guard)"
  unfolding wakeSpawn_def by (intro pres)

text \<open>No other process writes the hub while this one sleeps.\<close>

definition alone :: "'x host \<Rightarrow> bool" where
  "alone H \<longleftrightarrow> (\<forall>ms w. hub (os_sleep H ms w) = hub w)"

lemma alone_sleep_keeps: "alone H \<Longrightarrow> sleep_keeps H P"
  by (simp add: alone_def sleep_keeps_def)

lemma wakeSpawn_run:
  assumes "alone H" "keeps hub getAdapter"
  obtains k v where "wakeSpawn H getAdapter inp nudge guard w = (Inr k, v)" "hub v = hub w"
proof -
  have p: "hub_op (\<lambda>h. h = hub w) (wakeSpawn H getAdapter inp nudge guard)"
    by (rule pres_wakeSpawn) (use assms in \<open>simp_all add: alone_sleep_keeps keeps_preserves\<close>)
  obtain q v where run: "wakeSpawn H getAdapter inp nudge guard w = (q, v)" by fastforce
  then have "\<exists>k. q = Inr k"
    by (auto simp: wakeSpawn_def andThen_def tryE_def ret_def split: if_splits prod.splits sum.splits)
  with run preservesD [OF p refl run] that show thesis by blast
qed

subsection \<open>A wake never fails a send\<close>

text \<open>On a well-formed hub the operation returns, and leaves a well-formed hub.\<close>

named_theorems total "an operation returns on a well-formed hub"

definition total_op :: "('x, 'a) op \<Rightarrow> bool" where
  "total_op m \<longleftrightarrow> (\<forall>w. hub_wf (hub w) \<longrightarrow> (\<exists>r w'. m w = (Inr r, w') \<and> hub_wf (hub w')))"

lemma total_opD:
  assumes "total_op m" "hub_wf (hub w)"
  obtains r w' where "m w = (Inr r, w')" "hub_wf (hub w')"
  using assms unfolding total_op_def by blast

lemma total_ret [total]: "total_op (ret x)"
  by (simp add: total_op_def ret_def)

lemma total_andThen [total]:
  assumes "total_op m" "\<And>x. total_op (f x)"
  shows "total_op (andThen m f)"
  unfolding total_op_def
proof (intro allI impI)
  fix w :: "'a world"
  assume "hub_wf (hub w)"
  then obtain x w1 where 1: "m w = (Inr x, w1)" "hub_wf (hub w1)" by (rule total_opD [OF assms(1)])
  obtain y w2 where "f x w1 = (Inr y, w2)" "hub_wf (hub w2)" by (rule total_opD [OF assms(2) 1(2)])
  with 1(1) show "\<exists>r w'. andThen m f w = (Inr r, w') \<and> hub_wf (hub w')" by (simp add: andThen_def)
qed

lemma total_tryE [total]: "wf_op m \<Longrightarrow> total_op (tryE m)"
  by (force simp: total_op_def tryE_def preserves_def split: prod.splits)

lemma total_hubGet [total]: "total_op (hubGet f)"
  by (simp add: total_op_def hubGet_run)

lemma total_hubRead: "(\<And>h. hub_wf h \<Longrightarrow> \<exists>r. f h = Inr r) \<Longrightarrow> total_op (hubRead f)"
  by (force simp: total_op_def hubRead_run)

lemma total_if [total]: "total_op m \<Longrightarrow> total_op n \<Longrightarrow> total_op (if b then m else n)"
  by simp

lemma total_option [total]:
  "total_op m \<Longrightarrow> (\<And>x. total_op (f x)) \<Longrightarrow> total_op (case a of None \<Rightarrow> m | Some x \<Rightarrow> f x)"
  by (simp split: option.split)

lemma total_getAgent [total]: "total_op (hubRead (getAgent i))"
  by (rule total_hubRead) (rule getAgent_wf_total)

lemma total_paneOf [total]: "total_op (hubRead (paneOf i))"
proof (rule total_hubRead)
  fix h assume "hub_wf h"
  then obtain r where "getAgent i h = Inr r" using getAgent_wf_total by blast
  then show "\<exists>p. paneOf i h = Inr p" by (simp add: paneOf_def)
qed

lemma total_presenceOf [total]: "total_op (hubRead (presenceOf rec))"
proof (rule total_hubRead)
  fix h assume "hub_wf h"
  show "\<exists>r. presenceOf rec h = Inr r"
  proof (cases "truthy (a_presence rec)")
    case (Some p)
    obtain r where "getAgent p h = Inr r" using getAgent_wf_total [OF \<open>hub_wf h\<close>] by blast
    with Some show ?thesis by (cases r) (simp_all add: presenceOf_def)
  qed (simp add: presenceOf_def)
qed

lemma total_ringPane [total]: "others_wf H \<Longrightarrow> wf_op getAdapter \<Longrightarrow> total_op (ringPane H getAdapter nudge guard pane)"
  unfolding ringPane_def by (intro total pres)

lemma total_ringResolved [total]:
  "others_wf H \<Longrightarrow> wf_op getAdapter \<Longrightarrow> total_op (ringResolved H getAdapter nudge guard fromId pane gated)"
  unfolding ringResolved_def focusProbe_def by (intro total pres)

lemma total_ringStanding [total]:
  "others_wf H \<Longrightarrow> wf_op getAdapter \<Longrightarrow> total_op (ringStanding H getAdapter nudge guard fromId u warn)"
  unfolding ringStanding_def by (intro total)

lemma total_afterHomeSpawn [total]:
  "others_wf H \<Longrightarrow> wf_op getAdapter \<Longrightarrow> total_op (afterHomeSpawn H getAdapter nudge guard fromId owner outcome)"
  unfolding afterHomeSpawn_def by (auto intro!: total split: sum.split presence_spawn.split)

text \<open>A ring names the pane it went to, and that pane is not the sender's.\<close>

definition ring_of :: "string \<Rightarrow> hub \<Rightarrow> wake_result \<Rightarrow> bool" where
  "ring_of fromId h r \<longleftrightarrow> wr_rung r \<longrightarrow> (\<exists>p. wr_pane r = Some p \<and> paneOf fromId h \<noteq> Inr (Some p))"

lemma ringResolved_of:
  assumes "hub_op (\<lambda>h. h = g) getAdapter" "hub w = g"
    and "ringResolved H getAdapter nudge guard fromId pane gated w = (Inr r, w')"
  shows "ring_of fromId g r"
proof (cases "truthy pane")
  case None
  with assms(3) show ?thesis by (auto simp: ringResolved_def ret_def ring_of_def not_rung_def)
next
  case (Some p)
  obtain sender where s: "paneOf fromId g = Inr sender"
    using assms(2,3) Some by (cases "paneOf fromId g") (auto simp: ringResolved_def andThen_def hubRead_run)
  show ?thesis
  proof (cases "sender = Some p")
    case True
    with assms(2,3) Some s show ?thesis
      by (auto simp: ringResolved_def andThen_def hubRead_run ret_def ring_of_def not_rung_def)
  next
    case False
    have "wr_rung r \<Longrightarrow> wr_pane r = Some p"
      using assms(2,3) Some s False
      by (auto simp: ringResolved_def andThen_def hubRead_run ret_def not_rung_def ringPane_def tryE_def
          split: prod.splits sum.splits if_splits)
    with False s show ?thesis by (auto simp: ring_of_def)
  qed
qed

lemma ring_of_withWarning [simp]: "ring_of fromId g (withWarning warn r) = ring_of fromId g r"
  by (simp add: ring_of_def withWarning_def split: option.split)

lemma ringStanding_of:
  assumes "hub_op (\<lambda>h. h = g) getAdapter" "hub w = g"
    and "ringStanding H getAdapter nudge guard fromId u warn w = (Inr r, w')"
  shows "ring_of fromId g r"
proof -
  have ring: "ring_of fromId g q" if "ringResolved H getAdapter nudge gd fromId pane gated w = (Inr q, v)"
    for gd pane gated q v by (rule ringResolved_of [OF assms(1,2) that])
  from assms(3) show ?thesis
    by (auto simp: ringStanding_def andThen_def hubRead_run hubGet_run ret_def split: option.splits sum.splits prod.splits
        dest: ring)
qed

lemma wakeRecipient_of:
  assumes "hub_op (\<lambda>h. h = g) getAdapter" "hub w = g"
    and "wakeRecipient H getAdapter None inp nudge guard w = (Inr r, w')"
  shows "ring_of (wk_fromId inp) g r"
proof -
  have no: "ring_of (wk_fromId inp) g not_rung" by (simp add: ring_of_def not_rung_def)
  from assms(3) show ?thesis
    by (auto simp: wakeRecipient_def andThen_def hubRead_run ret_def no split: if_splits option.splits sum.splits prod.splits
        dest: ringResolved_of [OF assms(1,2)] ringStanding_of [OF assms(1,2)])
qed

text \<open>
  C25. A wake never fails the send it follows. On a hub without torn records it returns, whatever the
  panes, the multiplexer and the spawn into an owner's home do, and leaves a well-formed hub. When no
  other process acts and no home is spawned into, it leaves every file of the hub as it was, the
  delivered mail among them, and a pane it rang is not the sender's own.
\<close>
theorem wake_never_fails_a_send:
  assumes "hub_wf (hub w)" "others_wf H" "wf_op getAdapter"
    and "\<forall>f a. spawnHome = Some f \<longrightarrow> wf_op (f a)"
  shows "\<exists>r w'. wakeRecipient H getAdapter spawnHome inp nudge guard w = (Inr r, w') \<and> hub_wf (hub w') \<and>
    (keeps hub getAdapter \<and> sleep_keeps H (\<lambda>h. h = hub w) \<and> spawnHome = None \<longrightarrow>
       hub w' = hub w \<and> ring_of (wk_fromId inp) (hub w) r)"
proof -
  have "total_op (wakeRecipient H getAdapter spawnHome inp nudge guard)"
  proof (cases spawnHome)
    case None
    show ?thesis unfolding wakeRecipient_def None option.case by (intro total assms(2,3))
  next
    case (Some f)
    have "wf_op (f a)" for a using assms(4) Some by blast
    then show ?thesis unfolding wakeRecipient_def Some option.case by (intro total assms(2,3))
  qed
  then obtain r w' where run: "wakeRecipient H getAdapter spawnHome inp nudge guard w = (Inr r, w')" "hub_wf (hub w')"
    using assms(1) by (rule total_opD)
  have "hub w' = hub w \<and> ring_of (wk_fromId inp) (hub w) r"
    if "keeps hub getAdapter" "sleep_keeps H (\<lambda>h. h = hub w)" "spawnHome = None"
  proof -
    have g: "hub_op (\<lambda>h. h = hub w) getAdapter" using that(1) by (simp add: keeps_preserves)
    have "hub_op (\<lambda>h. h = hub w) (wakeRecipient H getAdapter spawnHome inp nudge guard)"
      by (rule pres_wakeRecipient [OF that(2) g]) (simp add: that(3))
    from preservesD [OF this refl run(1)] have "hub w' = hub w" .
    with wakeRecipient_of [OF g refl] run(1) that(3) show ?thesis by simp
  qed
  with run show ?thesis by blast
qed

text \<open>A pane that is there, shows nothing and takes whatever is typed.\<close>

definition calm_adapter :: "nat adapter" where
  "calm_adapter = (quiet_adapter ''tmux'')\<lparr>ad_paneExists := (\<lambda>p x. True)\<rparr>"

definition paned :: "string \<Rightarrow> string \<Rightarrow> agent" where
  "paned i pane = (demo_agent i)\<lparr>a_pane := Some \<lparr>pn_mux = Tmux, pn_id = pane, pn_window = None, pn_session = None\<rparr>\<rparr>"

definition pane_hub :: hub where
  "pane_hub = (empty_hub ''/hub'')\<lparr>h_agents := [(''a.json'', Json (paned ''a'' ''%3''))]\<rparr>"

lemma pane_hub_wf: "hub_wf pane_hub"
  by (simp add: pane_hub_def paned_def hub_wf_def files_wf_def dir_wf_def empty_hub_def lease_files_wf_def
      demo_agent_def json_def safe_id_def unsafe_char_def slash_def)

lemma getAgent_pane_hub: "getAgent ''a'' pane_hub = Inr (Some (paned ''a'' ''%3''))" "getAgent ''b'' pane_hub = Inr None"
  by (simp_all add: getAgent_simp pane_hub_def dget_def json_def safe_id_def unsafe_char_def slash_def)

lemma paneOf_pane_hub: "paneOf ''a'' pane_hub = Inr (Some ''%3'')" "paneOf ''b'' pane_hub = Inr None"
proof -
  have "h_panes pane_hub = []" by (simp add: pane_hub_def empty_hub_def)
  then show "paneOf ''a'' pane_hub = Inr (Some ''%3'')" "paneOf ''b'' pane_hub = Inr None"
    by (simp_all add: paneOf_def getAgent_pane_hub paned_def findPaneByAgentId_def)
qed

definition demo_wake :: wake_input where
  "demo_wake = \<lparr>wk_toId = ''a'', wk_fromId = ''b'', wk_noNudge = False\<rparr>"

definition no_guard :: guard_opts where
  "no_guard = \<lparr>go_harness = None, go_ownText = (\<lambda>t. False), go_idleMs = None, go_maxWaitMs = None, go_pollMs = None\<rparr>"

lemma others_wf_demo: "others_wf demo_host"
  by (simp add: others_wf_def)

lemma copiesOn_None [simp]: "copiesOn None m = 0"
  by (simp add: copiesOn_def)

lemma calm_simps [simp]:
  "ad_paneExists calm_adapter p x" "ad_read calm_adapter p n x = Inr None" "ad_submit calm_adapter p t = ret ()"
  by (simp_all add: calm_adapter_def quiet_adapter_def)

lemma guard_wait_calm: "guard_wait H calm_adapter pane opts w = (Inr PUnknown, w)"
  by (simp add: guard_wait_def readBox_def is_draft_def andThen_def extGet_run now_run ret_def)

lemma ringTurn_calm:
  "ringTurn demo_host calm_adapter pane m NUDGE_OPTS w = (Inr 0, w\<lparr>ext := ext w + DEFAULT_SETTLE_MS\<rparr>)"
  by (simp add: ringTurn_def NUDGE_OPTS_def Let_def paneText_def ring_check_def turnOf_def andThen_def eff_simps
      extGet_run sleep_run)

theorem wake_never_fails_a_send_witness:
  "\<exists>w'. wakeRecipient demo_host (ret calm_adapter) None demo_wake NUDGE_OPTS no_guard (demo_world\<lparr>hub := pane_hub\<rparr>)
       = (Inr \<lparr>wr_rung = True, wr_spawned = None, wr_pane = Some ''%3'', wr_warning = None\<rparr>, w') \<and>
     hub w' = pane_hub \<and> hub_wf (hub w')"
proof -
  let ?w = "demo_world\<lparr>hub := pane_hub\<rparr>"
  have run: "wakeRecipient demo_host (ret calm_adapter) None demo_wake NUDGE_OPTS no_guard ?w
      = (Inr \<lparr>wr_rung = True, wr_spawned = None, wr_pane = Some ''%3'', wr_warning = None\<rparr>,
         ?w\<lparr>ext := 1000 + DEFAULT_SETTLE_MS\<rparr>)"
    by (simp add: wakeRecipient_def demo_wake_def getAgent_pane_hub paned_def demo_agent_def paneOf_pane_hub ringResolved_def
        ringPane_def withDraftGuard_def guard_wait_calm ringTurn_calm demo_world_def andThen_def eff_simps hubRead_run)
  have wf: "hub_wf (hub ?w)" using pane_hub_wf by simp
  have "wf_op (ret calm_adapter)" by (rule pres_ret)
  from wake_never_fails_a_send [OF wf others_wf_demo this, of None demo_wake NUDGE_OPTS no_guard] run
  show ?thesis by (auto simp: sleep_keeps_def keeps_ret)
qed

text \<open>Without that condition a wake throws: the record of the sender is torn.\<close>

lemma wake_can_throw:
  "fst (wakeRecipient demo_host (ret calm_adapter) None (demo_wake\<lparr>wk_fromId := ''u''\<rparr>) NUDGE_OPTS no_guard
     (demo_world\<lparr>hub := pane_hub\<lparr>h_agents := (''u.json'', Torn) # h_agents pane_hub\<rparr>\<rparr>))
   = Inl (StoreE (CorruptRecord ''/hub/agents/u.json''))"
  by (simp add: wakeRecipient_def demo_wake_def getAgent_simp paned_def demo_agent_def paneOf_def ringResolved_def
      dget_def json_def safe_id_def unsafe_char_def slash_def pane_hub_def empty_hub_def path_join_def
      demo_world_def andThen_def eff_simps hubRead_run)

end
