(* ===== verification/Launch.thy ===== *)
theory Launch
  imports Identity
begin

text \<open>
  The part of \<open>session.ts\<close> that composes what is typed into a new pane: the launch command of each
  harness, its reset command and its resume flag, the environment prefixes, and the shim that
  re-invokes the running CLI. A reader of POSIX shell words gives the meaning of the quoting.
\<close>

subsection \<open>Launch, reset, resume\<close>

fun LAUNCH_MAP :: "harness \<Rightarrow> string" where
  "LAUNCH_MAP Claude = ''claude''"
| "LAUNCH_MAP Cursor = ''cursor-agent''"
| "LAUNCH_MAP Codex = ''codex''"

definition RESET_MAP :: "string \<Rightarrow> string option" where
  "RESET_MAP h = map_of [(''claude'', ''/clear''), (''codex'', ''/clear''), (''copilot'', ''/clear''),
     (''cursor'', ''/new-chat'')] h"

definition FALSE_FRIEND_HARNESSES :: "string list" where
  "FALSE_FRIEND_HARNESSES = [''gemini'']"

definition resetCommandFor :: "string \<Rightarrow> error + string" where
  "resetCommandFor h = (case RESET_MAP h of
       Some c \<Rightarrow> Inr c
     | None \<Rightarrow> if h \<in> set FALSE_FRIEND_HARNESSES then Inl (SpawnE (FalseFriendReset h))
               else Inl (SpawnE (UnmappedReset h)))"

subsection \<open>Shell quoting\<close>

definition quote :: char where
  "quote = CHR 0x27"

definition backslash :: char where
  "backslash = CHR 0x5C"

text \<open>\<open>replaceAll("'", "'\\''")\<close> between two quotes.\<close>

fun escape_quotes :: "string \<Rightarrow> string" where
  "escape_quotes [] = []"
| "escape_quotes (c # s) = (if c = quote then [quote, backslash, quote, quote] else [c]) @ escape_quotes s"

definition shellQuote :: "string \<Rightarrow> string" where
  "shellQuote s = [quote] @ escape_quotes s @ [quote]"

fun RESUME_MAP :: "harness \<Rightarrow> (string \<Rightarrow> string) option" where
  "RESUME_MAP Claude = Some (\<lambda>i. ''--resume '' @ shellQuote i)"
| "RESUME_MAP Codex = Some (\<lambda>i. ''resume '' @ shellQuote i)"
| "RESUME_MAP Cursor = None"

text \<open>\<open>launch.split(/\\s+/)[0]\<close> is what stands before the first white space.\<close>

definition resumeLaunch :: "harness \<Rightarrow> string \<Rightarrow> string \<Rightarrow> string option" where
  "resumeLaunch h launch conversation = (case RESUME_MAP h of
       None \<Rightarrow> None
     | Some resume \<Rightarrow>
         if takeWhile (\<lambda>c. \<not> is_space c) launch \<noteq> LAUNCH_MAP h then None
         else Some (launch @ '' '' @ resume conversation))"

subsection \<open>The launch line\<close>

definition dquote :: string where
  "dquote = [CHR 0x22]"

definition shimEnvPrefix :: "string \<Rightarrow> string" where
  "shimEnvPrefix shim =
     ''PATH='' @ shellQuote (dirname shim) @ '':'' @ dquote @ ''$PATH'' @ dquote @ '' CYBERLEGION_CLI='' @ shellQuote shim @ '' ''"

definition muxEnvPrefix :: "string \<Rightarrow> string" where
  "muxEnvPrefix muxName =
     (if muxName = ''tmux'' then ''CYBER_MUX=tmux CYBER_MUX_PANE=$TMUX_PANE ''
      else if muxName = ''herdr'' then ''CYBER_MUX=herdr ''
      else [])"

definition shim_text :: "string list \<Rightarrow> string" where
  "shim_text self = ''#!/bin/sh'' @ nl @ ''exec '' @ join_with '' '' (map shellQuote self) @ '' '' @ dquote @ ''$@'' @ dquote @ nl"

text \<open>The data directory is the one of an agent id; the shim is the file \<open>bin/cyberlegion\<close> in it.\<close>

definition writeSelfShim :: "string \<Rightarrow> string \<Rightarrow> string list \<Rightarrow> ('x, string) op" where
  "writeSelfShim dir i self =
     andThen (hubSet (\<lambda>h. h\<lparr>h_data :=
       dput i ((defaultTo (dget (h_data h) i) empty_data)\<lparr>dd_shim := Some (shim_text self)\<rparr>) (h_data h)\<rparr>)) (\<lambda>_.
     ret (path_join dir [''bin'', ''cyberlegion'']))"

record line_opts =
  ln_bindSelf :: bool
  ln_fallback :: "string option"

definition composeLaunchLine :: "'x host \<Rightarrow> string \<Rightarrow> string \<Rightarrow> string \<Rightarrow> line_opts \<Rightarrow> ('x, string) op" where
  "composeLaunchLine H muxName i launch opts =
     andThen (case ctx_self H of
         None \<Rightarrow> ret None
       | Some self \<Rightarrow>
           andThen (hubRead (\<lambda>h. dataDir (h_root h) i)) (\<lambda>dir.
           andThen (writeSelfShim dir i self) (\<lambda>shim. ret (Some shim)))) (\<lambda>shim.
     andThen (hubGet h_root) (\<lambda>root.
     let bind = (case shim of
             None \<Rightarrow> []
           | Some sh \<Rightarrow>
               if ln_bindSelf opts
               then shellQuote sh @ '' unit rebind '' @ shellQuote i @ '' --space '' @ shellQuote root @ '' >/dev/null 2>&1; ''
               else []);
         prefix = (case shim of None \<Rightarrow> [] | Some sh \<Rightarrow> shimEnvPrefix sh) @ muxEnvPrefix muxName;
         fallback = (case truthy (ln_fallback opts) of None \<Rightarrow> [] | Some f \<Rightarrow> '' || '' @ prefix @ f)
     in ret (bind @ prefix @ launch @ fallback)))"

text \<open>The backend the environment selects, and a pane as its record locates it.\<close>

definition sessionAdapter :: "'x host \<Rightarrow> ('x, 'x adapter) op" where
  "sessionAdapter H =
     reads (\<lambda>w. case selectSessionAdapter H (ext w) of Inl e \<Rightarrow> Inl e | Inr m \<Rightarrow> Inr (mx_adapter H m))"

definition pane_in :: "string \<Rightarrow> string \<Rightarrow> pane_loc option" where
  "pane_in name pane = map_option (\<lambda>m. \<lparr>pn_mux = m, pn_id = pane, pn_window = None, pn_session = None\<rparr>) (parse_mux name)"

text \<open>The brief file: the task alone, or the instructions under their own heading first.\<close>

definition composeBrief :: "string \<Rightarrow> string option \<Rightarrow> string" where
  "composeBrief brief instructions = (case truthy instructions of
       None \<Rightarrow> brief
     | Some t \<Rightarrow> ''## Agent instructions'' @ nl @ nl @ t @ nl @ nl @ ''## Brief'' @ nl @ nl @ brief)"

lemma pres_sessionAdapter [pres]: "preserves P (sessionAdapter H)"
  unfolding sessionAdapter_def by (intro pres)

lemma hub_sessionAdapter [frame]: "keeps f (sessionAdapter H)"
  unfolding sessionAdapter_def by (intro frame)

lemma wf_writeSelfShim [pres]: "wf_op (writeSelfShim dir i self)"
  unfolding writeSelfShim_def by (intro pres) (simp add: hub_wf_def)

lemma wf_composeLaunchLine [pres]: "wf_op (composeLaunchLine H muxName i launch opts)"
  unfolding composeLaunchLine_def by (intro pres)

subsection \<open>Shell words\<close>

text \<open>
  The words a POSIX shell reads from a text without expansions: blanks separate words, single quotes
  and backslashes quote. A character with any other meaning to the shell gives \<open>None\<close>.
\<close>

definition shell_plain :: "char \<Rightarrow> bool" where
  "shell_plain c \<longleftrightarrow> is_alnum c \<or> c \<in> set ''/-_.,:=@%+''"

definition end_word :: "string option \<Rightarrow> string list \<Rightarrow> string list" where
  "end_word word rest = (case word of None \<Rightarrow> rest | Some w \<Rightarrow> w # rest)"

fun sh_words :: "bool \<Rightarrow> string option \<Rightarrow> string \<Rightarrow> string list option" where
  "sh_words quoted word [] = (if quoted then None else Some (end_word word []))"
| "sh_words True word (c # s) =
     (if c = quote then sh_words False word s else sh_words True (Some (defaultTo word [] @ [c])) s)"
| "sh_words False word (c # s) =
     (if c = quote then sh_words True (Some (defaultTo word [])) s
      else if c = backslash
      then (case s of [] \<Rightarrow> None | d # s' \<Rightarrow> sh_words False (Some (defaultTo word [] @ [d])) s')
      else if c = CHR '' '' then map_option (end_word word) (sh_words False None s)
      else if shell_plain c then sh_words False (Some (defaultTo word [] @ [c])) s
      else None)"

definition shellWords :: "string \<Rightarrow> string list option" where
  "shellWords s = sh_words False None s"

lemma sh_words_quoted:
  "sh_words True (Some w) (escape_quotes s @ quote # t) = sh_words False (Some (w @ s)) t"
proof (induction s arbitrary: w)
  case Nil
  show ?case by simp
next
  case (Cons c s)
  have "backslash \<noteq> quote" by (simp add: backslash_def quote_def)
  with Cons show ?case by (cases "c = quote") simp_all
qed

lemma sh_words_shellQuote: "sh_words False word (shellQuote s @ t) = sh_words False (Some (defaultTo word [] @ s)) t"
  by (simp add: shellQuote_def sh_words_quoted)

lemma quoted_words: "shellWords (join_with '' '' (map shellQuote ws)) = Some ws"
  unfolding shellWords_def
proof (induction "'' ''" ws rule: join_with.induct)
  case 1
  show ?case by (simp add: end_word_def)
next
  case (2 w)
  show ?case using sh_words_shellQuote [of None w "[]"] by (simp add: end_word_def)
next
  case (3 w v ws)
  then show ?case by (simp add: sh_words_shellQuote quote_def backslash_def end_word_def)
qed

lemma sh_words_end: "sh_words False word (shellQuote s) = Some [defaultTo word [] @ s]"
  using sh_words_shellQuote [of word s "[]"] by (simp add: end_word_def)

lemma cli_word: "shellWords (''CYBERLEGION_CLI='' @ shellQuote s) = Some [''CYBERLEGION_CLI='' @ s]"
  by (simp add: shellWords_def shell_plain_def is_alnum_def is_upper_def is_lower_def is_digit_def quote_def
      backslash_def sh_words_end)

lemma rebind_words:
  "shellWords (shellQuote a @ '' unit rebind '' @ shellQuote b @ '' --space '' @ shellQuote c)
    = Some [a, ''unit'', ''rebind'', b, ''--space'', c]"
  by (simp add: shellWords_def shell_plain_def is_alnum_def is_upper_def is_lower_def is_digit_def quote_def
      backslash_def sh_words_shellQuote sh_words_end end_word_def)

text \<open>
  C35. Nothing in a launch line is read by the shell as anything but itself. The line runs the given launch
  command with the shim's directory first on the path and the shim named in the environment; when it binds
  the session first, the words it runs are the shim, the rebind command, the unit and the hub. The shim
  executes exactly the recorded invocation, whatever characters its arguments hold.
\<close>
theorem launch_line_words:
  assumes "ctx_self H = Some self" "safe_id i"
  shows "\<exists>w' shim q1 q2 args bind tail.
    composeLaunchLine H muxName i launch opts w =
      (Inr (bind @ ''PATH='' @ q1 @ '':'' @ dquote @ ''$PATH'' @ dquote @ '' '' @ q2 @ '' '' @ muxEnvPrefix muxName @ launch @ tail), w') \<and>
    shim = path_join (h_root (hub w)) [''data'', i] @ ''/bin/cyberlegion'' \<and>
    shellWords q1 = Some [dirname shim] \<and> shellWords q2 = Some [''CYBERLEGION_CLI='' @ shim] \<and>
    (if ln_bindSelf opts
     then \<exists>q3. bind = q3 @ '' >/dev/null 2>&1; '' \<and>
            shellWords q3 = Some [shim, ''unit'', ''rebind'', i, ''--space'', h_root (hub w)]
     else bind = []) \<and>
    (truthy (ln_fallback opts) = None \<longrightarrow> tail = []) \<and>
    map_option dd_shim (dget (h_data (hub w')) i) =
      Some (Some (''#!/bin/sh'' @ nl @ ''exec '' @ args @ '' '' @ dquote @ ''$@'' @ dquote @ nl)) \<and>
    shellWords args = Some self"
proof -
  define dir where "dir = path_join (h_root (hub w)) [''data'', i]"
  define shim where "shim = dir @ ''/bin/cyberlegion''"
  have shim: "path_join dir [''bin'', ''cyberlegion''] = shim" by (simp add: path_join_def shim_def)
  have dd: "dataDir (h_root (hub w)) i = Inr dir" using assms(2) by (simp add: path_defs dir_def)
  define bind where "bind = (if ln_bindSelf opts
    then (shellQuote shim @ '' unit rebind '' @ shellQuote i @ '' --space '' @ shellQuote (h_root (hub w))) @ '' >/dev/null 2>&1; '' else [])"
  define tail where "tail = (case truthy (ln_fallback opts) of None \<Rightarrow> [] | Some f \<Rightarrow> '' || '' @ shimEnvPrefix shim @ muxEnvPrefix muxName @ f)"
  define w' where "w' = w\<lparr>hub := (hub w)\<lparr>h_data := dput i
     ((defaultTo (dget (h_data (hub w)) i) empty_data)\<lparr>dd_shim := Some (shim_text self)\<rparr>) (h_data (hub w))\<rparr>\<rparr>"
  have "composeLaunchLine H muxName i launch opts w =
      (Inr (bind @ ''PATH='' @ shellQuote (dirname shim) @ '':'' @ dquote @ ''$PATH'' @ dquote @ '' '' @
        (''CYBERLEGION_CLI='' @ shellQuote shim) @ '' '' @ muxEnvPrefix muxName @ launch @ tail), w')"
    using assms(1) dd
    by (simp add: composeLaunchLine_def writeSelfShim_def andThen_def eff_simps shim bind_def tail_def w'_def
        shimEnvPrefix_def hubRead_run hubSet_run hubGet_run split: option.split)
  moreover have "shellWords (shellQuote (dirname shim)) = Some [dirname shim]"
    by (simp add: shellWords_def sh_words_end)
  moreover have "map_option dd_shim (dget (h_data (hub w')) i) = Some (Some (shim_text self))" by (simp add: w'_def)
  ultimately show ?thesis
    using cli_word [of shim] rebind_words [of shim i "h_root (hub w)"] quoted_words [of self]
    unfolding shim_text_def
    by (intro exI conjI) (assumption | auto simp: bind_def tail_def shim_def dir_def)+
qed

definition self_host :: "nat host" where
  "self_host = demo_host\<lparr>ctx_self := Some [''/usr/bin/node'', ''/home/o'' @ [quote] @ ''brien/cli.mjs'']\<rparr>"

theorem launch_line_words_witness:
  "\<exists>w' line args. composeLaunchLine self_host ''herdr'' ''c0ffee'' ''claude'' \<lparr>ln_bindSelf = False, ln_fallback = None\<rparr> demo_world
      = (Inr line, w') \<and>
     map_option dd_shim (dget (h_data (hub w')) ''c0ffee'') =
       Some (Some (''#!/bin/sh'' @ nl @ ''exec '' @ args @ '' '' @ dquote @ ''$@'' @ dquote @ nl)) \<and>
     shellWords args = Some [''/usr/bin/node'', ''/home/o'' @ [quote] @ ''brien/cli.mjs'']"
proof -
  have s: "ctx_self self_host = Some [''/usr/bin/node'', ''/home/o'' @ [quote] @ ''brien/cli.mjs'']"
    by (simp add: self_host_def)
  have i: "safe_id ''c0ffee''" by code_simp
  show ?thesis
    using launch_line_words [OF s i, of "''herdr''" "''claude''" "\<lparr>ln_bindSelf = False, ln_fallback = None\<rparr>" demo_world]
    by (elim exE conjE) (rule exI conjI | assumption)+
qed

end
