(* ===== verification/UnitRuntime.thy ===== *)
theory UnitRuntime
  imports Doorbell Launch WorkspaceLabel
begin

text \<open>
  \<open>unit-runtime.ts\<close>: ending, replacing and inspecting the session of a unit while the unit stays. The
  backend to drive, which the code lets a caller hand in, is the first argument after the host.
\<close>

subsection \<open>Where a unit runs\<close>

definition assertHasRuntime :: "agent \<Rightarrow> string \<Rightarrow> error + unit" where
  "assertHasRuntime rec ref =
     (if a_kind rec = Some StandingKind \<or> a_kind rec = Some ServiceKind then Inl (RuntimeE (NoRuntime ref)) else Inr ())"

definition assertNotSelf :: "'x host \<Rightarrow> agent \<Rightarrow> string \<Rightarrow> hub \<Rightarrow> error + unit" where
  "assertNotSelf H rec verb h =
     (if resolveSelfId H h = Some (a_id rec) then Inl (RuntimeE (SelfTarget verb)) else Inr ())"

definition runtimePane :: "agent \<Rightarrow> hub \<Rightarrow> string option" where
  "runtimePane rec h = (case a_pane rec of Some p \<Rightarrow> Some (pn_id p) | None \<Rightarrow> findPaneByAgentId (a_id rec) h)"

definition paneAdapter :: "'x host \<Rightarrow> 'x adapter option \<Rightarrow> agent \<Rightarrow> 'x \<Rightarrow> 'x adapter option" where
  "paneAdapter H given rec x = (case given of
       Some A \<Rightarrow> Some A
     | None \<Rightarrow> (case a_pane rec of
           Some p \<Rightarrow> Some (mx_adapter H (pn_mux p))
         | None \<Rightarrow> (case selectSessionAdapter H x of Inl e \<Rightarrow> None | Inr m \<Rightarrow> Some (mx_adapter H m))))"

definition stopped_rec :: "agent \<Rightarrow> agent" where
  "stopped_rec rec = rec\<lparr>a_status := Stopped, a_pane := None\<rparr>"

definition markStopped :: "agent \<Rightarrow> string option \<Rightarrow> ('x, agent) op" where
  "markStopped rec pane =
     andThen (hubWrite (putAgent (stopped_rec rec))) (\<lambda>_.
     andThen (case truthy pane of None \<Rightarrow> ret () | Some p \<Rightarrow> hubSet (removePaneIndex p)) (\<lambda>_.
     ret (stopped_rec rec)))"

subsection \<open>Stop\<close>

record stop_result =
  st_agent :: agent
  st_pane :: "string option"
  st_verified :: bool
  st_alreadyStopped :: bool

definition stopRuntime :: "'x host \<Rightarrow> 'x adapter option \<Rightarrow> agent \<Rightarrow> ('x, stop_result) op" where
  "stopRuntime H given rec =
     andThen (hubGet (runtimePane rec)) (\<lambda>found.
     case truthy found of
       None \<Rightarrow> andThen (markStopped rec None) (\<lambda>a. ret \<lparr>st_agent = a, st_pane = None, st_verified = False, st_alreadyStopped = False\<rparr>)
     | Some pane \<Rightarrow>
         andThen (extGet (paneAdapter H given rec)) (\<lambda>ad.
         case ad of
           None \<Rightarrow> andThen (markStopped rec (Some pane)) (\<lambda>a.
             ret \<lparr>st_agent = a, st_pane = Some pane, st_verified = False, st_alreadyStopped = False\<rparr>)
         | Some A \<Rightarrow>
             andThen (tryE (extEff (ad_teardown A pane))) (\<lambda>_.
             andThen (extGet (ad_listPanes A)) (\<lambda>listed.
             if pane \<in> lp_id ` set listed then throw (RuntimeE (StopNoEffect pane))
             else andThen (markStopped rec (Some pane)) (\<lambda>a.
                  ret \<lparr>st_agent = a, st_pane = Some pane, st_verified = (listed \<noteq> []), st_alreadyStopped = False\<rparr>)))))"

definition stopUnit :: "'x host \<Rightarrow> 'x adapter option \<Rightarrow> string \<Rightarrow> ('x, stop_result) op" where
  "stopUnit H given ref =
     andThen (hubRead (resolveAgent ref)) (\<lambda>rec.
     andThen (ofSum (assertHasRuntime rec ref)) (\<lambda>_.
     andThen (hubRead (assertNotSelf H rec ''stop'')) (\<lambda>_.
     if a_status rec = Stopped
     then ret \<lparr>st_agent = rec, st_pane = None, st_verified = True, st_alreadyStopped = True\<rparr>
     else stopRuntime H given rec)))"

subsection \<open>Restart\<close>

record restart_opts =
  rp_noWake :: bool
  rp_fresh :: bool
  rp_nudge :: ring_opts

record restart_result =
  rr_agent :: agent
  rr_previousPane :: "string option"
  rr_pane :: string
  rr_launch :: string
  rr_resumed :: bool
  rr_rung :: bool
  rr_warning :: "wake_warning option"

definition adapterOr :: "'x host \<Rightarrow> 'x adapter option \<Rightarrow> ('x, 'x adapter) op" where
  "adapterOr H given = (case given of Some A \<Rightarrow> ret A | None \<Rightarrow> sessionAdapter H)"

text \<open>The \<open>try\<close> block of a restart: the backend, and the pane it opened.\<close>

definition openAgain ::
  "'x host \<Rightarrow> 'x adapter option \<Rightarrow> agent \<Rightarrow> string \<Rightarrow> string option \<Rightarrow> ('x, 'x adapter \<times> string) op" where
  "openAgain H given rec launch resume =
     andThen (adapterOr H given) (\<lambda>A.
     let place = (if a_worktree rec = None then ''tab'' else ''workspace'')
     in andThen (if place = ''workspace''
          then andThen (hubRead (readBrief (a_id rec))) (\<lambda>brief.
               ret (Some (deriveWorkspaceLabel \<lparr>lb_brief = defaultTo brief [], lb_handle = Some (a_handle rec), lb_id = a_id rec\<rparr>)))
          else ret None) (\<lambda>label.
        andThen (case resume of
            Some r \<Rightarrow> composeLaunchLine H (ad_name A) (a_id rec) r \<lparr>ln_bindSelf = True, ln_fallback = Some launch\<rparr>
          | None \<Rightarrow> composeLaunchLine H (ad_name A) (a_id rec) launch \<lparr>ln_bindSelf = True, ln_fallback = None\<rparr>) (\<lambda>line.
        andThen (extEff (ad_open A \<lparr>oo_cwd = a_cwd rec, oo_launch = line, oo_at = place,
            oo_from = mx_callerPane H (ad_name A) (normalizeMuxEnv (os_env H)), oo_label = label\<rparr>)) (\<lambda>pane.
        ret (A, pane)))))"

definition bindRuntime :: "'x host \<Rightarrow> agent \<Rightarrow> pane_loc option \<Rightarrow> ('x, agent) op" where
  "bindRuntime H rec pane =
     andThen (now H) (\<lambda>t.
     let bound = rec\<lparr>a_status := Active, a_pane := pane, a_lastSeen := t\<rparr>
     in andThen (hubWrite (putAgent bound)) (\<lambda>_. ret bound))"

definition startAgain ::
  "'x host \<Rightarrow> 'x adapter option \<Rightarrow> agent \<Rightarrow> harness \<Rightarrow> string option \<Rightarrow> restart_opts \<Rightarrow> ('x, restart_result) op" where
  "startAgain H given rec h previousPane opts =
     (let launch = defaultTo (a_launch rec) (LAUNCH_MAP h);
          resume = (case truthy (a_conversation rec) of
              None \<Rightarrow> None
            | Some c \<Rightarrow> if rp_fresh opts then None else resumeLaunch h launch c)
      in andThen (tryE (openAgain H given rec launch resume)) (\<lambda>opened.
         case opened of
           Inl e \<Rightarrow> throw (RestartOpenFailed (a_handle rec) e)
         | Inr (A, pane) \<Rightarrow>
             andThen (bindRuntime H rec (pane_in (ad_name A) pane)) (\<lambda>bound.
             andThen (hubSet (putPaneIndex pane (a_id rec))) (\<lambda>_.
             andThen (wakeSpawn H (ret A)
                 \<lparr>ws_target = pane, ws_briefPath = defaultTo (a_brief bound) [],
                  ws_noWake = (rp_noWake opts \<or> truthy (a_brief bound) = None),
                  ws_resumed = (resume \<noteq> None), ws_harness = None\<rparr> (rp_nudge opts) default_guard) (\<lambda>wake.
             ret \<lparr>rr_agent = bound, rr_previousPane = previousPane, rr_pane = pane, rr_launch = launch,
                  rr_resumed = (resume \<noteq> None), rr_rung = wr_rung wake, rr_warning = wr_warning wake\<rparr>)))))"

definition restartUnit :: "'x host \<Rightarrow> 'x adapter option \<Rightarrow> string \<Rightarrow> restart_opts \<Rightarrow> ('x, restart_result) op" where
  "restartUnit H given ref opts =
     andThen (hubRead (resolveAgent ref)) (\<lambda>rec.
     andThen (ofSum (assertHasRuntime rec ref)) (\<lambda>_.
     andThen (hubRead (assertNotSelf H rec ''restart'')) (\<lambda>_.
     case a_harness rec of
       None \<Rightarrow> throw (RuntimeE (NotInLaunchMap (a_handle rec)))
     | Some h \<Rightarrow>
         andThen (extGet (os_exists H (a_cwd rec))) (\<lambda>there.
         if \<not> there then throw (RuntimeE (CwdGone (a_handle rec)))
         else if a_status rec = Stopped then startAgain H given rec h None opts
         else andThen (stopRuntime H given rec) (\<lambda>s.
              startAgain H given (st_agent s) h (st_pane s) opts)))))"

subsection \<open>Liveness and rebind\<close>

datatype runtime_liveness = RLive | RGone | RUnknown | RStopped | RExited | RNone

definition probeLiveness :: "'x host \<Rightarrow> 'x adapter option \<Rightarrow> agent \<Rightarrow> 'x world \<Rightarrow> runtime_liveness" where
  "probeLiveness H given rec w =
     (if a_kind rec = Some StandingKind \<or> a_kind rec = Some ServiceKind then RNone
      else if a_status rec = Stopped then RStopped
      else if a_status rec = Exited then RExited
      else case truthy (runtimePane rec (hub w)) of
        None \<Rightarrow> RUnknown
      | Some pane \<Rightarrow> (case paneAdapter H given rec (ext w) of
            None \<Rightarrow> RUnknown
          | Some A \<Rightarrow>
              (let listed = ad_listPanes A (ext w)
               in if listed = [] then RUnknown
                  else if pane \<in> lp_id ` set listed then RLive else RGone)))"

text \<open>Whether the pane belongs to another unit that has neither stopped nor exited.\<close>

definition heldByOther :: "agent \<Rightarrow> string \<Rightarrow> hub \<Rightarrow> error + agent option" where
  "heldByOther rec pane h = (case truthy (resolvePaneId pane h) of
       None \<Rightarrow> Inr None
     | Some i \<Rightarrow>
         if i = a_id rec then Inr None
         else (case getAgent i h of
             Inl e \<Rightarrow> Inl e
           | Inr None \<Rightarrow> Inr None
           | Inr (Some holder) \<Rightarrow>
               Inr (if a_status holder \<noteq> Stopped \<and> a_status holder \<noteq> Exited then Some holder else None)))"

definition boundTo :: "agent \<Rightarrow> mux \<Rightarrow> string \<Rightarrow> hub \<Rightarrow> bool" where
  "boundTo rec m pane h =
     ((case a_pane rec of None \<Rightarrow> False | Some p \<Rightarrow> pn_mux p = m \<and> pn_id p = pane) \<and>
      resolvePaneId pane h = Some (a_id rec))"

text \<open>The old pane a rebind leaves, if it leaves one.\<close>

definition left_pane :: "agent \<Rightarrow> string \<Rightarrow> hub \<Rightarrow> string option" where
  "left_pane rec cur h = (case truthy (runtimePane rec h) of None \<Rightarrow> None | Some p \<Rightarrow> if p = cur then None else Some p)"

definition rebindWrite :: "'x host \<Rightarrow> agent \<Rightarrow> mux \<Rightarrow> string \<Rightarrow> string option \<Rightarrow> ('x, agent) op" where
  "rebindWrite H rec m cur moved =
     andThen (bindRuntime H rec (Some \<lparr>pn_mux = m, pn_id = cur, pn_window = None, pn_session = None\<rparr>)) (\<lambda>bound.
     andThen (case moved of None \<Rightarrow> ret () | Some p \<Rightarrow> hubSet (removePaneIndex p)) (\<lambda>_.
     andThen (hubSet (putPaneIndex cur (a_id rec))) (\<lambda>_.
     ret bound)))"

definition rebindTo :: "'x host \<Rightarrow> 'x adapter option \<Rightarrow> agent \<Rightarrow> mux \<Rightarrow> string \<Rightarrow> ('x, agent) op" where
  "rebindTo H given rec m cur =
     andThen (hubGet (left_pane rec cur)) (\<lambda>moved.
     andThen (hubGet (boundTo rec m cur)) (\<lambda>already.
     if already then ret rec
     else andThen (hubRead (heldByOther rec cur)) (\<lambda>holder.
     case holder of
       Some other \<Rightarrow> throw (RuntimeE (PaneHeld (a_handle other)))
     | None \<Rightarrow>
         andThen (reads (\<lambda>w. Inr (probeLiveness H given rec w))) (\<lambda>liveness.
         if moved \<noteq> None \<and> (liveness = RLive \<or> liveness = RUnknown)
         then throw (RuntimeE (MayStillRun (a_handle rec)))
         else rebindWrite H rec m cur moved))))"

definition rebindUnit :: "'x host \<Rightarrow> 'x adapter option \<Rightarrow> string \<Rightarrow> ('x, agent) op" where
  "rebindUnit H given ref =
     andThen (hubRead (resolveAgent ref)) (\<lambda>rec.
     andThen (ofSum (assertHasRuntime rec ref)) (\<lambda>_.
     case storablePane H of
       None \<Rightarrow> throw (RuntimeE NoPaneToBind)
     | Some (m, cur) \<Rightarrow> rebindTo H given rec m cur))"

subsection \<open>Showing a unit\<close>

datatype control = Focus | Nudge | ReadScreen | Clear | Stop | Restart | Rebind | Close

definition hasHonestReset :: "harness option \<Rightarrow> bool" where
  "hasHonestReset h = (case h of
       None \<Rightarrow> False
     | Some x \<Rightarrow> (case resetCommandFor (harness_name x) of Inl e \<Rightarrow> False | Inr c \<Rightarrow> True))"

definition controlsFor :: "'x host \<Rightarrow> agent \<Rightarrow> runtime_liveness \<Rightarrow> 'x world \<Rightarrow> control list" where
  "controlsFor H rec liveness w =
     (if liveness = RNone then []
      else (if liveness = RLive then [Focus, Nudge, ReadScreen] @ (if hasHonestReset (a_harness rec) then [Clear] else []) else []) @
           (if runtimePane rec (hub w) \<noteq> None \<and> liveness \<in> {RLive, RGone, RUnknown} then [Stop] else []) @
           (if a_harness rec \<noteq> None \<and> os_exists H (a_cwd rec) (ext w) then [Restart] else []) @
           (if liveness \<in> {RStopped, RExited, RGone} then [Rebind] else []) @
           [Close])"

record runtime_view =
  rv_id :: string
  rv_handle :: string
  rv_harness :: "harness option"
  rv_status :: status
  rv_liveness :: runtime_liveness
  rv_pane :: "(string \<times> string) option"
  rv_cwd :: string
  rv_worktree :: "worktree option"
  rv_lastSeen :: nat
  rv_controls :: "control list"

definition viewOfUnit :: "'x host \<Rightarrow> 'x adapter option \<Rightarrow> agent \<Rightarrow> 'x world \<Rightarrow> runtime_view" where
  "viewOfUnit H given rec w =
     (let liveness = probeLiveness H given rec w;
          pane = truthy (runtimePane rec (hub w));
          m = (case a_pane rec of
                 Some p \<Rightarrow> Some (mux_name (pn_mux p))
               | None \<Rightarrow> if pane = None then None else truthy (map_option ad_name (paneAdapter H given rec (ext w))))
      in \<lparr>rv_id = a_id rec, rv_handle = a_handle rec, rv_harness = a_harness rec, rv_status = a_status rec,
          rv_liveness = liveness,
          rv_pane = (case (m, pane) of (Some n, Some p) \<Rightarrow> Some (n, p) | _ \<Rightarrow> None),
          rv_cwd = a_cwd rec, rv_worktree = a_worktree rec, rv_lastSeen = a_lastSeen rec,
          rv_controls = controlsFor H rec liveness w\<rparr>)"

definition showUnit :: "'x host \<Rightarrow> 'x adapter option \<Rightarrow> string \<Rightarrow> ('x, runtime_view) op" where
  "showUnit H given ref =
     andThen (hubRead (resolveAgent ref)) (\<lambda>rec. reads (\<lambda>w. Inr (viewOfUnit H given rec w)))"

text \<open>
  \<open>parsed\<close> is the \<open>session_id\<close> of the hook's JSON when the text parses and the field is a string.
\<close>

definition recordConversation :: "'x host \<Rightarrow> string option \<Rightarrow> ('x, unit) op" where
  "recordConversation H parsed = (case truthy parsed of
       None \<Rightarrow> ret ()
     | Some i \<Rightarrow>
         andThen (hubGet (resolveSelfId H)) (\<lambda>me.
         case truthy me of
           None \<Rightarrow> ret ()
         | Some m \<Rightarrow>
             andThen (hubRead (getAgent m)) (\<lambda>r.
             case r of
               None \<Rightarrow> ret ()
             | Some rec \<Rightarrow>
                 if a_kind rec = Some StandingKind \<or> a_kind rec = Some ServiceKind \<or> a_conversation rec = Some i then ret ()
                 else hubWrite (putAgent (rec\<lparr>a_conversation := Some i\<rparr>)))))"

subsection \<open>Every operation keeps the hub well formed\<close>

lemma wf_putAgent [pres]: "wf_op (hubWrite (putAgent r))"
  by (rule pres_hubWrite) (rule putAgent_wf)

lemma wf_paneIndex [pres]: "wf_op (hubSet (putPaneIndex p i))" "wf_op (hubSet (removePaneIndex p))"
  by (rule pres_hubSet; simp add: hub_wf_def putPaneIndex_def removePaneIndex_def)+

lemma wf_markStopped [pres]: "wf_op (markStopped rec pane)"
  unfolding markStopped_def by (intro pres)

lemma wf_stopRuntime [pres]: "wf_op (stopRuntime H given rec)"
  unfolding stopRuntime_def by (intro pres)

lemma wf_stopUnit [pres]: "wf_op (stopUnit H given ref)"
  unfolding stopUnit_def by (intro pres)

lemma wf_adapterOr [pres]: "preserves P (adapterOr H given)"
  unfolding adapterOr_def by (intro pres)

lemma wf_openAgain [pres]: "wf_op (openAgain H given rec launch resume)"
  unfolding openAgain_def by (intro pres)

lemma wf_bindRuntime [pres]: "wf_op (bindRuntime H rec pane)"
  unfolding bindRuntime_def by (intro pres)

lemma wf_startAgain [pres]: "others_wf H \<Longrightarrow> wf_op (startAgain H given rec h prev opts)"
  unfolding startAgain_def by (intro pres)

lemma wf_restartUnit [pres]: "others_wf H \<Longrightarrow> wf_op (restartUnit H given ref opts)"
  unfolding restartUnit_def by (intro pres)

lemma wf_rebindUnit [pres]: "wf_op (rebindUnit H given ref)"
  unfolding rebindUnit_def rebindTo_def rebindWrite_def by (intro pres)

lemma wf_showUnit [pres]: "preserves P (showUnit H given ref)"
  unfolding showUnit_def by (intro pres)

lemma wf_recordConversation [pres]: "wf_op (recordConversation H parsed)"
  unfolding recordConversation_def by (intro pres)

subsection \<open>Stopping\<close>

lemma resolveAgent_stored:
  assumes "hub_wf h" "resolveAgent ref h = Inr rec"
  shows "stored h rec" "safe_id (a_id rec)"
proof -
  obtain rs where rs: "listAgents h = Inr rs" "set rs = {a. stored h a}" by (rule listAgents_stored [OF assms(1)])
  have "stored h rec"
  proof (cases "getAgent ref h")
    case (Inr found)
    show ?thesis
    proof (cases found)
      case None
      obtain live dead where m: "matchHandle rs ref = (live, dead)" by fastforce
      then have live: "set live \<subseteq> set rs" by (auto simp: matchHandle_def Let_def)
      have "rec \<in> set rs"
      proof (cases "pickLive ref live")
        case (Inr q)
        show ?thesis
        proof (cases q)
          case (Some a)
          with Inr m None \<open>getAgent ref h = Inr found\<close> rs(1) assms(2) have "pickLive ref live = Inr (Some rec)"
            by (simp add: resolveAgent_def)
          with live pickLive_mem show ?thesis by blast
        next
          case q: None
          define bs where "bs = filter (\<lambda>a. branchOf a = Some ref) rs"
          have f: "(case find (\<lambda>a. a_status a \<noteq> Exited) bs of Some a \<Rightarrow> Inr a
              | None \<Rightarrow> Inl (unaddressable ref (dedupById [] (dead @ filter (\<lambda>a. a_status a = Exited) bs)))) = Inr rec"
            using Inr m None q \<open>getAgent ref h = Inr found\<close> rs(1) assms(2)
            by (simp only: resolveAgent_def Let_def bs_def sum.case option.case prod.case)
          then have "find (\<lambda>a. a_status a \<noteq> Exited) bs = Some rec"
            by (cases "find (\<lambda>a. a_status a \<noteq> Exited) bs") simp_all
          then have "rec \<in> set bs" by (auto dest: find_Some_set)
          then show ?thesis by (simp add: bs_def)
        qed
      qed (use m None \<open>getAgent ref h = Inr found\<close> rs(1) assms(2) in \<open>simp add: resolveAgent_def\<close>)
      with rs(2) show ?thesis by simp
    next
      case (Some a)
      with Inr assms getAgent_wf_id [OF assms(1), of ref a] show ?thesis by (auto simp: resolveAgent_def stored_def)
    qed
  qed (use assms(2) in \<open>simp add: resolveAgent_def\<close>)
  then show "stored h rec" .
  then show "safe_id (a_id rec)" using getAgent_wf_id [OF assms(1), of "a_id rec" rec] by (simp add: stored_def)
qed

lemma markStopped_run:
  assumes "safe_id (a_id rec)"
  obtains h where "putAgent (stopped_rec rec) (hub w) = Inr h"
    "markStopped rec pane w = (Inr (stopped_rec rec), w\<lparr>hub := (case truthy pane of None \<Rightarrow> h | Some p \<Rightarrow> removePaneIndex p h)\<rparr>)"
proof -
  obtain h where h: "putAgent (stopped_rec rec) (hub w) = Inr h"
    using assms agent_store.put_total [of "stopped_rec rec"] by (auto simp: stopped_rec_def)
  with that show thesis
    by (simp add: markStopped_def andThen_def hubWrite_run hubSet_run ret_def split: option.splits)
qed

text \<open>The hub after a unit was recorded stopped, its pane's pointer dropped, and nothing else touched.\<close>

definition recorded_stopped :: "agent \<Rightarrow> string option \<Rightarrow> hub \<Rightarrow> hub \<Rightarrow> bool" where
  "recorded_stopped rec pane h h' \<longleftrightarrow>
     getAgent (a_id rec) h' = Inr (Some (stopped_rec rec)) \<and>
     (\<forall>j. j \<noteq> a_id rec \<longrightarrow> getAgent j h' = getAgent j h) \<and>
     (\<forall>p. pane = Some p \<longrightarrow> resolvePaneId p h' = None) \<and>
     h' = h\<lparr>h_agents := h_agents h', h_panes := h_panes h'\<rparr>"

lemma markStopped_recorded:
  assumes "safe_id (a_id rec)"
  shows "\<exists>w'. markStopped rec pane w = (Inr (stopped_rec rec), w') \<and> ext w' = ext w \<and>
    recorded_stopped rec (truthy pane) (hub w) (hub w')"
proof -
  obtain h where h: "putAgent (stopped_rec rec) (hub w) = Inr h"
    "markStopped rec pane w = (Inr (stopped_rec rec), w\<lparr>hub := (case truthy pane of None \<Rightarrow> h | Some p \<Rightarrow> removePaneIndex p h)\<rparr>)"
    by (rule markStopped_run [OF assms])
  have "recorded_stopped rec (truthy pane) (hub w) (case truthy pane of None \<Rightarrow> h | Some p \<Rightarrow> removePaneIndex p h)"
    using h(1) assms agent_store.get_put [OF h(1)]
    by (auto simp: recorded_stopped_def stopped_rec_def putAgent_simp resolvePaneId_def removePaneIndex_def getAgent_simp
        dget_dput split: option.split)
  with h(2) show ?thesis by simp
qed

text \<open>What a stop that is recorded says of the panes the backend lists.\<close>

definition pane_gone :: "'x host \<Rightarrow> 'x adapter option \<Rightarrow> agent \<Rightarrow> stop_result \<Rightarrow> 'x \<Rightarrow> 'x \<Rightarrow> bool" where
  "pane_gone H given rec s x x' \<longleftrightarrow>
     (case (st_pane s, paneAdapter H given rec x) of
        (Some p, Some A) \<Rightarrow> p \<notin> lp_id ` set (ad_listPanes A x') \<and> (st_verified s \<longleftrightarrow> ad_listPanes A x' \<noteq> [])
      | _ \<Rightarrow> \<not> st_verified s)"

lemma stopRuntime_run:
  assumes "safe_id (a_id rec)" "stopRuntime H given rec w = (r, w')"
  shows "(\<exists>p A. runtimePane rec (hub w) = Some p \<and> paneAdapter H given rec (ext w) = Some A \<and>
           r = Inl (RuntimeE (StopNoEffect p)) \<and> p \<in> lp_id ` set (ad_listPanes A (ext w')) \<and> hub w' = hub w) \<or>
    (\<exists>s. r = Inr s \<and> \<not> st_alreadyStopped s \<and> st_agent s = stopped_rec rec \<and>
       st_pane s = truthy (runtimePane rec (hub w)) \<and> pane_gone H given rec s (ext w) (ext w') \<and>
       recorded_stopped rec (st_pane s) (hub w) (hub w'))"
proof -
  consider (none) "truthy (runtimePane rec (hub w)) = None"
    | (blind) p where "truthy (runtimePane rec (hub w)) = Some p" "paneAdapter H given rec (ext w) = None"
    | (seen) p A where "truthy (runtimePane rec (hub w)) = Some p" "paneAdapter H given rec (ext w) = Some A"
    by (cases "truthy (runtimePane rec (hub w))"; cases "paneAdapter H given rec (ext w)") auto
  then show ?thesis
  proof cases
    case none
    obtain v where "markStopped rec None w = (Inr (stopped_rec rec), v)" "recorded_stopped rec None (hub w) (hub v)"
      using markStopped_recorded [OF assms(1), of None w] truthy_simps(1) by metis
    with none assms(2) show ?thesis by (simp add: stopRuntime_def andThen_def hubGet_run ret_def pane_gone_def) auto
  next
    case blind
    then have p: "truthy (Some p) = Some p" by (simp add: truthy_Some)
    obtain v where "markStopped rec (Some p) w = (Inr (stopped_rec rec), v)" "recorded_stopped rec (Some p) (hub w) (hub v)"
      using markStopped_recorded [OF assms(1), of "Some p" w] p by metis
    with blind assms(2) show ?thesis
      by (simp add: stopRuntime_def andThen_def hubGet_run extGet_run ret_def pane_gone_def) auto
  next
    case seen
    then have p: "truthy (Some p) = Some p" by (simp add: truthy_Some)
    obtain q x where t: "ad_teardown A p (ext w) = (q, x)" by fastforce
    define w1 where "w1 = w\<lparr>ext := x\<rparr>"
    obtain v where v: "markStopped rec (Some p) w1 = (Inr (stopped_rec rec), v)" "ext v = x"
        "recorded_stopped rec (Some p) (hub w) (hub v)"
      using markStopped_recorded [OF assms(1), of "Some p" w1] p
      by (metis w1_def world.select_convs(1,2) world.surjective world.update_convs(2))
    show ?thesis
    proof (cases "p \<in> lp_id ` set (ad_listPanes A x)")
      case True
      then have "r = Inl (RuntimeE (StopNoEffect p))" "w' = w1"
        using assms(2) seen t by (auto simp: stopRuntime_def andThen_def hubGet_run extGet_run tryE_def extEff_def throw_def w1_def)
      with True seen show ?thesis by (auto simp: truthy_Some w1_def)
    next
      case False
      then have "r = Inr \<lparr>st_agent = stopped_rec rec, st_pane = Some p, st_verified = (ad_listPanes A x \<noteq> []), st_alreadyStopped = False\<rparr>"
        "w' = v"
        using assms(2) seen t v(1) unfolding w1_def
        by (auto simp: stopRuntime_def andThen_def hubGet_run extGet_run tryE_def extEff_def ret_def)
      with False seen v show ?thesis by (auto simp: pane_gone_def)
    qed
  qed
qed


subsection \<open>Restarting\<close>

lemma openAgain_frame:
  "keeps (\<lambda>w. h_agents (hub w)) (openAgain H given rec launch resume)"
  "keeps (\<lambda>w. h_inbox (hub w)) (openAgain H given rec launch resume)"
  "keeps (\<lambda>w. h_root (hub w)) (openAgain H given rec launch resume)"
  unfolding openAgain_def adapterOr_def sessionAdapter_def composeLaunchLine_def writeSelfShim_def
  by (intro frame; simp)+

lemma getAgent_agents: "h_agents h' = h_agents h \<Longrightarrow> h_root h' = h_root h \<Longrightarrow> getAgent j h' = getAgent j h"
  by (simp add: getAgent_simp)

definition rebound :: "agent \<Rightarrow> agent \<Rightarrow> bool" where
  "rebound rec a \<longleftrightarrow> (\<exists>pane t. a = rec\<lparr>a_status := Active, a_pane := pane, a_lastSeen := t\<rparr>)"

definition restarted :: "agent \<Rightarrow> restart_result \<Rightarrow> hub \<Rightarrow> hub \<Rightarrow> bool" where
  "restarted rec s h h' \<longleftrightarrow> rebound rec (rr_agent s) \<and>
     getAgent (a_id rec) h' = Inr (Some (rr_agent s)) \<and> (\<forall>j. j \<noteq> a_id rec \<longrightarrow> getAgent j h' = getAgent j h) \<and>
     h_inbox h' = h_inbox h \<and> resolvePaneId (rr_pane s) h' = Some (trim (a_id rec))"

lemma startAgain_run:
  assumes "alone H" "safe_id (a_id rec)" "startAgain H given rec h prev opts w = (r, w')"
  shows "(\<exists>e. r = Inl (RestartOpenFailed (a_handle rec) e) \<and> h_agents (hub w') = h_agents (hub w) \<and>
      h_inbox (hub w') = h_inbox (hub w) \<and> h_root (hub w') = h_root (hub w)) \<or>
    (\<exists>s. r = Inr s \<and> restarted rec s (hub w) (hub w'))"
proof -
  define launch where "launch = defaultTo (a_launch rec) (LAUNCH_MAP h)"
  define resume where "resume = (case truthy (a_conversation rec) of None \<Rightarrow> None
    | Some c \<Rightarrow> if rp_fresh opts then None else resumeLaunch h launch c)"
  obtain q w1 where o: "openAgain H given rec launch resume w = (q, w1)" by fastforce
  note kept = openAgain_frame [THEN keepsD, OF o]
  show ?thesis
  proof (cases q)
    case (Inl e)
    with assms(3) o have "r = Inl (RestartOpenFailed (a_handle rec) e)" "w' = w1"
      by (simp_all add: startAgain_def Let_def andThen_def tryE_def throw_def flip: launch_def resume_def)
    with kept show ?thesis by simp
  next
    case (Inr Ap)
    obtain A pane where Ap: "Ap = (A, pane)" by fastforce
    define bound where "bound = rec\<lparr>a_status := Active, a_pane := pane_in (ad_name A) pane, a_lastSeen := os_now H (ext w1)\<rparr>"
    obtain h1 where h1: "putAgent bound (hub w1) = Inr h1"
      using assms(2) agent_store.put_total [of bound "hub w1"] by (auto simp: bound_def)
    define w2 where "w2 = w1\<lparr>hub := putPaneIndex pane (a_id rec) h1\<rparr>"
    obtain k v where wake: "wakeSpawn H (ret A)
        \<lparr>ws_target = pane, ws_briefPath = defaultTo (a_brief bound) [],
         ws_noWake = (rp_noWake opts \<or> truthy (a_brief bound) = None),
         ws_resumed = (resume \<noteq> None), ws_harness = None\<rparr> (rp_nudge opts) default_guard w2 = (Inr k, v)" "hub v = hub w2"
      by (rule wakeSpawn_run [OF assms(1) keeps_ret])
    have b: "bindRuntime H rec (pane_in (ad_name A) pane) w1 = (Inr bound, w1\<lparr>hub := h1\<rparr>)"
      using h1 by (simp add: bindRuntime_def andThen_def now_run hubWrite_run ret_def flip: bound_def)
    have "startAgain H given rec h prev opts w =
      (Inr \<lparr>rr_agent = bound, rr_previousPane = prev, rr_pane = pane, rr_launch = launch,
          rr_resumed = (resume \<noteq> None), rr_rung = wr_rung k, rr_warning = wr_warning k\<rparr>, v)"
      using o Inr Ap b wake(1)
      by (simp add: startAgain_def Let_def andThen_def tryE_def hubSet_run ret_def w2_def flip: launch_def resume_def)
    with assms(3) have r: "r = Inr \<lparr>rr_agent = bound, rr_previousPane = prev, rr_pane = pane, rr_launch = launch,
          rr_resumed = (resume \<noteq> None), rr_rung = wr_rung k, rr_warning = wr_warning k\<rparr>" "w' = v" by simp_all
    have put: "h1 = (hub w1)\<lparr>h_agents := dput (a_id rec @ json) (Json bound) (h_agents (hub w1))\<rparr>"
      using h1 assms(2) by (simp add: putAgent_simp bound_def)
    have "getAgent j (hub w') = (if j = a_id rec then Inr (Some bound) else getAgent j (hub w))" for j
      using agent_store.get_put [OF h1, of j] getAgent_agents [of "hub w'" h1 j] getAgent_agents [OF kept(1,3), of j] r(2) wake(2)
      by (simp add: w2_def putPaneIndex_def bound_def)
    moreover have "resolvePaneId pane (hub w') = Some (trim (a_id rec))"
      using r(2) wake(2) by (simp add: w2_def resolvePaneId_def putPaneIndex_def)
    moreover have "h_inbox (hub w') = h_inbox (hub w)"
      using r(2) wake(2) kept(2) put by (simp add: w2_def putPaneIndex_def)
    moreover have "rebound rec bound" by (auto simp: rebound_def bound_def)
    ultimately show ?thesis using r(1) by (simp add: restarted_def)
  qed
qed

lemma restartUnit_cases:
  assumes "restartUnit H given ref opts w = (r, w')"
  shows "(\<exists>e. r = Inl e \<and> w' = w) \<or>
    (\<exists>rec h. resolveAgent ref (hub w) = Inr rec \<and> a_harness rec = Some h \<and>
      (if a_status rec = Stopped then startAgain H given rec h None opts
       else andThen (stopRuntime H given rec) (\<lambda>s. startAgain H given (st_agent s) h (st_pane s) opts)) w = (r, w'))"
proof (cases "resolveAgent ref (hub w)")
  case (Inl e)
  with assms show ?thesis by (auto simp: restartUnit_def andThen_def hubRead_run)
next
  case (Inr rec)
  show ?thesis
  proof (cases "assertHasRuntime rec ref = Inr () \<and> assertNotSelf H rec ''restart'' (hub w) = Inr ()")
    case False
    with assms Inr show ?thesis
      by (cases "assertHasRuntime rec ref"; cases "assertNotSelf H rec ''restart'' (hub w)")
        (auto simp: restartUnit_def andThen_def hubRead_run ofSum_def)
  next
    case True
    with assms Inr have run: "(case a_harness rec of None \<Rightarrow> throw (RuntimeE (NotInLaunchMap (a_handle rec)))
       | Some h \<Rightarrow> andThen (extGet (os_exists H (a_cwd rec))) (\<lambda>there.
         if \<not> there then throw (RuntimeE (CwdGone (a_handle rec)))
         else if a_status rec = Stopped then startAgain H given rec h None opts
         else andThen (stopRuntime H given rec) (\<lambda>s. startAgain H given (st_agent s) h (st_pane s) opts))) w = (r, w')"
      by (simp add: restartUnit_def andThen_def hubRead_run ofSum_def)
    show ?thesis
    proof (cases "a_harness rec")
      case None
      with run have "r = Inl (RuntimeE (NotInLaunchMap (a_handle rec)))" "w' = w" by (simp_all add: throw_def)
      then show ?thesis by blast
    next
      case (Some h)
      with run Inr show ?thesis
        by (cases "os_exists H (a_cwd rec) (ext w)") (auto simp: andThen_def [of "extGet _"] extGet_run throw_def)
    qed
  qed
qed

text \<open>The record a restart leaves when it could not open a session: stopped, everything else kept.\<close>

definition left_stopped :: "agent \<Rightarrow> hub \<Rightarrow> hub \<Rightarrow> bool" where
  "left_stopped rec h h' \<longleftrightarrow>
     getAgent (a_id rec) h' = Inr (Some (if a_status rec = Stopped then rec else stopped_rec rec)) \<and>
     (\<forall>j. j \<noteq> a_id rec \<longrightarrow> getAgent j h' = getAgent j h) \<and> h_inbox h' = h_inbox h"


subsection \<open>Rebinding\<close>

definition rebinds :: "'x host \<Rightarrow> 'x adapter option \<Rightarrow> agent \<Rightarrow> mux \<Rightarrow> string \<Rightarrow> 'x world \<Rightarrow> bool" where
  "rebinds H given rec m cur w \<longleftrightarrow> \<not> boundTo rec m cur (hub w) \<and> heldByOther rec cur (hub w) = Inr None \<and>
     (left_pane rec cur (hub w) = None \<or> probeLiveness H given rec w \<notin> {RLive, RUnknown})"

definition pane_at :: "mux \<Rightarrow> string \<Rightarrow> pane_loc" where
  "pane_at m cur = \<lparr>pn_mux = m, pn_id = cur, pn_window = None, pn_session = None\<rparr>"

definition rebound_to :: "agent \<Rightarrow> pane_loc \<Rightarrow> agent \<Rightarrow> hub \<Rightarrow> hub \<Rightarrow> bool" where
  "rebound_to rec p a h h' \<longleftrightarrow>
     rebound rec a \<and> a_pane a = Some p \<and> getAgent (a_id rec) h' = Inr (Some a) \<and>
     (\<forall>j. j \<noteq> a_id rec \<longrightarrow> getAgent j h' = getAgent j h) \<and>
     resolvePaneId (pn_id p) h' = Some (trim (a_id rec)) \<and> h_inbox h' = h_inbox h"

lemma rebindWrite_run:
  assumes "safe_id (a_id rec)"
  shows "\<exists>a w'. rebindWrite H rec m cur moved w = (Inr a, w') \<and> rebound_to rec (pane_at m cur) a (hub w) (hub w')"
proof -
  define bound where "bound = rec\<lparr>a_status := Active, a_pane := Some (pane_at m cur), a_lastSeen := os_now H (ext w)\<rparr>"
  define h1 where "h1 = (hub w)\<lparr>h_agents := dput (a_id rec @ json) (Json bound) (h_agents (hub w))\<rparr>"
  have put: "putAgent bound (hub w) = Inr h1" using assms by (simp add: putAgent_simp bound_def h1_def)
  have b: "bindRuntime H rec (Some (pane_at m cur)) w = (Inr bound, w\<lparr>hub := h1\<rparr>)"
    using put by (simp add: bindRuntime_def andThen_def now_run hubWrite_run ret_def flip: bound_def)
  define h2 where "h2 = putPaneIndex cur (a_id rec) (case moved of None \<Rightarrow> h1 | Some q \<Rightarrow> removePaneIndex q h1)"
  have files: "h_agents h2 = h_agents h1" "h_root h2 = h_root h1" "h_inbox h2 = h_inbox h1"
    by (simp_all add: h2_def putPaneIndex_def removePaneIndex_def split: option.split)
  have "getAgent j h2 = (if j = a_id rec then Inr (Some bound) else getAgent j (hub w))" for j
    using agent_store.get_put [OF put, of j] getAgent_agents [OF files(1,2), of j] by (simp add: bound_def)
  moreover have "rebound rec bound" "a_pane bound = Some (pane_at m cur)" by (auto simp: rebound_def bound_def)
  moreover have "resolvePaneId cur h2 = Some (trim (a_id rec))" by (simp add: h2_def resolvePaneId_def putPaneIndex_def)
  moreover have "h_inbox h2 = h_inbox (hub w)" using files(3) by (simp add: h1_def)
  moreover have "rebindWrite H rec m cur moved w = (Inr bound, w\<lparr>hub := h2\<rparr>)"
    by (simp add: rebindWrite_def andThen_def b [unfolded pane_at_def] hubSet_run ret_def h2_def split: option.split)
  ultimately show ?thesis
    by (intro exI [of _ bound] exI [of _ "w\<lparr>hub := h2\<rparr>"]) (simp add: rebound_to_def pane_at_def)
qed

lemma rebindTo_run:
  assumes "safe_id (a_id rec)" "rebindTo H given rec m cur w = (r, w')"
  shows "(\<exists>e. r = Inl e \<and> w' = w) \<or> (r = Inr rec \<and> w' = w \<and> boundTo rec m cur (hub w)) \<or>
    (\<exists>a. r = Inr a \<and> rebinds H given rec m cur w \<and> rebound_to rec (pane_at m cur) a (hub w) (hub w'))"
proof (cases "boundTo rec m cur (hub w)")
  case True
  with assms(2) show ?thesis by (auto simp: rebindTo_def andThen_def hubGet_run ret_def)
next
  case False
  then have run: "(case heldByOther rec cur (hub w) of
      Inl e \<Rightarrow> (Inl e, w)
    | Inr (Some other) \<Rightarrow> (Inl (RuntimeE (PaneHeld (a_handle other))), w)
    | Inr None \<Rightarrow> if left_pane rec cur (hub w) \<noteq> None \<and> probeLiveness H given rec w \<in> {RLive, RUnknown}
        then (Inl (RuntimeE (MayStillRun (a_handle rec))), w)
        else rebindWrite H rec m cur (left_pane rec cur (hub w)) w) = (r, w')"
    using assms(2)
    by (auto simp: rebindTo_def andThen_def hubGet_run hubRead_run reads_def throw_def
        split: sum.splits option.splits if_splits)
  show ?thesis
  proof (cases "rebinds H given rec m cur w")
    case True
    with run have "rebindWrite H rec m cur (left_pane rec cur (hub w)) w = (r, w')"
      by (auto simp: rebinds_def)
    with rebindWrite_run [OF assms(1), of H m cur "left_pane rec cur (hub w)" w] True show ?thesis by auto
  next
    case refused: False
    with run False show ?thesis by (auto simp: rebinds_def split: sum.splits option.splits if_splits)
  qed
qed


subsection \<open>Concrete runs\<close>

lemma resolveAgent_pane_hub: "resolveAgent ''a'' pane_hub = Inr (paned ''a'' ''%3'')"
  by (simp add: resolveAgent_def getAgent_pane_hub)

lemma paned_simps [simp]:
  "a_id (paned i p) = i" "a_kind (paned i p) = None" "a_status (paned i p) = Idle" "a_harness (paned i p) = Some Claude"
  "a_worktree (paned i p) = None" "a_brief (paned i p) = None" "a_launch (paned i p) = None"
  "a_conversation (paned i p) = None"
  "a_pane (paned i p) = Some \<lparr>pn_mux = Tmux, pn_id = p, pn_window = None, pn_session = None\<rparr>"
  by (simp_all add: paned_def demo_agent_def)

definition pane_world :: "nat world" where
  "pane_world = demo_world\<lparr>hub := pane_hub\<rparr>"

lemma pane_world_simps [simp]: "hub pane_world = pane_hub" "hub_wf (hub pane_world)"
  by (simp_all add: pane_world_def pane_hub_wf)

lemma safe_a: "safe_id ''a''"
  by (simp add: safe_id_def unsafe_char_def slash_def)


definition folder_host :: "nat host" where
  "folder_host = demo_host\<lparr>os_exists := (\<lambda>p x. True)\<rparr>"


definition tmux_host :: "nat host" where
  "tmux_host = demo_host\<lparr>mx_currentPane := (\<lambda>e. Some (''tmux'', ''%9''))\<rparr>"


end
