(* ===== verification/Worktrees.thy ===== *)
theory Worktrees
  imports Types
begin

text \<open>
  \<open>worktree-lease.ts\<close>, and the two packages through which units get and give back worktrees
  (\<open>cyber-agentkit/worktrees\<close>, \<open>cyber-mux/worktree\<close>): a record of functions, arguments of whatever uses
  them. The creator a caller hands to \<open>acquire\<close> answers with the pane it opened, if it opened one;
  the library's answer carries the last such answer, which is how the code's closure variable is modelled.
\<close>

record create_req =
  cr_primaryRoot :: string
  cr_path :: string
  cr_base :: string
  cr_branch :: string

record acquire_opts =
  aq_primaryRoot :: string
  aq_holder :: string
  aq_branch :: string
  aq_base :: string
  aq_ignore :: "string list"

record acquired =
  ac_worktree :: string
  ac_leaseId :: string
  ac_reused :: bool
  ac_opened :: "string option"

text \<open>A backend that creates and opens a worktree in one call: the root it made and its pane.\<close>

record atomic_opts =
  at_primaryRoot :: string
  at_path :: string
  at_branch :: "string option"
  at_base :: "string option"
  at_launch :: string
  at_label :: "string option"

record 'x atomic_backend =
  ab_createInWorkspace :: "atomic_opts \<Rightarrow> (error, 'x, string \<times> string) eff"
  ab_openInWorkspace :: "atomic_opts \<Rightarrow> (error, 'x, string) eff"

record 'x worktree_lib =
  wl_primaryRoot :: "string option \<Rightarrow> (error, 'x, string) eff"
  wl_gitCreate :: "create_req \<Rightarrow> (error, 'x, unit) eff"
  wl_acquire :: "acquire_opts \<Rightarrow> (create_req \<Rightarrow> ('x, string option) op) \<Rightarrow> ('x, acquired) op"
  wl_release :: "string \<Rightarrow> wt_lease \<Rightarrow> (error, 'x, string) eff"
  wl_remove :: "string \<Rightarrow> string \<Rightarrow> (error, 'x, unit) eff"
  wl_assertDistinct :: "string \<Rightarrow> string \<Rightarrow> 'x \<Rightarrow> error + unit"
  wl_atomic :: "mux \<Rightarrow> 'x atomic_backend option"

definition WORKTREE_MARKER :: string where
  "WORKTREE_MARKER = ''.agents/cyberlegion/config.json''"

definition leaseHolder :: "string \<Rightarrow> string" where
  "leaseHolder i = ''cyberlegion:'' @ i"

definition LEASE_IGNORE :: "string list" where
  "LEASE_IGNORE = [WORKTREE_MARKER]"

end
