(* ===== verification/Decommission.thy ===== *)
theory Decommission
  imports Identity Message Worktrees
begin

text \<open>
  \<open>decommission.ts\<close>: tearing a unit down and reaping its record. The steps before the reap write
  nothing to the hub.
\<close>

record decommission_input =
  di_id :: string
  di_force :: bool
  di_keepWorktree :: bool

record decommission_result =
  dr_agent :: agent
  dr_worktreeRoot :: "string option"
  dr_retainedWorktree :: "string option"
  dr_lease :: "string option"
  dr_pane :: "string option"

definition primaryRootOf :: "'x worktree_lib \<Rightarrow> string \<Rightarrow> ('x, string) op" where
  "primaryRootOf L root =
     andThen (tryE (extEff (wl_primaryRoot L (Some root)))) (\<lambda>r.
     case r of Inl e \<Rightarrow> throw (TeardownE (UnknownRepository root)) | Inr p \<Rightarrow> ret p)"

text \<open>Whether a line of the status is more than the marker that spawn itself put there.\<close>

definition dirty_status :: "string option \<Rightarrow> bool" where
  "dirty_status status = (case truthy status of
       None \<Rightarrow> False
     | Some s \<Rightarrow> \<exists>line\<in>set (split_on (CHR 0x0A) s). line \<noteq> [] \<and> line \<noteq> ''?? '' @ WORKTREE_MARKER)"

definition status_args :: "string \<Rightarrow> string list" where
  "status_args root = [''-C'', root, ''status'', ''--porcelain'', ''--untracked-files=all'']"

definition isDirty :: "'x host \<Rightarrow> string \<Rightarrow> ('x, bool) op" where
  "isDirty H root = andThen (exec H ''git'' (status_args root)) (\<lambda>s. ret (dirty_status s))"

text \<open>The unit's own worktree as the teardown sees it, with the primary checkout of its repository.\<close>

record wt_view =
  wv_root :: "string option"
  wv_exists :: bool
  wv_primary :: "string option"
  wv_lease :: "wt_lease option"

definition viewWorktree :: "'x host \<Rightarrow> 'x worktree_lib \<Rightarrow> agent \<Rightarrow> ('x, wt_view) op" where
  "viewWorktree H L rec =
     (let root = map_option wt_root (a_worktree rec); lease = Option.bind (a_worktree rec) wt_lease
      in andThen (extGet (\<lambda>x. case root of None \<Rightarrow> False | Some r \<Rightarrow> os_exists H r x)) (\<lambda>there.
         andThen (if there
           then andThen (primaryRootOf L (the root)) (\<lambda>p. ret (Some p))
           else ret (Option.bind (a_worktree rec) wt_primaryRoot)) (\<lambda>primary.
         ret \<lparr>wv_root = root, wv_exists = there, wv_primary = primary, wv_lease = lease\<rparr>)))"

definition is_primary :: "'x host \<Rightarrow> wt_view \<Rightarrow> bool" where
  "is_primary H v = (case (truthy (wv_root v), truthy (wv_primary v)) of
       (Some r, Some p) \<Rightarrow> resolve_path (os_cwd H) r = resolve_path (os_cwd H) p
     | _ \<Rightarrow> False)"

definition removes_worktree :: "decommission_input \<Rightarrow> wt_view \<Rightarrow> bool" where
  "removes_worktree inp v \<longleftrightarrow> wv_exists v \<and> \<not> di_keepWorktree inp \<and> wv_lease v = None"

definition pruneGone :: "'x host \<Rightarrow> wt_view \<Rightarrow> ('x, unit) op" where
  "pruneGone H v = (case (truthy (wv_root v), truthy (wv_primary v)) of
       (Some r, Some p) \<Rightarrow>
         if wv_exists v then ret ()
         else andThen (extGet (os_exists H p)) (\<lambda>there.
              if there then andThen (exec H ''git'' [''-C'', p, ''worktree'', ''prune'']) (\<lambda>_. ret ()) else ret ())
     | _ \<Rightarrow> ret ())"

definition releaseHeld :: "'x worktree_lib \<Rightarrow> wt_view \<Rightarrow> ('x, string option) op" where
  "releaseHeld L v = (case (wv_lease v, truthy (wv_root v)) of
       (Some l, Some r) \<Rightarrow> andThen (extEff (wl_release L r l)) (\<lambda>x. ret (Some x))
     | _ \<Rightarrow> ret None)"

definition removeWorktree :: "'x worktree_lib \<Rightarrow> decommission_input \<Rightarrow> wt_view \<Rightarrow> ('x, unit) op" where
  "removeWorktree L inp v =
     (if removes_worktree inp v
      then andThen (tryE (extEff (wl_remove L (the (wv_root v)) (defaultTo (wv_primary v) [])))) (\<lambda>r.
           case r of Inl e \<Rightarrow> throw (RemovalFailed (di_id inp) e) | Inr _ \<Rightarrow> ret ())
      else ret ())"

definition teardownPane :: "'x host \<Rightarrow> string option \<Rightarrow> ('x, unit) op" where
  "teardownPane H pane = (case truthy pane of
       None \<Rightarrow> ret ()
     | Some p \<Rightarrow>
         andThen (extGet (selectSessionAdapter H)) (\<lambda>m.
         case m of
           Inl e \<Rightarrow> ret ()
         | Inr mx \<Rightarrow> andThen (tryE (extEff (ad_teardown (mx_adapter H mx) p))) (\<lambda>_. ret ())))"

text \<open>The reap: the record, the pane's pointer, the brief and shim, the mailbox.\<close>

definition reap :: "string \<Rightarrow> string option \<Rightarrow> ('x, unit) op" where
  "reap i pane =
     andThen (hubWrite (removeAgent i)) (\<lambda>_.
     andThen (case truthy pane of None \<Rightarrow> ret () | Some p \<Rightarrow> hubSet (removePaneIndex p)) (\<lambda>_.
     andThen (hubWrite (removeAgentData i)) (\<lambda>_.
     hubWrite (deleteMailbox i))))"

definition closePane :: "agent \<Rightarrow> string \<Rightarrow> hub \<Rightarrow> string option" where
  "closePane rec i h = (case a_pane rec of Some p \<Rightarrow> Some (pn_id p) | None \<Rightarrow> findPaneByAgentId i h)"

text \<open>Everything up to the reap: the refusals, then the worktree, then the pane.\<close>

definition teardown ::
  "'x host \<Rightarrow> 'x worktree_lib \<Rightarrow> decommission_input \<Rightarrow> agent \<Rightarrow> ('x, wt_view \<times> string option \<times> string option) op" where
  "teardown H L inp rec =
     andThen (viewWorktree H L rec) (\<lambda>v.
     if is_primary H v then throw (TeardownE (RefusedPrimary (di_id inp)))
     else andThen (if removes_worktree inp v \<and> \<not> di_force inp then isDirty H (the (wv_root v)) else ret False) (\<lambda>dirty.
     if dirty then throw (TeardownE (DirtyWorktree (di_id inp)))
     else andThen (hubGet (closePane rec (di_id inp))) (\<lambda>pane.
     andThen (pruneGone H v) (\<lambda>_.
     andThen (releaseHeld L v) (\<lambda>lease.
     andThen (removeWorktree L inp v) (\<lambda>_.
     andThen (teardownPane H pane) (\<lambda>_.
     ret (v, lease, pane))))))))"

definition decommission :: "'x host \<Rightarrow> 'x worktree_lib \<Rightarrow> decommission_input \<Rightarrow> ('x, decommission_result) op" where
  "decommission H L inp =
     andThen (hubRead (getAgent (di_id inp))) (\<lambda>found.
     case found of
       None \<Rightarrow> throw (TeardownE (NoUnit (di_id inp)))
     | Some rec \<Rightarrow>
         if a_kind rec = Some ServiceKind then throw (TeardownE (RefusedEndpoint (di_id inp)))
         else andThen (teardown H L inp rec) (\<lambda>(v, lease, pane).
              andThen (reap (di_id inp) pane) (\<lambda>_.
              ret \<lparr>dr_agent = rec, dr_worktreeRoot = wv_root v,
                   dr_retainedWorktree = (if wv_exists v \<and> (di_keepWorktree inp \<or> wv_lease v \<noteq> None) then wv_root v else None),
                   dr_lease = lease, dr_pane = pane\<rparr>)))"

lemma wf_reap [pres]: "wf_op (reap i pane)"
  unfolding reap_def deleteMailbox_def
  by (intro pres) (auto elim: removeAgent_wf removeAgentData_wf removeMailbox_wf)

lemma hub_teardown: "keeps hub (teardown H L inp rec)"
  unfolding teardown_def viewWorktree_def primaryRootOf_def isDirty_def pruneGone_def releaseHeld_def removeWorktree_def
    teardownPane_def Let_def
  by (intro frame keeps_hub_extEff [of id, simplified] keeps_hub_exec [of id, simplified])

lemma keeps_hub_op: "keeps hub m \<Longrightarrow> hub_op P m"
  by (simp add: keeps_def preserves_def)

lemma wf_decommission [pres]: "wf_op (decommission H L inp)"
  unfolding decommission_def by (intro pres keeps_hub_op [OF hub_teardown])

subsection \<open>What a decommission removes\<close>

text \<open>The hub after a unit was reaped: nothing of the unit is left, everything else is as before.\<close>

definition reaped_unit :: "string \<Rightarrow> string option \<Rightarrow> hub \<Rightarrow> hub \<Rightarrow> bool" where
  "reaped_unit i pane h h' \<longleftrightarrow>
     getAgent i h' = Inr None \<and> dget (h_inbox h') i = None \<and> dget (h_data h') i = None \<and>
     (\<forall>p. truthy pane = Some p \<longrightarrow> resolvePaneId p h' = None) \<and>
     (\<forall>j. j \<noteq> i \<longrightarrow> getAgent j h' = getAgent j h \<and> dget (h_inbox h') j = dget (h_inbox h) j \<and>
        dget (h_data h') j = dget (h_data h) j) \<and>
     h' = h\<lparr>h_agents := h_agents h', h_inbox := h_inbox h', h_data := h_data h', h_panes := h_panes h'\<rparr>"

lemma reap_run:
  assumes "safe_id i"
  shows "\<exists>w'. reap i pane w = (Inr (), w') \<and> ext w' = ext w \<and> reaped_unit i pane (hub w) (hub w')"
proof -
  define h' where "h' = (hub w)\<lparr>h_agents := ddel (i @ json) (h_agents (hub w)),
     h_panes := (case truthy pane of None \<Rightarrow> h_panes (hub w) | Some p \<Rightarrow> ddel (paneKey p) (h_panes (hub w))),
     h_data := ddel i (h_data (hub w)), h_inbox := ddel i (h_inbox (hub w))\<rparr>"
  have "reap i pane w = (Inr (), w\<lparr>hub := h'\<rparr>)"
    using assms
    by (simp add: reap_def andThen_def hubWrite_run hubSet_run ret_def removeAgent_simp removeAgentData_simp
        deleteMailbox_def removeMailbox_simp removePaneIndex_def h'_def split: option.split)
  moreover have "reaped_unit i pane (hub w) h'"
    using assms by (auto simp: reaped_unit_def h'_def getAgent_simp dget_ddel resolvePaneId_def split: option.split)
  ultimately show ?thesis by simp
qed

text \<open>
  A log of the worktrees that were removed from disk: only the removal adds to it, whether or not it
  fails.
\<close>

definition removal_log :: "'x host \<Rightarrow> 'x worktree_lib \<Rightarrow> ('x \<Rightarrow> string list) \<Rightarrow> bool" where
  "removal_log H L log \<longleftrightarrow>
     (\<forall>r p x. log (snd (wl_remove L r p x)) = log x @ [r]) \<and>
     (\<forall>c args x. log (snd (os_exec H c args x)) = log x) \<and>
     (\<forall>d x. log (snd (wl_primaryRoot L d x)) = log x) \<and>
     (\<forall>r l x. log (snd (wl_release L r l x)) = log x) \<and>
     (\<forall>m p x. log (snd (ad_teardown (mx_adapter H m) p x)) = log x)"

lemma removal_log_remove:
  "removal_log H L log \<Longrightarrow> wl_remove L r p x = (c, x') \<Longrightarrow> log x' = log x @ [r]"
  by (metis removal_log_def snd_conv)

lemma keeps_log_extEff: "(\<And>x. log (snd (m x)) = log x) \<Longrightarrow> keeps (\<lambda>w. log (ext w)) (extEff m)"
  by (simp add: keeps_def extEff_def split_beta)

lemma keeps_log_exec: "(\<And>x. log (snd (os_exec H c as x)) = log x) \<Longrightarrow> keeps (\<lambda>w. log (ext w)) (exec H c as)"
  by (simp add: keeps_def exec_def extStep_def split_beta)

lemma keeps_log_hub: "keeps (\<lambda>w. log (ext w)) (hubWrite f)" "keeps (\<lambda>w. log (ext w)) (hubSet g)"
  by (simp_all add: keeps_def hubWrite_run hubSet_run split: sum.split)

lemma removal_logs:
  assumes "removal_log H L log"
  shows "keeps (\<lambda>w. log (ext w)) (viewWorktree H L rec)" "keeps (\<lambda>w. log (ext w)) (isDirty H r)"
    "keeps (\<lambda>w. log (ext w)) (pruneGone H v)" "keeps (\<lambda>w. log (ext w)) (releaseHeld L v)"
    "keeps (\<lambda>w. log (ext w)) (teardownPane H pane)" "keeps (\<lambda>w. log (ext w)) (reap i pane)"
  unfolding viewWorktree_def primaryRootOf_def isDirty_def pruneGone_def releaseHeld_def teardownPane_def reap_def Let_def
  by (intro frame keeps_log_extEff keeps_log_exec keeps_log_hub; use assms in \<open>simp add: removal_log_def\<close>)+

lemma viewWorktree_run:
  assumes "viewWorktree H L rec w = (Inr v, w')"
  shows "wv_root v = map_option wt_root (a_worktree rec) \<and> wv_lease v = Option.bind (a_worktree rec) wt_lease \<and>
    (wv_exists v \<longrightarrow> (\<exists>r p x. wv_root v = Some r \<and> wv_primary v = Some p \<and> wl_primaryRoot L (Some r) (ext w) = (Inr p, x)))"
  using assms
  by (cases "a_worktree rec")
    (auto simp: viewWorktree_def primaryRootOf_def Let_def andThen_def extGet_run tryE_def extEff_def throw_def ret_def
      split: if_splits prod.splits sum.splits)

text \<open>A removal is due: the worktree is there, not the primary checkout, not leased, not to be kept, and clean or forced.\<close>

definition removal_due :: "'x host \<Rightarrow> 'x worktree_lib \<Rightarrow> decommission_input \<Rightarrow> agent \<Rightarrow> 'x \<Rightarrow> string \<Rightarrow> bool" where
  "removal_due H L inp rec x root \<longleftrightarrow>
     map_option wt_root (a_worktree rec) = Some root \<and> Option.bind (a_worktree rec) wt_lease = None \<and>
     \<not> di_keepWorktree inp \<and>
     (\<exists>primary x'. wl_primaryRoot L (Some root) x = (Inr primary, x') \<and>
        (root = [] \<or> primary = [] \<or> resolve_path (os_cwd H) root \<noteq> resolve_path (os_cwd H) primary)) \<and>
     (di_force inp \<or> (\<exists>x. \<not> dirty_status (fst (os_exec H ''git'' (status_args root) x))))"

lemma teardown_removal:
  assumes "removal_log H L log" "teardown H L inp rec w = (q, w')"
  shows "log (ext w') = log (ext w) \<or> (\<exists>root. removal_due H L inp rec (ext w) root \<and> log (ext w') = log (ext w) @ [root])"
proof -
  note logs = removal_logs [OF assms(1), THEN keepsD]
  obtain a w1 where 1: "viewWorktree H L rec w = (a, w1)" by fastforce
  show ?thesis
  proof (cases "\<exists>v. a = Inr v \<and> \<not> is_primary H v")
    case False
    with 1 assms(2) have "w' = w1" by (cases a) (auto simp: teardown_def andThen_def throw_def)
    with logs(1) [OF 1] show ?thesis by simp
  next
    case True
    then obtain v where v: "a = Inr v" "\<not> is_primary H v" by blast
    note root = viewWorktree_run [OF 1 [unfolded v(1)]]
    define check where "check = (if removes_worktree inp v \<and> \<not> di_force inp then isDirty H (the (wv_root v)) else ret False)"
    obtain b w2 where 2: "check w1 = (b, w2)" by fastforce
    have l2: "log (ext w2) = log (ext w)"
      using 2 logs(1) [OF 1] logs(2) [of "the (wv_root v)" w1] by (auto simp: check_def ret_def split: if_splits)
    show ?thesis
    proof (cases "b = Inr False")
      case False
      with 1 2 v assms(2) have "w' = w2"
        by (cases b) (auto simp: teardown_def andThen_def throw_def simp flip: check_def)
      with l2 show ?thesis by simp
    next
      case True
      have clean: "removes_worktree inp v \<Longrightarrow>
          di_force inp \<or> (\<exists>x. \<not> dirty_status (fst (os_exec H ''git'' (status_args (the (wv_root v))) x)))"
        using 2 True
        by (auto simp: check_def isDirty_def andThen_def exec_run ret_def split: if_splits prod.splits intro!: exI [of _ "ext w1"])
      define pane where "pane = closePane rec (di_id inp) (hub w2)"
      have run: "andThen (pruneGone H v) (\<lambda>_. andThen (releaseHeld L v) (\<lambda>lease.
          andThen (removeWorktree L inp v) (\<lambda>_. andThen (teardownPane H pane) (\<lambda>_. ret (v, lease, pane))))) w2 = (q, w')"
        using 1 2 v True assms(2)
        by (simp add: teardown_def andThen_def [of "viewWorktree H L rec"] andThen_def [of check] andThen_def [of "hubGet _"]
            hubGet_run pane_def flip: check_def)
      show ?thesis
      proof (cases "removes_worktree inp v")
        case False
        then have "keeps (\<lambda>w. log (ext w)) (removeWorktree L inp v)" by (simp add: removeWorktree_def keeps_ret)
        then have "keeps (\<lambda>w. log (ext w)) (andThen (pruneGone H v) (\<lambda>_. andThen (releaseHeld L v) (\<lambda>lease.
          andThen (removeWorktree L inp v) (\<lambda>_. andThen (teardownPane H pane) (\<lambda>_. ret (v, lease, pane))))))"
          by (intro frame removal_logs [OF assms(1)])
        from keepsD [OF this run] l2 show ?thesis by simp
      next
        case due: True
        then have ex: "wv_exists v" "wv_lease v = None" "\<not> di_keepWorktree inp" by (auto simp: removes_worktree_def)
        then obtain r p x where r: "wv_root v = Some r" "wv_primary v = Some p" "wl_primaryRoot L (Some r) (ext w) = (Inr p, x)"
          using root by blast
        have "r = [] \<or> p = [] \<or> resolve_path (os_cwd H) r \<noteq> resolve_path (os_cwd H) p"
          using v(2) r(1,2) by (cases r; cases p) (auto simp: is_primary_def)
        moreover have "di_force inp \<or> (\<exists>x. \<not> dirty_status (fst (os_exec H ''git'' (status_args r) x)))"
          using clean [OF due] r(1) by simp
        moreover have "map_option wt_root (a_worktree rec) = Some r" "Option.bind (a_worktree rec) wt_lease = None"
          using root r(1) ex(2) by simp_all
        ultimately have due': "removal_due H L inp rec (ext w) r"
          using r(3) ex(3) by (auto simp: removal_due_def)
        have kept: "log (ext w3) = log (ext w2) @ [r]" if "removeWorktree L inp v w2 = (c, w3)" for c w3
          using that due r(1)
          by (auto simp: removeWorktree_def andThen_def tryE_def extEff_def throw_def ret_def
              split: prod.splits sum.splits dest: removal_log_remove [OF assms(1)])
        have "pruneGone H v = ret ()" "releaseHeld L v = ret None"
          using ex by (auto simp: pruneGone_def releaseHeld_def split: option.splits)
        with run have run': "andThen (removeWorktree L inp v) (\<lambda>_. andThen (teardownPane H pane) (\<lambda>_. ret (v, None, pane))) w2 = (q, w')"
          by simp
        obtain c w3 where c: "removeWorktree L inp v w2 = (c, w3)" by fastforce
        have "log (ext w') = log (ext w3)"
        proof (cases c)
          case (Inl e)
          with run' c show ?thesis by (simp add: andThen_def)
        next
          case (Inr u)
          with run' c have rest: "andThen (teardownPane H pane) (\<lambda>_. ret (v, None, pane)) w3 = (q, w')"
            by (simp add: andThen_def)
          have "keeps (\<lambda>w. log (ext w)) (andThen (teardownPane H pane) (\<lambda>_. ret (v, None :: string option, pane)))"
            by (intro frame removal_logs [OF assms(1)])
          from keepsD [OF this rest] show ?thesis .
        qed
        with kept [OF c] l2 due' show ?thesis by auto
      qed
    qed
  qed
qed


text \<open>Packages whose outside world is the list of the worktrees removed so far.\<close>

definition demo_lib :: "string list worktree_lib" where
  "demo_lib = \<lparr>
     wl_primaryRoot = (\<lambda>d. ret ''/repo''),
     wl_gitCreate = (\<lambda>req. ret ()),
     wl_acquire = (\<lambda>opts create. ret \<lparr>ac_worktree = ''/repo.worktrees/repo-1'', ac_leaseId = ''l'', ac_reused = True, ac_opened = None\<rparr>),
     wl_release = (\<lambda>r l. ret ''released''),
     wl_remove = (\<lambda>r p x. (Inr (), x @ [r])),
     wl_assertDistinct = (\<lambda>d p x. Inr ()),
     wl_atomic = (\<lambda>m. None)\<rparr>"

definition wt_host :: "string list host" where
  "wt_host = quiet_host\<lparr>os_exists := (\<lambda>p x. True)\<rparr>"

definition wt_unit :: agent where
  "wt_unit = (demo_agent ''a'')\<lparr>a_worktree := Some \<lparr>wt_root = ''/wt'', wt_branch = None, wt_primaryRoot = None, wt_lease = None\<rparr>\<rparr>"

definition wt_world :: "string list world" where
  "wt_world = \<lparr>hub = (empty_hub ''/hub'')\<lparr>h_agents := [(''a.json'', Json wt_unit)]\<rparr>, ext = []\<rparr>"


end
