(* ===== verification/Session.thy ===== *)
theory Session
  imports Doorbell Launch WorkspaceLabel Worktrees
begin

text \<open>
  \<open>session.ts\<close>: spawning a unit into a worktree or a folder, its first turn, and the operations on the
  pane of a live unit. The worktree packages are the record of functions of \<open>Worktrees\<close>. A harness name
  is in the launch map when it is one of its own keys.
\<close>

subsection \<open>What a spawn is given and what it gives\<close>

record spawn_input =
  sp_harness :: "string option"
  sp_task :: "string option"
  sp_briefFile :: "string option"
  sp_handle :: "string option"
  sp_command :: "string option"
  sp_briefInstructions :: "string option"
  sp_branch :: "string option"
  sp_worktreePath :: "string option"
  sp_cwd :: "string option"
  sp_repo :: "string option"
  sp_base :: "string option"
  sp_at :: "string option"
  sp_cwdOwnRepo :: bool

text \<open>Why a new branch is cut from local HEAD rather than origin's default branch.\<close>

datatype base_fallback = NoOrigin | FetchFailed | UnknownDefault

record spawn_base =
  sb_ref :: string
  sb_fallback :: "base_fallback option"

record spawn_result =
  sr_agent :: agent
  sr_pane :: string
  sr_launch :: string
  sr_base :: "spawn_base option"
  sr_reused :: "bool option"

subsection \<open>The steps of a spawn\<close>

definition primaryRootOfRepo :: "'x host \<Rightarrow> 'x worktree_lib \<Rightarrow> string \<Rightarrow> ('x, string) op" where
  "primaryRootOfRepo H L repo =
     andThen (tryE (extEff (wl_primaryRoot L (Some (resolve_path (os_cwd H) repo))))) (\<lambda>r.
     case r of Inl e \<Rightarrow> throw (SpawnE (NotInRepo repo)) | Inr p \<Rightarrow> ret p)"

definition primaryRootOf :: "'x host \<Rightarrow> string \<Rightarrow> ('x, string option) op" where
  "primaryRootOf H dir = extGet (mx_primaryRoot H (Some (resolve_path (os_cwd H) dir)))"

definition git_in :: "'x host \<Rightarrow> string \<Rightarrow> string list \<Rightarrow> ('x, string option) op" where
  "git_in H root args = exec H ''git'' ([''-C'', root] @ args)"

definition localBase :: "base_fallback \<Rightarrow> ('x, spawn_base) op" where
  "localBase f = ret \<lparr>sb_ref = ''HEAD'', sb_fallback = Some f\<rparr>"

definition resolveSpawnBase :: "'x host \<Rightarrow> string \<Rightarrow> string option \<Rightarrow> ('x, spawn_base) op" where
  "resolveSpawnBase H primary base =
     (case truthy base of
        Some b \<Rightarrow> ret \<lparr>sb_ref = b, sb_fallback = None\<rparr>
      | None \<Rightarrow>
          andThen (git_in H primary [''remote'', ''get-url'', ''origin'']) (\<lambda>origin.
          if origin = None then localBase NoOrigin
          else andThen (git_in H primary [''fetch'', ''--quiet'', ''origin'']) (\<lambda>fetched.
          if fetched = None then localBase FetchFailed
          else andThen (git_in H primary [''symbolic-ref'', ''--quiet'', ''--short'', ''refs/remotes/origin/HEAD'']) (\<lambda>head.
          case truthy head of
            None \<Rightarrow> localBase UnknownDefault
          | Some r \<Rightarrow> ret \<lparr>sb_ref = r, sb_fallback = None\<rparr>))))"

definition resolveBrief :: "'x host \<Rightarrow> spawn_input \<Rightarrow> 'x \<Rightarrow> error + string option" where
  "resolveBrief H inp x = (case truthy (sp_briefFile inp) of
       Some file \<Rightarrow> (case os_readFile H file x of None \<Rightarrow> Inl (StoreE (Errno ''ENOENT'')) | Some t \<Rightarrow> Inr (Some t))
     | None \<Rightarrow>
         if sp_task inp = Some ''-'' then Inr (Some (os_stdin H))
         else Inr (truthy (sp_task inp)))"

definition labelFor :: "string \<Rightarrow> spawn_input \<Rightarrow> string \<Rightarrow> string \<Rightarrow> string option" where
  "labelFor tier inp brief i =
     (if tier \<noteq> ''workspace'' then None
      else Some (deriveWorkspaceLabel \<lparr>lb_brief = brief, lb_handle = sp_handle inp, lb_id = i\<rparr>))"

definition assertDistinct :: "'x worktree_lib \<Rightarrow> string \<Rightarrow> string \<Rightarrow> ('x, unit) op" where
  "assertDistinct L root primary = reads (\<lambda>w. wl_assertDistinct L root primary (ext w))"

text \<open>\<open>paths.ts\<close>'s marker, stamped into a worktree, which is not the hub.\<close>

definition marker_text :: string where
  "marker_text = ''{'' @ nl @ ''  '' @ dquote @ ''version'' @ dquote @ '': 1'' @ nl @ ''}'' @ nl"

definition stampMarker :: "'x host \<Rightarrow> string \<Rightarrow> ('x, unit) op" where
  "stampMarker H root =
     (let marker = path_join root [WORKTREE_MARKER]
      in andThen (extGet (os_exists H marker)) (\<lambda>there.
         if there then ret () else extEff (os_writeFile H marker marker_text)))"

text \<open>What is fixed before anything is opened.\<close>

record 'x spawn_plan =
  spl_host :: "'x host"
  spl_lib :: "'x worktree_lib"
  spl_input :: spawn_input
  spl_backend :: mux
  spl_unit :: string
  spl_brief :: string
  spl_launch :: string

abbreviation plan_adapter :: "'x spawn_plan \<Rightarrow> 'x adapter" where
  "plan_adapter P \<equiv> mx_adapter (spl_host P) (spl_backend P)"

definition launchLine :: "'x spawn_plan \<Rightarrow> ('x, string) op" where
  "launchLine P =
     composeLaunchLine (spl_host P) (ad_name (plan_adapter P)) (spl_unit P) (spl_launch P)
       \<lparr>ln_bindSelf = False, ln_fallback = None\<rparr>"

definition openSession :: "'x spawn_plan \<Rightarrow> string \<Rightarrow> string \<Rightarrow> ('x, string) op" where
  "openSession P cwd tier =
     andThen (launchLine P) (\<lambda>line.
     extEff (ad_open (plan_adapter P)
       \<lparr>oo_cwd = cwd, oo_launch = line, oo_at = tier,
        oo_from = mx_callerPane (spl_host P) (ad_name (plan_adapter P)) (normalizeMuxEnv (os_env (spl_host P))),
        oo_label = labelFor tier (spl_input P) (spl_brief P) (spl_unit P)\<rparr>))"

text \<open>Where a unit was placed: its folder, its worktree, the branch's base, whether it was recycled, its pane.\<close>

record placed =
  pl_cwd :: string
  pl_worktree :: "worktree option"
  pl_base :: "spawn_base option"
  pl_reused :: "bool option"
  pl_target :: string

definition placeInFolder :: "'x spawn_plan \<Rightarrow> string option \<Rightarrow> string \<Rightarrow> ('x, placed) op" where
  "placeInFolder P primary dir =
     andThen (extGet (os_exists (spl_host P) dir)) (\<lambda>there.
     if \<not> there then throw (SpawnE (CwdMissing dir))
     else let cwd = resolve_path (os_cwd (spl_host P)) dir
          in andThen (case primary of None \<Rightarrow> ret () | Some p \<Rightarrow> assertDistinct (spl_lib P) cwd p) (\<lambda>_.
             andThen (openSession P cwd (defaultTo (sp_at (spl_input P)) ''tab'')) (\<lambda>target.
             ret \<lparr>pl_cwd = cwd, pl_worktree = None, pl_base = None, pl_reused = None, pl_target = target\<rparr>)))"

text \<open>The creator handed to the worktree library; it answers with the pane it opened.\<close>

definition createUnit ::
  "'x spawn_plan \<Rightarrow> string \<Rightarrow> string \<Rightarrow> 'x atomic_backend option \<Rightarrow> string option \<Rightarrow> create_req \<Rightarrow> ('x, string option) op" where
  "createUnit P primary branch atomic label req = (case atomic of
       Some B \<Rightarrow>
         andThen (launchLine P) (\<lambda>line.
         andThen (extEff (ab_createInWorkspace B
           \<lparr>at_primaryRoot = primary, at_path = cr_path req, at_branch = Some branch, at_base = Some (cr_base req),
            at_launch = line, at_label = label\<rparr>)) (\<lambda>(root, target).
         andThen (assertDistinct (spl_lib P) root primary) (\<lambda>_. ret (Some target))))
     | None \<Rightarrow> andThen (extEff (wl_gitCreate (spl_lib P) req)) (\<lambda>_. ret None))"

definition atomicOf :: "'x spawn_plan \<Rightarrow> string \<Rightarrow> 'x atomic_backend option" where
  "atomicOf P tier = (if tier = ''workspace'' then wl_atomic (spl_lib P) (spl_backend P) else None)"

text \<open>The worktree itself: at the named path, or leased from the library; with the pane, if one is open already.\<close>

definition acquireWorktree ::
  "'x spawn_plan \<Rightarrow> string \<Rightarrow> string \<Rightarrow> string \<Rightarrow> (create_req \<Rightarrow> ('x, string option) op) \<Rightarrow>
   ('x, worktree \<times> bool option \<times> string option) op" where
  "acquireWorktree P primary branch base create = (case truthy (sp_worktreePath (spl_input P)) of
       Some path \<Rightarrow>
         andThen (create \<lparr>cr_primaryRoot = primary, cr_path = path, cr_base = base, cr_branch = branch\<rparr>) (\<lambda>opened.
         ret (\<lparr>wt_root = resolve_path (os_cwd (spl_host P)) path, wt_branch = Some branch, wt_primaryRoot = Some primary,
               wt_lease = None\<rparr>, None, opened))
     | None \<Rightarrow>
         andThen (wl_acquire (spl_lib P)
           \<lparr>aq_primaryRoot = primary, aq_holder = leaseHolder (spl_unit P), aq_branch = branch, aq_base = base,
            aq_ignore = LEASE_IGNORE\<rparr> create) (\<lambda>a.
         ret (\<lparr>wt_root = ac_worktree a, wt_branch = Some branch, wt_primaryRoot = Some primary,
               wt_lease = Some \<lparr>wl_leaseId = ac_leaseId a, wl_holder = leaseHolder (spl_unit P)\<rparr>\<rparr>,
              Some (ac_reused a), ac_opened a)))"

definition openPlaced ::
  "'x spawn_plan \<Rightarrow> string \<Rightarrow> string \<Rightarrow> 'x atomic_backend option \<Rightarrow> string option \<Rightarrow> string \<Rightarrow> string option \<Rightarrow> ('x, string) op" where
  "openPlaced P primary tier atomic label root opened = (case opened of
       Some target \<Rightarrow> ret target
     | None \<Rightarrow> (case atomic of
           Some B \<Rightarrow>
             andThen (launchLine P) (\<lambda>line.
             extEff (ab_openInWorkspace B
               \<lparr>at_primaryRoot = primary, at_path = root, at_branch = None, at_base = None, at_launch = line, at_label = label\<rparr>))
         | None \<Rightarrow> openSession P root tier))"

definition placeInWorktree :: "'x spawn_plan \<Rightarrow> string option \<Rightarrow> ('x, placed) op" where
  "placeInWorktree P primaryRoot = (case primaryRoot of
       None \<Rightarrow> throw (SpawnE NeedsPrimary)
     | Some primary \<Rightarrow>
         let H = spl_host P; inp = spl_input P;
             branch = defaultTo (sp_branch inp) (''cyberlegion/unit-'' @ spl_unit P);
             tier = defaultTo (sp_at inp) ''workspace'';
             label = labelFor tier inp (spl_brief P) (spl_unit P);
             atomic = atomicOf P tier
         in andThen (case truthy (sp_worktreePath inp) of
                None \<Rightarrow> ret ()
              | Some path \<Rightarrow> assertDistinct (spl_lib P) (resolve_path (os_cwd H) path) primary) (\<lambda>_.
            andThen (resolveSpawnBase H primary (sp_base inp)) (\<lambda>base.
            andThen (acquireWorktree P primary branch (sb_ref base) (createUnit P primary branch atomic label)) (\<lambda>(wt, reused, opened).
            andThen (assertDistinct (spl_lib P) (wt_root wt) primary) (\<lambda>_.
            andThen (stampMarker H (wt_root wt)) (\<lambda>_.
            andThen (openPlaced P primary tier atomic label (wt_root wt) opened) (\<lambda>target.
            ret \<lparr>pl_cwd = wt_root wt, pl_worktree = Some wt, pl_base = Some base, pl_reused = reused, pl_target = target\<rparr>)))))))"

definition place :: "'x spawn_plan \<Rightarrow> string option \<Rightarrow> ('x, placed) op" where
  "place P primary = (case truthy (sp_cwd (spl_input P)) of
       Some dir \<Rightarrow> placeInFolder P primary dir
     | None \<Rightarrow> placeInWorktree P primary)"

text \<open>The record, the pane's pointer and the brief of the unit that was opened.\<close>

definition unitRecord :: "'x spawn_plan \<Rightarrow> harness \<Rightarrow> placed \<Rightarrow> nat \<Rightarrow> string \<Rightarrow> string option \<Rightarrow> agent" where
  "unitRecord P h pl ts brief parent =
     \<lparr>a_id = spl_unit P, a_handle = defaultTo (sp_handle (spl_input P)) (take 6 (spl_unit P)), a_harness = Some h,
      a_cwd = pl_cwd pl, a_worktree = pl_worktree pl, a_pane = pane_in (ad_name (plan_adapter P)) (pl_target pl),
      a_status = Active, a_createdAt = ts, a_lastSeen = ts, a_brief = Some brief, a_launch = Some (spl_launch P),
      a_conversation = None, a_spawnedBy = parent, a_kind = None, a_service = None, a_presence = None, a_home = None\<rparr>"

definition registerUnit :: "'x spawn_plan \<Rightarrow> harness \<Rightarrow> placed \<Rightarrow> ('x, spawn_result) op" where
  "registerUnit P h pl =
     andThen (now (spl_host P)) (\<lambda>ts.
     andThen (hubRead (\<lambda>x. briefFile (h_root x) (spl_unit P))) (\<lambda>file.
     andThen (hubGet (\<lambda>x. truthy (resolveSelfId (spl_host P) x))) (\<lambda>parent.
     let rec = unitRecord P h pl ts file parent
     in andThen (hubWrite (putAgent rec)) (\<lambda>_.
        andThen (hubSet (putPaneIndex (pl_target pl) (spl_unit P))) (\<lambda>_.
        andThen (hubWrite (writeBrief (spl_unit P) (composeBrief (spl_brief P) (sp_briefInstructions (spl_input P))))) (\<lambda>_.
        ret \<lparr>sr_agent = rec, sr_pane = pl_target pl, sr_launch = spl_launch P, sr_base = pl_base pl, sr_reused = pl_reused pl\<rparr>))))))"

definition cwdFlagClash :: "spawn_input \<Rightarrow> bool" where
  "cwdFlagClash inp \<longleftrightarrow>
     truthy (sp_cwd inp) \<noteq> None \<and>
     (truthy (sp_branch inp) \<noteq> None \<or> truthy (sp_worktreePath inp) \<noteq> None \<or> truthy (sp_repo inp) \<noteq> None \<or>
      truthy (sp_base inp) \<noteq> None)"

definition spawnPrimary :: "'x host \<Rightarrow> 'x worktree_lib \<Rightarrow> spawn_input \<Rightarrow> ('x, string option) op" where
  "spawnPrimary H L inp =
     (if sp_cwd inp \<noteq> None \<and> sp_cwdOwnRepo inp then primaryRootOf H (defaultTo (sp_cwd inp) [])
      else (case truthy (sp_repo inp) of
          Some repo \<Rightarrow> andThen (primaryRootOfRepo H L repo) (\<lambda>p. ret (Some p))
        | None \<Rightarrow> andThen (extEff (wl_primaryRoot L None)) (\<lambda>p. ret (Some p))))"

definition spawnChecks :: "'x host \<Rightarrow> spawn_input \<Rightarrow> ('x, mux \<times> harness \<times> string) op" where
  "spawnChecks H inp =
     andThen (reads (\<lambda>w. selectSessionAdapter H (ext w))) (\<lambda>m.
     case Option.bind (sp_harness inp) parse_harness of
       None \<Rightarrow> throw (SpawnE NeedsHarness)
     | Some h \<Rightarrow>
         andThen (reads (\<lambda>w. resolveBrief H inp (ext w))) (\<lambda>brief.
         case brief of
           None \<Rightarrow> throw (SpawnE NoBrief)
         | Some b \<Rightarrow> if cwdFlagClash inp then throw (SpawnE CwdWithWorktreeFlags) else ret (m, h, b)))"

definition spawn :: "'x host \<Rightarrow> 'x worktree_lib \<Rightarrow> spawn_input \<Rightarrow> ('x, spawn_result) op" where
  "spawn H L inp =
     andThen (hubSet ensureMarker) (\<lambda>_.
     andThen (spawnChecks H inp) (\<lambda>(m, h, brief).
     andThen (randomId H) (\<lambda>i.
     andThen (spawnPrimary H L inp) (\<lambda>primary.
     let P = \<lparr>spl_host = H, spl_lib = L, spl_input = inp, spl_backend = m, spl_unit = i, spl_brief = brief,
              spl_launch = defaultTo (sp_command inp) (LAUNCH_MAP h)\<rparr>
     in andThen (place P primary) (\<lambda>pl. registerUnit P h pl)))))"

subsection \<open>The first turn\<close>

definition settleTrust :: "'x host \<Rightarrow> spawn_result \<Rightarrow> trust_opts \<Rightarrow> bool \<Rightarrow> ('x, trust_outcome) op" where
  "settleTrust H res opts trustFolder =
     andThen (tryE (sessionAdapter H)) (\<lambda>ad.
     case ad of
       Inl e \<Rightarrow> ret TUnsettled
     | Inr A \<Rightarrow> (case a_harness (sr_agent res) of
           None \<Rightarrow> throw (HostError ''TypeError'')
         | Some h \<Rightarrow>
             answerTrustPrompt H A (sr_pane res)
               \<lparr>ti_harness = h, ti_folder = a_cwd (sr_agent res), ti_pane = sr_pane res,
                ti_policy = (if a_worktree (sr_agent res) \<noteq> None \<or> trustFolder then Accept else Ask)\<rparr> opts))"

text \<open>A blocked trust prompt is a trust outcome of that kind, so the outcome says it all.\<close>

definition settleSpawnTrust :: "'x host \<Rightarrow> spawn_result \<Rightarrow> trust_opts \<Rightarrow> bool \<Rightarrow> ('x, first_turn) op" where
  "settleSpawnTrust H res opts trustFolder =
     andThen (settleTrust H res opts trustFolder) (\<lambda>t.
     ret \<lparr>ft_rung = False, ft_warning = None, ft_trust = t\<rparr>)"

definition ringSpawnFirstTurn :: "'x host \<Rightarrow> spawn_result \<Rightarrow> first_turn \<Rightarrow> bool \<Rightarrow> ring_opts \<Rightarrow> ('x, first_turn) op" where
  "ringSpawnFirstTurn H res trust noWake nudge =
     andThen (wakeSpawn H (sessionAdapter H)
       \<lparr>ws_target = sr_pane res, ws_briefPath = defaultTo (a_brief (sr_agent res)) [],
        ws_noWake = (noWake \<or> truthy (a_brief (sr_agent res)) = None), ws_resumed = False,
        ws_harness = a_harness (sr_agent res)\<rparr> nudge default_guard) (\<lambda>wake.
     ret \<lparr>ft_rung = wr_rung wake, ft_warning = wr_warning wake, ft_trust = ft_trust trust\<rparr>)"

definition spawnAndWake ::
  "'x host \<Rightarrow> 'x worktree_lib \<Rightarrow> spawn_input \<Rightarrow> bool \<Rightarrow> ring_opts \<Rightarrow> trust_opts \<Rightarrow> ('x, spawn_result \<times> first_turn) op" where
  "spawnAndWake H L inp noWake nudge trustOpts =
     andThen (spawn H L inp) (\<lambda>res.
     andThen (settleSpawnTrust H res trustOpts False) (\<lambda>trust.
     if trust_blocked (ft_trust trust) then ret (res, trust)
     else andThen (ringSpawnFirstTurn H res trust noWake nudge) (\<lambda>turn. ret (res, turn))))"

subsection \<open>The pane of a live unit\<close>

text \<open>A unit is named by a reference, or selected by its worktree's branch or repository.\<close>

datatype unit_ref = ByRef string | BySelector "string option" "string option"

definition paneTargetOf :: "unit_ref \<Rightarrow> hub \<Rightarrow> error + agent \<times> string" where
  "paneTargetOf ref h =
     (case (case ref of ByRef r \<Rightarrow> resolveAgent r h | BySelector repo branch \<Rightarrow> selectAgent repo branch h) of
        Inl e \<Rightarrow> Inl e
      | Inr a \<Rightarrow>
          (case truthy (case a_pane a of Some p \<Rightarrow> Some (pn_id p) | None \<Rightarrow> findPaneByAgentId (a_id a) h) of
             None \<Rightarrow> Inl (RuntimeE (NoPane (case ref of ByRef r \<Rightarrow> r | BySelector repo branch \<Rightarrow> a_id a)))
           | Some pane \<Rightarrow> Inr (a, pane)))"

definition focusUnit :: "'x host \<Rightarrow> unit_ref \<Rightarrow> ('x, agent \<times> string) op" where
  "focusUnit H ref =
     andThen (hubRead (paneTargetOf ref)) (\<lambda>(a, pane).
     andThen (sessionAdapter H) (\<lambda>A.
     andThen (extEff (ad_focus A pane)) (\<lambda>_. ret (a, pane))))"

record nudge_result =
  ng_agent :: agent
  ng_pane :: string
  ng_message :: ustr
  ng_resubmits :: nat

definition nudgeUnit :: "'x host \<Rightarrow> string \<Rightarrow> ustr option \<Rightarrow> ring_opts \<Rightarrow> guard_opts \<Rightarrow> ('x, nudge_result) op" where
  "nudgeUnit H ref text nudge guard =
     andThen (hubRead (paneTargetOf (ByRef ref))) (\<lambda>(a, pane).
     let message = defaultTo (truthy text) DELIVERY_DOORBELL
     in andThen (sessionAdapter H) (\<lambda>A.
        andThen (withDraftGuard H A pane (ringTurn H A pane message nudge)
          (guard\<lparr>go_harness := a_harness a, go_ownText := (\<lambda>t. isRingText t (Some message))\<rparr>)) (\<lambda>k.
        ret \<lparr>ng_agent = a, ng_pane = pane, ng_message = message, ng_resubmits = k\<rparr>)))"

definition readUnit :: "'x host \<Rightarrow> string \<Rightarrow> nat option \<Rightarrow> ('x, agent \<times> string \<times> ustr option) op" where
  "readUnit H ref lines =
     andThen (hubRead (paneTargetOf (ByRef ref))) (\<lambda>(a, pane).
     andThen (sessionAdapter H) (\<lambda>A.
     andThen (reads (\<lambda>w. ad_read A pane lines (ext w))) (\<lambda>output. ret (a, pane, output))))"

definition clearUnit :: "'x host \<Rightarrow> string \<Rightarrow> guard_opts \<Rightarrow> ('x, agent \<times> string \<times> string) op" where
  "clearUnit H ref guard =
     andThen (hubRead (paneTargetOf (ByRef ref))) (\<lambda>(a, pane).
     case a_harness a of
       None \<Rightarrow> throw (SpawnE (NoResetHarness ref))
     | Some h \<Rightarrow>
         andThen (ofSum (resetCommandFor (harness_name h))) (\<lambda>command.
         andThen (sessionAdapter H) (\<lambda>A.
         andThen (withDraftGuard H A pane (extEff (ad_submit A pane (Some (ustr_of command))))
           (guard\<lparr>go_harness := Some h, go_ownText := (\<lambda>t. isRingText t None)\<rparr>)) (\<lambda>_.
         ret (a, pane, command)))))"

subsection \<open>What a spawn may change before it registers the unit\<close>

text \<open>
  The worktree library reaches the hub only through the creator it is given. A predicate of the hub that
  does not depend on the data directory of a unit survives every step before the registration.
\<close>

definition lib_hub :: "'x worktree_lib \<Rightarrow> (hub \<Rightarrow> bool) \<Rightarrow> bool" where
  "lib_hub L P \<longleftrightarrow> (\<forall>opts create. (\<forall>req. hub_op P (create req)) \<longrightarrow> hub_op P (wl_acquire L opts create))"

definition shim_closed :: "(hub \<Rightarrow> bool) \<Rightarrow> string \<Rightarrow> bool" where
  "shim_closed P i \<longleftrightarrow> (\<forall>h d. P h \<longrightarrow> P (h\<lparr>h_data := dput i d (h_data h)\<rparr>))"

lemma pres_launchLine [pres]: "shim_closed Q (spl_unit P) \<Longrightarrow> hub_op Q (launchLine P)"
  unfolding launchLine_def composeLaunchLine_def writeSelfShim_def
  by (intro pres) (simp add: shim_closed_def)

lemma pres_openSession [pres]: "shim_closed Q (spl_unit P) \<Longrightarrow> hub_op Q (openSession P cwd tier)"
  unfolding openSession_def by (intro pres)

lemma pres_assertDistinct [pres]: "preserves Q (assertDistinct L root primary)"
  unfolding assertDistinct_def by (intro pres)

lemma pres_stampMarker [pres]: "hub_op Q (stampMarker H root)"
  unfolding stampMarker_def by (intro pres)

lemma pres_resolveSpawnBase [pres]: "hub_op Q (resolveSpawnBase H primary base)"
  unfolding resolveSpawnBase_def git_in_def localBase_def by (intro pres)

lemma pres_createUnit [pres]: "shim_closed Q (spl_unit P) \<Longrightarrow> hub_op Q (createUnit P primary branch atomic label req)"
  unfolding createUnit_def by (intro pres)

lemma pres_acquireWorktree [pres]:
  "lib_hub (spl_lib P) Q \<Longrightarrow> (\<And>req. hub_op Q (create req)) \<Longrightarrow> hub_op Q (acquireWorktree P primary branch base create)"
  unfolding acquireWorktree_def by (intro pres) (simp_all add: lib_hub_def)

lemma pres_openPlaced [pres]:
  "shim_closed Q (spl_unit P) \<Longrightarrow> hub_op Q (openPlaced P primary tier atomic label root opened)"
  unfolding openPlaced_def by (intro pres)

lemma pres_place [pres]:
  assumes "shim_closed Q (spl_unit P)" "lib_hub (spl_lib P) Q"
  shows "hub_op Q (place P primary)"
  unfolding place_def placeInFolder_def placeInWorktree_def by (intro pres assms)

lemma pres_spawnChecks [pres]: "preserves Q (spawnChecks H inp)"
  unfolding spawnChecks_def by (intro pres)

lemma pres_spawnPrimary [pres]: "hub_op Q (spawnPrimary H L inp)"
  unfolding spawnPrimary_def primaryRootOf_def primaryRootOfRepo_def by (intro pres)

lemma wf_shim_closed: "shim_closed hub_wf i"
  by (simp add: shim_closed_def hub_wf_def)

lemma wf_registerUnit [pres]: "wf_op (registerUnit P h pl)"
  unfolding registerUnit_def by (intro pres) (auto elim: store_wf)

lemma wf_spawn [pres]: "lib_hub L hub_wf \<Longrightarrow> wf_op (spawn H L inp)"
  unfolding spawn_def randomId_def Let_def by (intro pres wf_shim_closed) simp_all

lemma pres_settleSpawnTrust [pres]: "sleep_keeps H Q \<Longrightarrow> hub_op Q (settleSpawnTrust H res opts trustFolder)"
  unfolding settleSpawnTrust_def settleTrust_def by (intro pres)

lemma pres_ringSpawnFirstTurn [pres]: "sleep_keeps H Q \<Longrightarrow> hub_op Q (ringSpawnFirstTurn H res trust noWake nudge)"
  unfolding ringSpawnFirstTurn_def by (intro pres)

lemma wf_spawnAndWake [pres]: "lib_hub L hub_wf \<Longrightarrow> others_wf H \<Longrightarrow> wf_op (spawnAndWake H L inp noWake nudge opts)"
  unfolding spawnAndWake_def by (intro pres)

lemma pres_live_pane [pres]:
  "hub_op Q (focusUnit H ref)"
  "sleep_keeps H Q \<Longrightarrow> hub_op Q (nudgeUnit H name text nudge guard)"
  "preserves R (readUnit H name lines)"
  "sleep_keeps H Q \<Longrightarrow> hub_op Q (clearUnit H name guard)"
  unfolding focusUnit_def nudgeUnit_def readUnit_def clearUnit_def by (intro pres; assumption?)+

subsection \<open>A spawned unit\<close>

text \<open>Nothing but the marker of the hub and the data directory of one unit may differ.\<close>

definition unit_frame :: "string \<Rightarrow> hub \<Rightarrow> hub \<Rightarrow> bool" where
  "unit_frame i h h' \<longleftrightarrow>
     h'\<lparr>h_marker := h_marker h, h_data := h_data h\<rparr> = h \<and>
     (\<forall>j. j \<noteq> i \<longrightarrow> dget (h_data h') j = dget (h_data h) j)"

text \<open>The unit is registered under its pane with its brief, and everything else is as it was.\<close>

definition spawned :: "spawn_input \<Rightarrow> string \<Rightarrow> spawn_result \<Rightarrow> hub \<Rightarrow> hub \<Rightarrow> bool" where
  "spawned inp brief res h h' \<longleftrightarrow>
     (let a = sr_agent res; i = a_id a
      in getAgent i h' = Inr (Some a) \<and> resolvePaneId (sr_pane res) h' = Some (trim i) \<and>
         readBrief i h' = Inr (Some (composeBrief brief (sp_briefInstructions inp))) \<and>
         (\<exists>file. a_brief a = Some file \<and> briefFile (h_root h') i = Inr file) \<and>
         a_status a = Active \<and> a_launch a = Some (sr_launch res) \<and>
         (\<forall>j. j \<noteq> i \<longrightarrow> getAgent j h' = getAgent j h \<and> dget (h_data h') j = dget (h_data h) j) \<and>
         h_inbox h' = h_inbox h \<and>
         (\<forall>p. paneKey p \<noteq> paneKey (sr_pane res) \<longrightarrow> resolvePaneId p h' = resolvePaneId p h))"

text \<open>The folder was checked against the primary checkout; a folder in no repository has none.\<close>

definition kept_apart :: "'x host \<Rightarrow> 'x worktree_lib \<Rightarrow> spawn_input \<Rightarrow> string \<Rightarrow> bool" where
  "kept_apart H L inp folder \<longleftrightarrow>
     (\<exists>p x. wl_assertDistinct L folder p x = Inr () \<and> (\<exists>v. fst (spawnPrimary H L inp v) = Inr (Some p))) \<or>
     (\<exists>dir x. sp_cwd inp = Some dir \<and> sp_cwdOwnRepo inp \<and> mx_primaryRoot H (Some (resolve_path (os_cwd H) dir)) x = None)"

lemma frame_shim_closed: "shim_closed (unit_frame i h) i"
  by (auto simp: shim_closed_def unit_frame_def)

lemma frame_marker [simp]: "unit_frame i h (ensureMarker h)"
  by (simp add: unit_frame_def ensureMarker_def)

lemma frame_fields:
  assumes "unit_frame i h h'"
  shows "h_agents h' = h_agents h" "h_inbox h' = h_inbox h" "h_panes h' = h_panes h" "h_root h' = h_root h"
    "j \<noteq> i \<Longrightarrow> dget (h_data h') j = dget (h_data h) j"
proof -
  let ?f = "h'\<lparr>h_marker := h_marker h, h_data := h_data h\<rparr>"
  have "?f = h" using assms by (simp add: unit_frame_def)
  then have "h_agents ?f = h_agents h" "h_inbox ?f = h_inbox h" "h_panes ?f = h_panes h" "h_root ?f = h_root h" by simp_all
  then show "h_agents h' = h_agents h" "h_inbox h' = h_inbox h" "h_panes h' = h_panes h" "h_root h' = h_root h" by simp_all
  show "j \<noteq> i \<Longrightarrow> dget (h_data h') j = dget (h_data h) j" using assms by (simp add: unit_frame_def)
qed

lemma assertDistinct_run: "assertDistinct L root primary w = (wl_assertDistinct L root primary (ext w), w)"
  by (simp add: assertDistinct_def reads_def)

lemma place_apart:
  assumes "place P primary w = (Inr pl, w')"
  shows "case primary of
      None \<Rightarrow> truthy (sp_cwd (spl_input P)) \<noteq> None
    | Some p \<Rightarrow> \<exists>x. wl_assertDistinct (spl_lib P) (pl_cwd pl) p x = Inr ()"
proof (cases "truthy (sp_cwd (spl_input P))")
  case (Some dir)
  with assms have "placeInFolder P primary dir w = (Inr pl, w')" by (simp add: place_def)
  then show ?thesis using Some
    by (cases primary;
        auto simp: placeInFolder_def Let_def extGet_run throw_def ret_def assertDistinct_run elim!: andThen_okE split: if_splits;
        blast)
next
  case None
  with assms have run: "placeInWorktree P primary w = (Inr pl, w')" by (simp add: place_def)
  show ?thesis
  proof (cases primary)
    case None
    with run show ?thesis by (simp add: placeInWorktree_def throw_def)
  next
    case (Some p)
    show ?thesis using run unfolding Some placeInWorktree_def Let_def option.case
      by (elim andThen_okE; auto simp: assertDistinct_run ret_def elim!: andThen_okE; blast)
  qed
qed

lemma registerUnit_run:
  assumes "registerUnit P h pl w = (r, w')" "unit_frame (spl_unit P) h0 (hub w)"
  shows "case r of
      Inl e \<Rightarrow> hub w' = hub w
    | Inr res \<Rightarrow> a_cwd (sr_agent res) = pl_cwd pl \<and> spawned (spl_input P) (spl_brief P) res h0 (hub w')"
proof (cases "safe_id (spl_unit P)")
  case False
  with assms(1) show ?thesis by (auto simp: registerUnit_def andThen_def now_run hubRead_run path_defs)
next
  case True
  let ?rec = "unitRecord P h pl (os_now (spl_host P) (ext w)) (path_join (h_root (hub w)) [''data'', spl_unit P, ''brief.md''])
     (truthy (resolveSelfId (spl_host P) (hub w)))"
  define h1 where "h1 = (hub w)\<lparr>h_agents := dput (spl_unit P @ json) (Json ?rec) (h_agents (hub w)),
    h_panes := dput (paneKey (pl_target pl)) (spl_unit P) (h_panes (hub w)),
    h_data := dput (spl_unit P) ((defaultTo (dget (h_data (hub w)) (spl_unit P)) empty_data)
       \<lparr>dd_brief := Some (composeBrief (spl_brief P) (sp_briefInstructions (spl_input P)))\<rparr>) (h_data (hub w))\<rparr>"
  have "registerUnit P h pl w =
     (Inr \<lparr>sr_agent = ?rec, sr_pane = pl_target pl, sr_launch = spl_launch P, sr_base = pl_base pl, sr_reused = pl_reused pl\<rparr>,
      w\<lparr>hub := h1\<rparr>)"
    using True
    by (simp add: registerUnit_def andThen_def now_run hubRead_run hubGet_run hubWrite_run hubSet_run ret_def path_defs Let_def
        putAgent_simp writeBrief_def putPaneIndex_def unitRecord_def h1_def)
  moreover have "spawned (spl_input P) (spl_brief P)
     \<lparr>sr_agent = ?rec, sr_pane = pl_target pl, sr_launch = spl_launch P, sr_base = pl_base pl, sr_reused = pl_reused pl\<rparr> h0 h1"
    using True frame_fields [OF assms(2)]
    by (auto simp: spawned_def Let_def h1_def unitRecord_def getAgent_simp resolvePaneId_def readBrief_simp path_defs)
  ultimately show ?thesis using assms(1) by (auto simp: unitRecord_def)
qed

lemma spawnPrimary_none:
  assumes "spawnPrimary H L inp w = (Inr None, w')"
  shows "\<exists>dir. sp_cwd inp = Some dir \<and> sp_cwdOwnRepo inp \<and>
    mx_primaryRoot H (Some (resolve_path (os_cwd H) dir)) (ext w) = None"
  using assms
  by (auto simp: spawnPrimary_def primaryRootOf_def extGet_run ret_def elim!: andThen_okE split: if_splits option.splits)

lemma spawn_outcome:
  fixes H :: "'x host"
  assumes "\<forall>Q. lib_hub L Q" "spawn H L inp w = (r, w')"
  shows "case r of
      Inl e \<Rightarrow> \<exists>i. unit_frame i (hub w) (hub w')
    | Inr res \<Rightarrow> kept_apart H L inp (a_cwd (sr_agent res)) \<and>
        (\<exists>brief. resolveBrief H inp (ext w) = Inr (Some brief) \<and> spawned inp brief res (hub w) (hub w'))"
proof -
  let ?w = "w\<lparr>hub := ensureMarker (hub w)\<rparr>"
  obtain c w1 where c: "spawnChecks H inp ?w = (c, w1)" by fastforce
  have f1: "unit_frame i (hub w) (hub w1)" for i
    by (rule preservesD [OF pres_spawnChecks _ c, of "\<lambda>v. unit_frame i (hub w) (hub v)"]) simp
  show ?thesis
  proof (cases c)
    case (Inl e)
    with assms(2) c f1 show ?thesis by (auto simp: spawn_def andThen_def hubSet_run)
  next
    case (Inr mhb)
    then obtain m h brief where mhb: "c = Inr (m, h, brief)" by (cases mhb) auto
    have brief: "resolveBrief H inp (ext w) = Inr (Some brief)"
      using c mhb by (auto simp: spawnChecks_def reads_def throw_def ret_def elim!: andThen_okE split: option.splits if_splits)
    obtain i w2 where i: "randomId H w1 = (Inr i, w2)" "hub w2 = hub w1"
      by (cases "os_random H 8 (ext w1)") (simp add: randomId_def extStep_def)
    obtain p w3 where p: "spawnPrimary H L inp w2 = (p, w3)" by fastforce
    have f3: "unit_frame i (hub w) (hub w3)"
      by (rule preservesD [OF pres_spawnPrimary _ p]) (simp add: i(2) f1)
    show ?thesis
    proof (cases p)
      case (Inl e)
      with assms(2) c mhb i p f3 show ?thesis by (auto simp: spawn_def andThen_def hubSet_run)
    next
      case (Inr primary)
      define P where "P = \<lparr>spl_host = H, spl_lib = L, spl_input = inp, spl_backend = m, spl_unit = i, spl_brief = brief,
              spl_launch = defaultTo (sp_command inp) (LAUNCH_MAP h)\<rparr>"
      obtain q w4 where q: "place P primary w3 = (q, w4)" by fastforce
      have f4: "unit_frame i (hub w) (hub w4)"
        by (rule preservesD [OF pres_place _ q]) (use assms(1) f3 in \<open>simp_all add: P_def frame_shim_closed\<close>)
      have run: "andThen (place P primary) (\<lambda>pl. registerUnit P h pl) w3 = (r, w')"
        using assms(2) c mhb i p Inr by (simp add: spawn_def andThen_def hubSet_run P_def Let_def)
      show ?thesis
      proof (cases q)
        case (Inl e)
        with run q f4 show ?thesis by (auto simp: andThen_def)
      next
        case (Inr pl)
        with run q have "registerUnit P h pl w4 = (r, w')" by (simp add: andThen_def)
        note reg = registerUnit_run [OF this, of "hub w"]
        have "kept_apart H L inp (pl_cwd pl)"
          using place_apart [of P primary w3 pl w4] q Inr p \<open>p = Inr primary\<close> spawnPrimary_none [of H L inp w2 w3]
          unfolding kept_apart_def P_def by (cases primary) (fastforce intro: exI [of _ w2])+
        with reg f4 brief show ?thesis by (cases r) (auto simp: P_def)
      qed
    qed
  qed
qed


subsection \<open>A concrete spawn\<close>

definition slot_lib :: "nat worktree_lib" where
  "slot_lib = \<lparr>
     wl_primaryRoot = (\<lambda>d. ret ''/home/u/repo''),
     wl_gitCreate = (\<lambda>req. ret ()),
     wl_acquire = (\<lambda>opts create. andThen (create \<lparr>cr_primaryRoot = aq_primaryRoot opts, cr_path = ''/home/u/repo-1'',
         cr_base = aq_base opts, cr_branch = aq_branch opts\<rparr>) (\<lambda>opened.
       ret \<lparr>ac_worktree = ''/home/u/repo-1'', ac_leaseId = ''l1'', ac_reused = False, ac_opened = opened\<rparr>)),
     wl_release = (\<lambda>root l. ret ''released''),
     wl_remove = (\<lambda>root primary. ret ()),
     wl_assertDistinct = (\<lambda>root primary x. if root = primary then Inl (HostError ''primary'') else Inr ()),
     wl_atomic = (\<lambda>m. None)\<rparr>"

definition spawn_host :: "nat host" where
  "spawn_host = demo_host\<lparr>mx_probe := (\<lambda>e x. ''tmux'')\<rparr>"

definition plain_spawn :: spawn_input where
  "plain_spawn = \<lparr>sp_harness = Some ''codex'', sp_task = Some ''fix it'', sp_briefFile = None, sp_handle = None,
     sp_command = None, sp_briefInstructions = None, sp_branch = None, sp_worktreePath = None, sp_cwd = None,
     sp_repo = None, sp_base = Some ''main'', sp_at = Some ''tab'', sp_cwdOwnRepo = False\<rparr>"

lemma lib_hub_slot: "lib_hub slot_lib Q"
  unfolding lib_hub_def slot_lib_def by (auto intro!: pres)

lemma plain_spawn_simps [simp]:
  "sp_harness plain_spawn = Some ''codex''" "sp_task plain_spawn = Some ''fix it''" "sp_briefFile plain_spawn = None"
  "sp_handle plain_spawn = None" "sp_command plain_spawn = None" "sp_briefInstructions plain_spawn = None"
  "sp_branch plain_spawn = None" "sp_worktreePath plain_spawn = None" "sp_cwd plain_spawn = None"
  "sp_repo plain_spawn = None" "sp_base plain_spawn = Some ''main''" "sp_at plain_spawn = Some ''tab''"
  "sp_cwdOwnRepo plain_spawn = False"
  by (simp_all add: plain_spawn_def)

lemma spawn_host_simps [simp]:
  "mx_probe spawn_host e x = ''tmux''" "mx_adapter spawn_host m = demo_adapter (mux_name m) []"
  "os_random spawn_host n x = (''c0ffee'', Suc x)" "os_exists spawn_host p x = False" "os_env spawn_host = []"
  "ctx_self spawn_host = None" "os_writeFile spawn_host p txt = ret ()" "os_now spawn_host x = x"
  "mx_currentPane spawn_host e = None"
  by (simp_all add: spawn_host_def)

lemma spawn_host_steps:
  "spawnChecks spawn_host plain_spawn v = (Inr (Tmux, Codex, ''fix it''), v)"
  "spawnPrimary spawn_host slot_lib plain_spawn v = (Inr (Some ''/home/u/repo''), v)"
  "randomId spawn_host v = (Inr ''c0ffee'', v\<lparr>ext := Suc (ext v)\<rparr>)"
  by (simp_all add: spawnChecks_def andThen_def eff_simps selectSessionAdapter_def parse_harness_def resolveBrief_def
      cwdFlagClash_def spawnPrimary_def randomId_def slot_lib_def)

lemma registerUnit_returns:
  assumes "safe_id (spl_unit P)"
  obtains res v' where "registerUnit P h pl v = (Inr res, v')" "a_harness (sr_agent res) = Some h"
proof -
  have "\<exists>res v'. registerUnit P h pl v = (Inr res, v') \<and> a_harness (sr_agent res) = Some h"
    using assms by (simp add: registerUnit_def andThen_def now_run hubRead_run hubGet_run hubWrite_run hubSet_run ret_def
        path_defs Let_def putAgent_simp writeBrief_def unitRecord_def)
  with that show thesis by blast
qed

lemma place_slot:
  assumes "spl_host P = spawn_host" "spl_lib P = slot_lib" "spl_input P = plain_spawn" "p \<noteq> ''/home/u/repo-1''"
  shows "\<exists>pl v'. place P (Some p) v = (Inr pl, v')"
  using assms
  by (simp add: place_def placeInWorktree_def labelFor_def atomicOf_def resolveSpawnBase_def acquireWorktree_def
        createUnit_def slot_lib_def assertDistinct_run stampMarker_def openPlaced_def openSession_def launchLine_def
        composeLaunchLine_def demo_adapter_def andThen_def eff_simps extGet_run hubGet_run Let_def)

lemma spawn_slot: "isl (fst (spawn spawn_host slot_lib plain_spawn demo_world)) = False"
proof -
  let ?w = "demo_world\<lparr>hub := ensureMarker (hub demo_world), ext := Suc (ext demo_world)\<rparr>"
  let ?P = "\<lparr>spl_host = spawn_host, spl_lib = slot_lib, spl_input = plain_spawn, spl_backend = Tmux, spl_unit = ''c0ffee'',
     spl_brief = ''fix it'', spl_launch = LAUNCH_MAP Codex\<rparr>"
  have "\<exists>pl v. place ?P (Some ''/home/u/repo'') ?w = (Inr pl, v)" by (rule place_slot) simp_all
  then obtain pl v where pl: "place ?P (Some ''/home/u/repo'') ?w = (Inr pl, v)" by blast
  have "safe_id (spl_unit ?P)" by (simp add: safe_id_def unsafe_char_def slash_def)
  then obtain res v' where "registerUnit ?P Codex pl v = (Inr res, v')" by (rule registerUnit_returns)
  with pl show ?thesis by (simp add: spawn_def andThen_def hubSet_run spawn_host_steps Let_def)
qed


end
