(* ===== verification/AgentDef.thy ===== *)
theory AgentDef
  imports Launch
begin

text \<open>
  \<open>agentdef/resolve.ts\<close>: reading an agent definition, a Markdown file whose front matter is a small
  subset of YAML, and finding one by name.
\<close>

subsection \<open>The front matter\<close>

definition cr :: string where
  "cr = [CHR 0x0D]"

definition chomp :: "string \<Rightarrow> string" where
  "chomp line = (if ends_with line cr then butlast line else line)"

definition indented :: "string \<Rightarrow> bool" where
  "indented line \<longleftrightarrow> trim_start line \<noteq> line"

definition unquote :: "string \<Rightarrow> string" where
  "unquote v =
     (if 2 \<le> length v \<and> (starts_with v dquote \<and> ends_with v dquote \<or> starts_with v [quote] \<and> ends_with v [quote])
      then butlast (tl v) else v)"

text \<open>The lines of a block scalar: up to the first one that is not indented, blank ones left out.\<close>

fun block_lines :: "string list \<Rightarrow> string list \<times> string list" where
  "block_lines [] = ([], [])"
| "block_lines (line # rest) =
     (let l = chomp line
      in if trim l = [] then block_lines rest
         else if \<not> indented l then ([], line # rest)
         else (case block_lines rest of (parts, left) \<Rightarrow> (trim l # parts, left)))"

lemma block_lines_shorter: "length (snd (block_lines ls)) \<le> length ls"
  by (induction ls) (auto simp: Let_def split: prod.split)

definition block_mark :: "string \<Rightarrow> bool" where
  "block_mark v \<longleftrightarrow> v \<in> {''>'', ''>-'', ''|'', ''|-''}"

definition before_colon :: "string \<Rightarrow> string" where
  "before_colon line = takeWhile (\<lambda>c. c \<noteq> CHR '':'') line"

definition after_colon :: "string \<Rightarrow> string" where
  "after_colon line = tl (dropWhile (\<lambda>c. c \<noteq> CHR '':'') line)"

text \<open>A line with no meaning of its own: blank, a comment, indented, or without a colon.\<close>

definition skipped :: "string \<Rightarrow> bool" where
  "skipped l \<longleftrightarrow> trim l = [] \<or> starts_with (trim l) ''#'' \<or> indented l \<or> CHR '':'' \<notin> set l"

function fm_lines :: "string list \<Rightarrow> (string, string) dir \<Rightarrow> (string, string) dir" where
  "fm_lines [] fm = fm"
| "fm_lines (line # rest) fm =
     (let l = chomp line
      in if skipped l then fm_lines rest fm
         else let key = trim (before_colon l); value = trim (after_colon l)
              in if block_mark value
                 then let (parts, left) = block_lines rest
                      in fm_lines left (dput key (unquote (join_with (if starts_with value ''|'' then nl else '' '') parts)) fm)
                 else fm_lines rest (dput key (unquote value) fm))"
  by pat_completeness auto
termination
proof (relation "measure (\<lambda>(ls, fm). length ls)", goal_cases)
  case (3 line rest fm l key val p parts left)
  then show ?case using block_lines_shorter [of rest] by (simp add: snd_def split: prod.splits)
qed auto

text \<open>The regular expression that cuts a file into its front matter and the rest.\<close>

definition fence :: "string \<Rightarrow> string option" where
  "fence s =
     (if starts_with s (cr @ nl @ ''---'') then Some (drop 5 s)
      else if starts_with s (nl @ ''---'') then Some (drop 4 s)
      else None)"

fun to_fence :: "string \<Rightarrow> (string \<times> string) option" where
  "to_fence [] = None"
| "to_fence (c # s) = (case fence (c # s) of
       Some rest \<Rightarrow> Some ([], rest)
     | None \<Rightarrow> (case to_fence s of None \<Rightarrow> None | Some (block, rest) \<Rightarrow> Some (c # block, rest)))"

definition frontMatter :: "string \<Rightarrow> (string \<times> string) option" where
  "frontMatter text =
     (if starts_with text (''---'' @ cr @ nl) then to_fence (drop 5 text)
      else if starts_with text (''---'' @ nl) then to_fence (drop 4 text)
      else None)"

definition parseAgentDefFile :: "string \<Rightarrow> (string, string) dir \<times> string" where
  "parseAgentDefFile text = (case frontMatter text of
       None \<Rightarrow> ([], trim text)
     | Some (block, rest) \<Rightarrow> (fm_lines (split_on (CHR 0x0A) block) [], trim rest))"

subsection \<open>Definitions\<close>

record agent_def =
  df_name :: string
  df_description :: "string option"
  df_model :: "string option"
  df_effort :: "string option"
  df_harness :: "harness option"
  df_warm :: "bool option"
  df_interactive :: "bool option"
  df_instructions :: string
  df_path :: string

definition toBool :: "string option \<Rightarrow> bool option" where
  "toBool v = (if v = Some ''true'' then Some True else if v = Some ''false'' then Some False else None)"

definition toHarness :: "string option \<Rightarrow> string \<Rightarrow> error + harness option" where
  "toHarness value path = (case value of
       None \<Rightarrow> Inr None
     | Some v \<Rightarrow> (case parse_harness v of None \<Rightarrow> Inl (ConfigE (AgentUnknownHarness v)) | Some h \<Rightarrow> Inr (Some h)))"

definition toAgentDef :: "string \<Rightarrow> string \<Rightarrow> string \<Rightarrow> error + agent_def" where
  "toAgentDef path text fallbackName =
     (let (fm, instructions) = parseAgentDefFile text
      in case toHarness (dget fm ''harness'') path of
           Inl e \<Rightarrow> Inl e
         | Inr h \<Rightarrow> Inr \<lparr>df_name = defaultTo (dget fm ''name'') fallbackName, df_description = dget fm ''description'',
             df_model = dget fm ''model'', df_effort = dget fm ''effort'', df_harness = h, df_warm = toBool (dget fm ''warm''),
             df_interactive = toBool (dget fm ''interactive''), df_instructions = instructions, df_path = path\<rparr>)"

record resolve_input =
  ri_name :: "string option"
  ri_file :: "string option"
  ri_searchRoots :: "string list"
  ri_cwd :: "string option"

definition projectAgentsDir :: "'x host \<Rightarrow> 'x \<Rightarrow> string option \<Rightarrow> string" where
  "projectAgentsDir H x cwd = path_join (projectRoot H x cwd) [''.agents'', ''agents'']"

definition readText :: "'x host \<Rightarrow> 'x \<Rightarrow> string \<Rightarrow> error + string" where
  "readText H x path = (case os_readFile H path x of None \<Rightarrow> Inl (StoreE (Errno ''ENOENT'')) | Some t \<Rightarrow> Inr t)"

definition readDef :: "'x host \<Rightarrow> 'x \<Rightarrow> string \<Rightarrow> string \<Rightarrow> error + agent_def" where
  "readDef H x path fallbackName = (case readText H x path of Inl e \<Rightarrow> Inl e | Inr t \<Rightarrow> toAgentDef path t fallbackName)"

definition dropMd :: "string \<Rightarrow> string" where
  "dropMd name = (if ends_with name ''.md'' then take (length name - 3) name else name)"

fun searchDef :: "'x host \<Rightarrow> 'x \<Rightarrow> string \<Rightarrow> string list \<Rightarrow> error + agent_def" where
  "searchDef H x name [] = Inl (ConfigE (NoAgentDef name))"
| "searchDef H x name (root # roots) =
     (let candidate = path_join root [name @ ''.md'']
      in if os_exists H candidate x then readDef H x candidate name else searchDef H x name roots)"

definition resolveAgentDef :: "'x host \<Rightarrow> 'x \<Rightarrow> resolve_input \<Rightarrow> error + agent_def" where
  "resolveAgentDef H x inp = (case truthy (ri_file inp) of
       Some file \<Rightarrow>
         let path = resolve_path (os_cwd H) file
         in if \<not> os_exists H path x then Inl (ConfigE (AgentFileMissing file)) else readDef H x path (dropMd (basename path))
     | None \<Rightarrow> (case truthy (ri_name inp) of
           None \<Rightarrow> Inl (ConfigE NoAgentName)
         | Some name \<Rightarrow> searchDef H x name (ri_searchRoots inp @ [projectAgentsDir H x (ri_cwd inp)])))"

text \<open>Listing: a file is read once, even when two roots are the same directory.\<close>

fun defFiles :: "'x host \<Rightarrow> 'x \<Rightarrow> string list \<Rightarrow> (string \<times> string) list" where
  "defFiles H x [] = []"
| "defFiles H x (root # roots) =
     (if os_exists H root x
      then map (\<lambda>file. (path_join root [file], dropMd file)) (filter (\<lambda>file. ends_with file ''.md'') (os_readdir H root x))
      else []) @ defFiles H x roots"

fun readDefs :: "'x host \<Rightarrow> 'x \<Rightarrow> string list \<Rightarrow> (string \<times> string) list \<Rightarrow> error + agent_def list" where
  "readDefs H x seen [] = Inr []"
| "readDefs H x seen ((path, name) # files) =
     (if path \<in> set seen then readDefs H x seen files
      else case readDef H x path name of
        Inl e \<Rightarrow> Inl e
      | Inr d \<Rightarrow> (case readDefs H x (path # seen) files of Inl e \<Rightarrow> Inl e | Inr ds \<Rightarrow> Inr (d # ds)))"

definition listAgentDefs :: "'x host \<Rightarrow> 'x \<Rightarrow> string option \<Rightarrow> string list \<Rightarrow> error + agent_def list" where
  "listAgentDefs H x cwd searchRoots =
     readDefs H x [] (defFiles H x (searchRoots @ [projectAgentsDir H x cwd]))"

subsection \<open>Reading back what was written\<close>

text \<open>A value as it may be written on one line: in quotes of either kind, or bare where that is not read as anything else.\<close>

definition one_line :: "string \<Rightarrow> bool" where
  "one_line s \<longleftrightarrow> CHR 0x0A \<notin> set s \<and> CHR 0x0D \<notin> set s"

definition written_as :: "string \<Rightarrow> string \<Rightarrow> bool" where
  "written_as v t \<longleftrightarrow> t = dquote @ v @ dquote \<or> t = [quote] @ v @ [quote] \<or>
     t = v \<and> trim v = v \<and> \<not> block_mark v \<and> unquote v = v"

definition plain_key :: "string \<Rightarrow> bool" where
  "plain_key k \<longleftrightarrow> k \<noteq> [] \<and> trim k = k \<and> one_line k \<and> CHR '':'' \<notin> set k \<and>
     \<not> starts_with k ''#'' \<and> \<not> starts_with k ''---''"

text \<open>A field is its key, its value and the value as written.\<close>

definition field_line :: "string \<times> string \<times> string \<Rightarrow> string" where
  "field_line f = (case f of (k, v, t) \<Rightarrow> k @ '': '' @ t)"

definition plain_field :: "string \<times> string \<times> string \<Rightarrow> bool" where
  "plain_field f \<longleftrightarrow> (case f of (k, v, t) \<Rightarrow> plain_key k \<and> one_line v \<and> written_as v t)"

definition render :: "(string \<times> string \<times> string) list \<Rightarrow> string \<Rightarrow> string" where
  "render fs body = ''---'' @ nl @ join_with nl (map field_line fs) @ nl @ ''---'' @ nl @ body"

lemma trim_start_id: "trim_start s = s \<longleftrightarrow> s = [] \<or> \<not> is_space (hd s)"
proof (cases s)
  case (Cons c t)
  have "length (dropWhile is_space t) \<le> length t" by (rule length_dropWhile_le)
  then have "dropWhile is_space t \<noteq> c # t" by (metis Suc_n_not_le_n length_Cons)
  with Cons show ?thesis by (simp add: trim_start_def)
qed (simp add: trim_start_def)

lemma length_trim_end: "length (trim_end s) \<le> length s"
  using length_dropWhile_le [of is_space "rev s"] by (simp add: trim_end_def)

lemma trim_id_hd:
  assumes "trim s = s" "s \<noteq> []"
  shows "\<not> is_space (hd s)"
proof
  assume "is_space (hd s)"
  then have "trim_start s = trim_start (tl s)" using assms(2) by (cases s) (simp_all add: trim_start_def)
  then have "length (trim_start s) \<le> length (tl s)" using length_dropWhile_le [of is_space "tl s"] by (simp add: trim_start_def)
  then have "length (trim s) < length s"
    using length_trim_end [of "trim_start s"] assms(2) by (cases s) (simp_all add: trim_def)
  with assms(1) show False by simp
qed

lemma trim_end_last: "s = [] \<or> \<not> is_space (last s) \<Longrightarrow> trim_end s = s"
  by (cases s rule: rev_cases) (simp_all add: trim_end_def)

lemma trim_space: "is_space c \<Longrightarrow> trim (c # s) = trim s"
  by (simp add: trim_def trim_start_def)

lemma hd_trim_end: "trim_end s \<noteq> [] \<Longrightarrow> hd (trim_end s) = hd s"
  by (metis (no_types, lifting) hd_append2 rev_append rev_rev_ident takeWhile_dropWhile_id trim_end_def)

lemma trim_end_nonempty: "\<exists>c\<in>set s. \<not> is_space c \<Longrightarrow> trim_end s \<noteq> []"
  by (auto simp: trim_end_def dropWhile_eq_Nil_conv)

lemma chomp_id: "one_line s \<Longrightarrow> chomp s = s"
  by (cases s rule: rev_cases) (auto simp: chomp_def one_line_def ends_with_def starts_with_def cr_def)

lemma written_text:
  assumes "written_as v t" "one_line v"
  shows "trim t = t" "\<not> block_mark t" "unquote t = v" "one_line t"
proof -
  have q: "\<not> is_space (CHR 0x22)" "\<not> is_space quote" by (simp_all add: is_space_def quote_def)
  have "trim ([c] @ v @ [c]) = [c] @ v @ [c]" if "\<not> is_space c" for c
  proof -
    have "trim_start ([c] @ v @ [c]) = [c] @ v @ [c]" using that by (simp add: trim_start_def)
    moreover have "trim_end ([c] @ v @ [c]) = [c] @ v @ [c]" using that by (intro trim_end_last) simp
    ultimately show ?thesis by (simp only: trim_def)
  qed
  from this [OF q(1)] this [OF q(2)] show "trim t = t" using assms(1) by (auto simp: written_as_def dquote_def)
  show "\<not> block_mark t" "unquote t = v" "one_line t" using assms
    by (auto simp: written_as_def block_mark_def dquote_def quote_def unquote_def one_line_def starts_with_def ends_with_def)
qed

lemma fm_line:
  assumes "plain_key k" "one_line v" "written_as v t"
  shows "fm_lines ((k @ '': '' @ t) # rest) fm = fm_lines rest (dput k v fm)"
proof -
  let ?l = "k @ '': '' @ t"
  note t = written_text [OF assms(3,2)]
  have k: "k \<noteq> []" "trim k = k" "CHR '':'' \<notin> set k" "\<not> starts_with k ''#''" "one_line k"
    using assms(1) by (simp_all add: plain_key_def)
  have hd: "\<not> is_space (hd ?l)" using trim_id_hd [OF k(2,1)] k(1) by simp
  have c: "chomp ?l = ?l" by (rule chomp_id) (use k(5) t(4) in \<open>simp add: one_line_def\<close>)
  have start: "trim_start ?l = ?l" unfolding trim_start_id using hd by simp
  have ne: "trim_end ?l \<noteq> []" using hd k(1) by (intro trim_end_nonempty) (auto intro: bexI [of _ "hd k"])
  have "trim ?l = trim_end ?l" by (simp only: trim_def start)
  moreover have "hd (trim_end ?l) = hd k" using hd_trim_end [OF ne] k(1) by simp
  ultimately have "\<not> skipped ?l" using ne k(1,4) start
    by (cases k; cases "trim_end ?l"; simp add: skipped_def indented_def starts_with_def)
  moreover have colon: "\<And>c. c \<in> set k \<Longrightarrow> c \<noteq> CHR '':''" using k(3) by auto
  moreover have "before_colon ?l = k" using colon by (simp add: before_colon_def takeWhile_append2)
  moreover have "after_colon ?l = '' '' @ t" using colon by (simp add: after_colon_def dropWhile_append2)
  moreover have "trim ('' '' @ t) = t" using t(1) by (simp add: trim_space is_space_def)
  ultimately show ?thesis using c t k(2) by (simp add: Let_def)
qed

lemma fm_fields:
  "list_all plain_field fs \<Longrightarrow> distinct (map fst fs) \<Longrightarrow> fst ` set fm \<inter> fst ` set fs = {} \<Longrightarrow>
   fm_lines (map field_line fs) fm = fm @ map (\<lambda>(k, v, t). (k, v)) fs"
proof (induction fs arbitrary: fm)
  case (Cons f fs)
  obtain k v t where f: "f = (k, v, t)" by (cases f)
  have k: "plain_key k" "one_line v" "written_as v t" using Cons.prems(1) by (simp_all add: f plain_field_def)
  have new: "k \<notin> fst ` set fm" using Cons.prems(3) by (auto simp: f)
  then have "dput k v fm = fm @ [(k, v)]" by (simp add: dput_absent)
  then show ?case using Cons k by (auto simp: f field_line_def fm_line [unfolded append.simps] simp del: fm_lines.simps)
qed simp

lemma fence_line: "c \<noteq> CHR 0x0A \<Longrightarrow> c \<noteq> CHR 0x0D \<Longrightarrow> fence (c # s) = None"
  by (simp add: fence_def starts_with_def nl_def cr_def)

lemma to_fence_line: "one_line l \<Longrightarrow> to_fence (l @ s) = map_option (\<lambda>(b, r). (l @ b, r)) (to_fence s)"
  by (induction l) (auto simp: one_line_def fence_line split: option.splits prod.splits simp: option.map_id)

lemma to_fence_lines:
  "lines \<noteq> [] \<Longrightarrow> list_all one_line lines \<Longrightarrow> list_all (\<lambda>l. 3 \<le> length l \<and> \<not> starts_with l ''---'') lines \<Longrightarrow>
   to_fence (join_with nl lines @ nl @ ''---'' @ s) = Some (join_with nl lines, s)"
proof (induction lines)
  case (Cons l lines)
  have close: "to_fence (nl @ ''---'' @ s) = Some ([], s)"
    by (simp add: nl_def fence_def starts_with_def cr_def)
  show ?case
  proof (cases lines)
    case Nil
    with Cons.prems(2) close show ?thesis by (simp add: to_fence_line)
  next
    case (Cons m ms)
    have "\<not> starts_with (join_with nl lines @ u) ''---''" for u
      using Cons.prems(3) Cons by (cases ms) (auto simp: starts_with_def)
    then have "fence (nl @ join_with nl lines @ u) = None" for u
      by (simp add: fence_def nl_def cr_def starts_with_def)
    then have "to_fence (nl @ join_with nl lines @ nl @ ''---'' @ s) = Some (nl @ join_with nl lines, s)"
      using Cons.IH Cons.prems Cons by (simp add: nl_def)
    then show ?thesis using Cons.prems(2) Cons by (simp add: to_fence_line join_with_Cons)
  qed
qed simp

text \<open>
  C20. A written front matter is read back. For fields whose keys are distinct plain words and whose values are
  on one line, each in quotes of either kind or bare where that reads as nothing else, parsing the file
  gives exactly the fields in their order and the body without the space around it.
\<close>
theorem agent_def_roundtrip:
  assumes "fs \<noteq> []" "list_all plain_field fs" "distinct (map fst fs)"
  shows "parseAgentDefFile (render fs body) = (map (\<lambda>(k, v, t). (k, v)) fs, trim body)"
proof -
  have line: "one_line (field_line f) \<and> 3 \<le> length (field_line f) \<and> \<not> starts_with (field_line f) ''---''"
    if "f \<in> set fs" for f
  proof -
    obtain k v t where f: "f = (k, v, t)" by (cases f)
    have p: "plain_key k" "one_line v" "written_as v t"
      using assms(2) that by (auto simp: list_all_iff f plain_field_def)
    then show ?thesis using written_text(4) [OF p(3,2)]
      by (cases k rule: list.exhaust; cases "tl k"; cases "tl (tl k)")
        (auto simp: f field_line_def plain_key_def one_line_def starts_with_def)
  qed
  have nl: "nl = [CHR 0x0A]" by (simp add: nl_def)
  have "to_fence (join_with nl (map field_line fs) @ nl @ ''---'' @ nl @ body) = Some (join_with nl (map field_line fs), nl @ body)"
    using assms(1) line by (intro to_fence_lines) (auto simp: list_all_iff)
  moreover have "split_on (CHR 0x0A) (join_with nl (map field_line fs)) = map field_line fs"
    unfolding nl using assms(1) line by (intro split_join) (auto simp: one_line_def)
  moreover have "trim (nl @ body) = trim body" by (simp add: nl trim_space is_space_def)
  ultimately show ?thesis
    using fm_fields [OF assms(2,3), of "[]"] by (simp add: parseAgentDefFile_def frontMatter_def render_def starts_with_def nl cr_def)
qed

theorem agent_def_roundtrip_witness:
  "parseAgentDefFile (render [(''name'', ''a: b'', dquote @ ''a: b'' @ dquote), (''warm'', ''true'', ''true'')] ''go'') =
     ([(''name'', ''a: b''), (''warm'', ''true'')], trim ''go'')"
  by (subst agent_def_roundtrip)
    (simp_all add: plain_field_def plain_key_def written_as_def one_line_def trim_def trim_start_def trim_end_def is_space_def
      block_mark_def unquote_def starts_with_def ends_with_def dquote_def quote_def)

end
