(* ===== verification/Realize.thy ===== *)
theory Realize
  imports AgentDef
begin

text \<open>
  \<open>agentdef/realize.ts\<close>: the launch command of an agent definition, and what a spawn launches. A harness
  given on the command line is not yet known to be one of the harnesses, so it is a text here.
\<close>

subsection \<open>The arguments\<close>

record realize_opts =
  rz_model :: "string option"
  rz_effort :: "string option"
  rz_harness :: "string option"
  rz_listed :: "string list"

record realized_launch =
  rl_harness :: string
  rl_command :: string
  rl_model :: "string option"
  rl_effort :: "string option"
  rl_effortNotApplied :: "string option"
  rl_briefInstructions :: "string option"

definition DEFAULT_HARNESS :: string where
  "DEFAULT_HARNESS = ''claude''"

text \<open>The model to launch, and whether the effort rides along.\<close>

definition cursorModel :: "string option \<Rightarrow> string option \<Rightarrow> string list \<Rightarrow> string option \<times> bool" where
  "cursorModel model effort listed = (case (truthy model, truthy effort) of
       (Some m, Some e) \<Rightarrow>
         let suffix = ''-'' @ e
         in if ends_with m suffix \<and> m \<in> set listed then (model, True)
            else if m @ suffix \<in> set listed then (Some (m @ suffix), True)
            else (model, False)
     | _ \<Rightarrow> (model, truthy effort = None))"

definition modelAndEffortArgs :: "string \<Rightarrow> string option \<Rightarrow> string option \<Rightarrow> string list" where
  "modelAndEffortArgs harness model effort =
     (let args = (case truthy model of None \<Rightarrow> [] | Some m \<Rightarrow> [''--model'', shellQuote m])
      in case truthy effort of
           None \<Rightarrow> args
         | Some e \<Rightarrow>
             if harness = ''cursor'' then args
             else if harness = ''codex''
             then args @ [''-c'', shellQuote (''model_reasoning_effort='' @ dquote @ e @ dquote)]
             else args @ [''--effort'', shellQuote e])"

text \<open>\<open>JSON.stringify\<close> of a string, with a raw DEL escaped too.\<close>

definition hex_digit :: "nat \<Rightarrow> char" where
  "hex_digit k = (if k < 10 then char_of (48 + k) else char_of (87 + k))"

definition toml_char :: "char \<Rightarrow> string" where
  "toml_char c =
     (let n = of_char c :: nat
      in if c = CHR 0x22 \<or> c = backslash then [backslash, c]
         else if n = 8 then [backslash, CHR ''b'']
         else if n = 9 then [backslash, CHR ''t'']
         else if n = 10 then [backslash, CHR ''n'']
         else if n = 12 then [backslash, CHR ''f'']
         else if n = 13 then [backslash, CHR ''r'']
         else if n < 32 \<or> n = 127 then backslash # ''u00'' @ [hex_digit (n div 16), hex_digit (n mod 16)]
         else [c])"

definition tomlBasicString :: "string \<Rightarrow> string" where
  "tomlBasicString s = dquote @ concat (map toml_char s) @ dquote"

definition instructionArgs :: "string \<Rightarrow> string \<Rightarrow> string list" where
  "instructionArgs harness instructions =
     (if instructions = [] \<or> harness = ''cursor'' then []
      else if harness = ''claude'' then [''--append-system-prompt'', shellQuote instructions]
      else [''-c'', shellQuote (''developer_instructions='' @ tomlBasicString instructions)])"

text \<open>The launch binary; a name outside the launch map reads \<open>undefined\<close>, which joins as nothing.\<close>

definition launch_bin :: "string \<Rightarrow> string" where
  "launch_bin harness = (case parse_harness harness of None \<Rightarrow> [] | Some h \<Rightarrow> LAUNCH_MAP h)"

definition realizeLaunch :: "agent_def \<Rightarrow> realize_opts \<Rightarrow> realized_launch" where
  "realizeLaunch d opts =
     (let harness = defaultTo (or_else (rz_harness opts) (map_option harness_name (df_harness d))) DEFAULT_HARNESS;
          effort = or_else (rz_effort opts) (df_effort d);
          asked = or_else (rz_model opts) (df_model d);
          cursor = cursorModel asked effort (rz_listed opts);
          model = (if harness = ''cursor'' then fst cursor else asked);
          parts = launch_bin harness # modelAndEffortArgs harness model effort @ instructionArgs harness (df_instructions d);
          notApplied = (if harness = ''cursor'' \<and> \<not> snd cursor then truthy effort else None)
      in \<lparr>rl_harness = harness, rl_command = join_with '' '' parts, rl_model = model,
          rl_effort = (if notApplied = None then effort else None), rl_effortNotApplied = notApplied,
          rl_briefInstructions = (if harness = ''cursor'' then truthy (Some (df_instructions d)) else None)\<rparr>)"

subsection \<open>What a spawn launches\<close>

record launch_request =
  lq_agent :: "string option"
  lq_agentFile :: "string option"
  lq_harness :: "string option"
  lq_model :: "string option"
  lq_effort :: "string option"
  lq_cwd :: "string option"
  lq_searchRoots :: "string list"
  lq_listed :: "string list"

record spawn_launch =
  sl_harness :: "string option"
  sl_command :: "string option"
  sl_model :: "string option"
  sl_effort :: "string option"
  sl_effortNotApplied :: "string option"
  sl_briefInstructions :: "string option"

definition launched_as :: "realized_launch \<Rightarrow> spawn_launch" where
  "launched_as l = \<lparr>sl_harness = Some (rl_harness l), sl_command = Some (rl_command l), sl_model = rl_model l,
     sl_effort = rl_effort l, sl_effortNotApplied = rl_effortNotApplied l, sl_briefInstructions = rl_briefInstructions l\<rparr>"

definition overrides :: "launch_request \<Rightarrow> realize_opts" where
  "overrides inp = \<lparr>rz_model = lq_model inp, rz_effort = lq_effort inp, rz_harness = lq_harness inp, rz_listed = lq_listed inp\<rparr>"

definition bareDef :: "string \<Rightarrow> agent_def" where
  "bareDef name = \<lparr>df_name = name, df_description = None, df_model = None, df_effort = None, df_harness = None,
     df_warm = None, df_interactive = None, df_instructions = [], df_path = []\<rparr>"

definition resolveSpawnLaunch :: "'x host \<Rightarrow> launch_request \<Rightarrow> 'x \<Rightarrow> error + spawn_launch" where
  "resolveSpawnLaunch H inp x =
     (if truthy (lq_agent inp) = None \<and> truthy (lq_agentFile inp) = None
      then (case truthy (lq_harness inp) of
          Some h \<Rightarrow>
            if truthy (lq_model inp) = None \<and> truthy (lq_effort inp) = None
            then Inr \<lparr>sl_harness = lq_harness inp, sl_command = None, sl_model = None, sl_effort = None,
                      sl_effortNotApplied = None, sl_briefInstructions = None\<rparr>
            else Inr (launched_as (realizeLaunch (bareDef h) (overrides inp)))
        | None \<Rightarrow>
            Inr \<lparr>sl_harness = lq_harness inp, sl_command = None, sl_model = None, sl_effort = None,
                 sl_effortNotApplied = None, sl_briefInstructions = None\<rparr>)
      else (case resolveAgentDef H x \<lparr>ri_name = lq_agent inp, ri_file = lq_agentFile inp,
                ri_searchRoots = lq_searchRoots inp, ri_cwd = truthy (lq_cwd inp)\<rparr> of
          Inl e \<Rightarrow> Inl e
        | Inr d \<Rightarrow> Inr (launched_as (realizeLaunch d (overrides inp)))))"

subsection \<open>What the shell reads\<close>

text \<open>A word is typed as it is, or quoted.\<close>

definition typed :: "bool \<times> string \<Rightarrow> string" where
  "typed p = (if fst p then shellQuote (snd p) else snd p)"

lemma sh_words_plain:
  "list_all shell_plain w \<Longrightarrow> w \<noteq> [] \<Longrightarrow> sh_words False word (w @ t) = sh_words False (Some (defaultTo word [] @ w)) t"
proof (induction w arbitrary: word)
  case (Cons c w)
  have c: "c \<noteq> quote" "c \<noteq> backslash" "c \<noteq> CHR '' ''" "shell_plain c"
    using Cons.prems(1) by (auto simp: shell_plain_def is_alnum_def is_lower_def is_upper_def is_digit_def quote_def backslash_def)
  then show ?case using Cons by (cases w) simp_all
qed simp

lemma typed_words:
  "list_all (\<lambda>p. fst p \<or> snd p \<noteq> [] \<and> list_all shell_plain (snd p)) ps \<Longrightarrow>
   shellWords (join_with '' '' (map typed ps)) = Some (map snd ps)"
  unfolding shellWords_def
proof (induction ps)
  case (Cons p ps)
  have word: "sh_words False None (typed p @ t) = sh_words False (Some (snd p)) t" for t
    using Cons.prems sh_words_shellQuote [of None "snd p" t] sh_words_plain [of "snd p" None t] by (auto simp: typed_def)
  show ?case
  proof (cases ps)
    case Nil
    then show ?thesis using word [of "[]"] by (simp add: end_word_def)
  next
    case (Cons q qs)
    then show ?thesis using word Cons.prems \<open>list_all _ (p # ps)\<close> Cons.IH
      by (simp add: join_with_Cons quote_def backslash_def end_word_def)
  qed
qed (simp add: end_word_def)

subsection \<open>What the harness is told\<close>

text \<open>Reading a TOML basic string from after its opening quote.\<close>

definition hex_value :: "char \<Rightarrow> nat" where
  "hex_value c = (let n = of_char c in if n < 58 then n - 48 else n - 87)"

definition toml_simple :: "char \<Rightarrow> char option" where
  "toml_simple d =
     (if d = CHR 0x22 \<or> d = backslash then Some d
      else if d = CHR ''b'' then Some (char_of (8 :: nat))
      else if d = CHR ''t'' then Some (char_of (9 :: nat))
      else if d = CHR ''n'' then Some (char_of (10 :: nat))
      else if d = CHR ''f'' then Some (char_of (12 :: nat))
      else if d = CHR ''r'' then Some (char_of (13 :: nat))
      else None)"

definition toml_raw :: "char \<Rightarrow> bool" where
  "toml_raw c \<longleftrightarrow> (let n = of_char c :: nat in 32 \<le> n \<and> n \<noteq> 127 \<or> n = 9)"

fun toml_read :: "string \<Rightarrow> string option" where
  "toml_read [] = None"
| "toml_read (c # s) =
     (if c = CHR 0x22 then (if s = [] then Some [] else None)
      else if c = backslash
      then (case s of
          d # s' \<Rightarrow>
            if d = CHR ''u''
            then (case s' of
                z1 # z2 # a # b # t \<Rightarrow>
                  if z1 = CHR ''0'' \<and> z2 = CHR ''0''
                  then map_option (Cons (char_of (16 * hex_value a + hex_value b))) (toml_read t) else None
              | _ \<Rightarrow> None)
            else (case toml_simple d of None \<Rightarrow> None | Some x \<Rightarrow> map_option (Cons x) (toml_read s'))
        | [] \<Rightarrow> None)
      else if toml_raw c then map_option (Cons c) (toml_read s)
      else None)"

lemma hex_value_digit: "k < 16 \<Longrightarrow> hex_value (hex_digit k) = k"
  by (auto simp: hex_value_def hex_digit_def Let_def)

lemma char_eq_of_nat: "of_char c = (n :: nat) \<Longrightarrow> c = char_of n"
  by auto

lemma toml_read_char: "toml_read (toml_char c @ t) = map_option (Cons c) (toml_read t)"
proof -
  define n where "n = (of_char c :: nat)"
  have c: "c = char_of n" by (simp add: n_def)
  have lt: "n div 16 < 16" "n mod 16 < 16"
    using nat_of_char_less_256 [of c] by (simp_all add: n_def less_mult_imp_div_less)
  consider (quoted) "c = CHR 0x22 \<or> c = backslash" | (simple) "n \<in> {8, 9, 10, 12, 13}"
    | (hex) "n < 32 \<or> n = 127" "n \<notin> {8, 9, 10, 12, 13}" "c \<noteq> CHR 0x22" "c \<noteq> backslash"
    | (raw) "32 \<le> n" "n \<noteq> 127" "c \<noteq> CHR 0x22" "c \<noteq> backslash" by fastforce
  then show ?thesis
  proof cases
    case quoted
    then show ?thesis by (auto simp: toml_char_def toml_simple_def backslash_def Let_def)
  next
    case simple
    then show ?thesis by (auto simp: c toml_char_def toml_simple_def backslash_def Let_def)
  next
    case hex
    then have "toml_char c = backslash # ''u00'' @ [hex_digit (n div 16), hex_digit (n mod 16)]"
      by (auto simp: toml_char_def Let_def n_def)
    moreover have "16 * (n div 16) + n mod 16 = n" by simp
    ultimately show ?thesis using lt by (simp add: hex_value_digit backslash_def) (simp add: c)
  next
    case raw
    then show ?thesis by (auto simp: toml_char_def toml_raw_def Let_def n_def)
  qed
qed

lemma toml_roundtrip: "toml_read (tl (tomlBasicString s)) = Some s"
proof -
  have "toml_read (concat (map toml_char s) @ dquote) = Some s"
    by (induction s) (simp_all add: dquote_def toml_read_char del: toml_read.simps(2), simp)
  then show ?thesis by (simp add: tomlBasicString_def dquote_def)
qed

text \<open>The arguments a harness is meant to receive, after the name of its binary.\<close>

definition harness_args :: "harness \<Rightarrow> string option \<Rightarrow> string option \<Rightarrow> string \<Rightarrow> string list" where
  "harness_args h model effort instructions =
     (case truthy model of None \<Rightarrow> [] | Some m \<Rightarrow> [''--model'', m]) @
     (case (truthy effort, h) of
        (Some e, Claude) \<Rightarrow> [''--effort'', e]
      | (Some e, Codex) \<Rightarrow> [''-c'', ''model_reasoning_effort='' @ dquote @ e @ dquote]
      | _ \<Rightarrow> []) @
     (if instructions = [] then []
      else case h of
        Claude \<Rightarrow> [''--append-system-prompt'', instructions]
      | Codex \<Rightarrow> [''-c'', ''developer_instructions='' @ tomlBasicString instructions]
      | Cursor \<Rightarrow> [])"

lemma launch_bin_plain: "parse_harness s = Some h \<Longrightarrow> launch_bin s = LAUNCH_MAP h \<and> LAUNCH_MAP h \<noteq> [] \<and> list_all shell_plain (LAUNCH_MAP h)"
  by (cases h) (simp_all add: launch_bin_def shell_plain_def is_alnum_def is_lower_def is_upper_def is_digit_def)

lemma command_words:
  assumes "parse_harness s = Some h"
  shows "shellWords (join_with '' '' (launch_bin s # modelAndEffortArgs s model effort @ instructionArgs s instructions)) =
    Some (LAUNCH_MAP h # harness_args h model effort instructions)"
proof -
  have s: "s = harness_name h" using assms by (auto simp: parse_harness_def split: if_splits)
  have flags: "list_all shell_plain ''--model''" "list_all shell_plain ''--effort''" "list_all shell_plain ''-c''"
    "list_all shell_plain ''--append-system-prompt''"
    by (simp_all add: shell_plain_def is_alnum_def is_lower_def is_upper_def is_digit_def)
  define ps where "ps = (False, LAUNCH_MAP h) #
     (case truthy model of None \<Rightarrow> [] | Some m \<Rightarrow> [(False, ''--model''), (True, m)]) @
     (case (truthy effort, h) of
        (Some e, Claude) \<Rightarrow> [(False, ''--effort''), (True, e)]
      | (Some e, Codex) \<Rightarrow> [(False, ''-c''), (True, ''model_reasoning_effort='' @ dquote @ e @ dquote)]
      | _ \<Rightarrow> []) @
     (if instructions = [] then []
      else case h of
        Claude \<Rightarrow> [(False, ''--append-system-prompt''), (True, instructions)]
      | Codex \<Rightarrow> [(False, ''-c''), (True, ''developer_instructions='' @ tomlBasicString instructions)]
      | Cursor \<Rightarrow> [])"
  have "list_all (\<lambda>p. fst p \<or> snd p \<noteq> [] \<and> list_all shell_plain (snd p)) ps"
    using launch_bin_plain [OF assms] flags by (auto simp: ps_def split: option.split harness.split)
  moreover have "map typed ps = launch_bin s # modelAndEffortArgs s model effort @ instructionArgs s instructions"
    using launch_bin_plain [OF assms]
    by (cases h) (auto simp: ps_def s typed_def modelAndEffortArgs_def instructionArgs_def split: option.split)
  moreover have "map snd ps = LAUNCH_MAP h # harness_args h model effort instructions"
    by (cases h) (auto simp: ps_def harness_args_def split: option.split)
  ultimately show ?thesis using typed_words [of ps] by metis
qed

lemma cursorModel_cases:
  "case truthy effort of
     None \<Rightarrow> cursorModel asked effort listed = (asked, True)
   | Some e \<Rightarrow> cursorModel asked effort listed = (asked, False) \<or>
       (\<exists>m. cursorModel asked effort listed = (Some m, True) \<and> m \<in> set listed \<and> ends_with m (''-'' @ e) \<and>
          (asked = Some m \<or> (\<exists>b. asked = Some b \<and> m = b @ ''-'' @ e)))"
proof (cases "truthy asked"; cases "truthy effort")
  fix m e
  assume a: "truthy asked = Some m" "truthy effort = Some e"
  then have "asked = Some m" by (simp add: truthy_Some)
  with a show ?thesis by (auto simp: cursorModel_def Let_def)
qed (auto simp: cursorModel_def)

text \<open>
  C19. A launch tells the harness exactly what was asked. The words the shell reads from the command are the
  harness's binary and then the reference arguments: the model, the effort and the instructions, each
  whole whatever characters it holds, the explicit ones before those of the definition. What cursor cannot
  take is not lost: an effort rides on a listed model of that level or is reported, and instructions go
  to the brief. A developer instruction written as TOML reads back as it was.
\<close>
theorem realize_launch_words:
  assumes "l = realizeLaunch d opts" "parse_harness (rl_harness l) = Some h"
    and "effort = or_else (rz_effort opts) (df_effort d)" "asked = or_else (rz_model opts) (df_model d)"
  shows "shellWords (rl_command l) = Some (LAUNCH_MAP h # harness_args h (rl_model l) effort (df_instructions d)) \<and>
    rl_briefInstructions l = (if h = Cursor then truthy (Some (df_instructions d)) else None) \<and>
    (if h = Cursor
     then (case truthy effort of
         None \<Rightarrow> rl_model l = asked \<and> rl_effortNotApplied l = None
       | Some e \<Rightarrow> rl_effortNotApplied l = Some e \<and> rl_model l = asked \<or>
           rl_effortNotApplied l = None \<and>
           (\<exists>m. rl_model l = Some m \<and> m \<in> set (rz_listed opts) \<and> ends_with m (''-'' @ e) \<and> (asked = Some m \<or> (\<exists>b. asked = Some b \<and> m = b @ ''-'' @ e))))
     else rl_model l = asked \<and> rl_effort l = effort \<and> rl_effortNotApplied l = None) \<and>
    toml_read (tl (tomlBasicString (df_instructions d))) = Some (df_instructions d)"
proof -
  have h: "rl_harness l = harness_name h" using assms(2) by (auto simp: parse_harness_def split: if_splits)
  have "shellWords (rl_command l) = Some (LAUNCH_MAP h # harness_args h (rl_model l) effort (df_instructions d))"
    using command_words [OF assms(2), of "rl_model l" effort "df_instructions d"]
    by (simp add: assms(1,3) realizeLaunch_def Let_def)
  moreover have "rl_harness l = ''cursor'' \<longleftrightarrow> h = Cursor" using h by (cases h) simp_all
  moreover define c where "c = cursorModel asked effort (rz_listed opts)"
  have "rl_model l = (if rl_harness l = ''cursor'' then fst c else asked)"
    "rl_effortNotApplied l = (if rl_harness l = ''cursor'' \<and> \<not> snd c then truthy effort else None)"
    "rl_briefInstructions l = (if rl_harness l = ''cursor'' then truthy (Some (df_instructions d)) else None)"
    "rl_effort l = (if rl_effortNotApplied l = None then effort else None)"
    by (simp_all add: assms(1,3,4) realizeLaunch_def Let_def c_def)
  ultimately show ?thesis using toml_roundtrip cursorModel_cases [where effort = effort and asked = asked and listed = "rz_listed opts", folded c_def]
    by (cases "truthy effort") auto
qed

definition reviewer :: agent_def where
  "reviewer = (bareDef ''reviewer'')\<lparr>df_harness := Some Cursor, df_model := Some ''opus'', df_effort := Some ''high'',
     df_instructions := ''it's''\<rparr>"

definition reviewer_opts :: realize_opts where
  "reviewer_opts = \<lparr>rz_model = None, rz_effort = None, rz_harness = None, rz_listed = [''opus-high'']\<rparr>"

theorem realize_launch_words_witness:
  "shellWords (rl_command (realizeLaunch reviewer reviewer_opts)) = Some [''cursor-agent'', ''--model'', ''opus-high''] \<and>
   rl_briefInstructions (realizeLaunch reviewer reviewer_opts) = Some ''it's''"
proof -
  have run: "rl_harness (realizeLaunch reviewer reviewer_opts) = ''cursor''"
    "rl_model (realizeLaunch reviewer reviewer_opts) = Some ''opus-high''"
    by (simp_all add: realizeLaunch_def reviewer_def reviewer_opts_def bareDef_def cursorModel_def Let_def ends_with_def starts_with_def)
  show ?thesis
    using realize_launch_words [OF refl _ refl refl, of reviewer reviewer_opts Cursor] run
    by (simp add: parse_harness_def harness_args_def) (simp add: reviewer_def split: option.split)
qed

end
