(* ===== verification/StandingHome.thy ===== *)
theory StandingHome
  imports Realize Session
begin

text \<open>
  \<open>standing-home.ts\<close>: what a registration does to a standing owner's home. The outer option of the result
  is whether anything changes, the inner one the new home.
\<close>

record home_flags =
  hf_standing :: bool
  hf_handle :: "string option"
  hf_home :: "string option"
  hf_clearHome :: bool
  hf_agent :: "string option"
  hf_harness :: "string option"

text \<open>The refusals that look at the flags alone.\<close>

definition flagRefusal :: "home_flags \<Rightarrow> home_error option" where
  "flagRefusal fl =
     (if (hf_home fl \<noteq> None \<or> hf_clearHome fl \<or> hf_agent fl \<noteq> None) \<and> \<not> (hf_standing fl \<and> truthy (hf_handle fl) \<noteq> None)
      then Some HomeNotStanding
      else if \<not> hf_standing fl then None
      else if hf_home fl \<noteq> None \<and> hf_clearHome fl then Some HomeContradiction
      else if hf_home fl = None \<and> (hf_agent fl \<noteq> None \<or> hf_harness fl \<noteq> None) then Some LaunchNeedsHome
      else None)"

definition homeLaunch :: "'x host \<Rightarrow> 'x \<Rightarrow> home_flags \<Rightarrow> string \<Rightarrow> error + home_launch" where
  "homeLaunch H x fl dir = (case hf_harness fl of
       Some s \<Rightarrow> (case parse_harness s of None \<Rightarrow> Inl (HomeE (HomeUnknownHarness s)) | Some h \<Rightarrow> Inr (HomeHarness h))
     | None \<Rightarrow>
         let agent = defaultTo (hf_agent fl) []
         in case resolveAgentDef H x \<lparr>ri_name = Some agent, ri_file = None, ri_searchRoots = [], ri_cwd = Some dir\<rparr> of
              Inl e \<Rightarrow> Inl (HomeE (HomeAgentUnresolved agent))
            | Inr d \<Rightarrow> Inr (HomeAgent agent))"

definition realPath :: "'x host \<Rightarrow> 'x \<Rightarrow> string \<Rightarrow> error + string" where
  "realPath H x p = (case os_realpath H p x of None \<Rightarrow> Inl (StoreE (Errno ''ENOENT'')) | Some q \<Rightarrow> Inr q)"

definition isPrimary :: "'x host \<Rightarrow> 'x \<Rightarrow> string \<Rightarrow> error + bool" where
  "isPrimary H x dir = (case mx_primaryRoot H (Some (resolve_path (os_cwd H) dir)) x of
       None \<Rightarrow> Inr False
     | Some p \<Rightarrow> (case realPath H x p of
           Inl e \<Rightarrow> Inl e
         | Inr rp \<Rightarrow> (case realPath H x dir of Inl e \<Rightarrow> Inl e | Inr rd \<Rightarrow> Inr (rp = rd))))"

definition newHome :: "'x host \<Rightarrow> 'x \<Rightarrow> home_flags \<Rightarrow> string \<Rightarrow> error + standing_home" where
  "newHome H x fl home =
     (let dir = resolve_path (os_cwd H) home
      in if \<not> os_exists H dir x \<or> \<not> os_isDir H dir x then Inl (HomeE (HomeMissing home))
         else if (hf_agent fl = None) = (hf_harness fl = None) then Inl (HomeE HomeNeedsOneLaunch)
         else case homeLaunch H x fl dir of
           Inl e \<Rightarrow> Inl e
         | Inr launch \<Rightarrow> (case isPrimary H x dir of
               Inl e \<Rightarrow> Inl e
             | Inr True \<Rightarrow> Inl (HomeE (HomePrimary dir))
             | Inr False \<Rightarrow> Inr \<lparr>sh_dir = dir, sh_launch = launch\<rparr>))"

definition resolveHomeFlags :: "'x host \<Rightarrow> 'x \<Rightarrow> home_flags \<Rightarrow> error + standing_home option option" where
  "resolveHomeFlags H x fl = (case flagRefusal fl of
       Some e \<Rightarrow> Inl (HomeE e)
     | None \<Rightarrow>
         if \<not> hf_standing fl then Inr None
         else if hf_clearHome fl then Inr (Some None)
         else (case hf_home fl of
             None \<Rightarrow> Inr None
           | Some home \<Rightarrow> (case newHome H x fl home of Inl e \<Rightarrow> Inl e | Inr h \<Rightarrow> Inr (Some (Some h)))))"

subsection \<open>A registered home can be launched\<close>

text \<open>The request the doorbell's spawn makes for a home (\<open>presence-spawn.ts\<close>).\<close>

definition homeRequest :: "standing_home \<Rightarrow> launch_request" where
  "homeRequest home = \<lparr>lq_agent = (case sh_launch home of HomeAgent a \<Rightarrow> Some a | HomeHarness h \<Rightarrow> None), lq_agentFile = None,
     lq_harness = (case sh_launch home of HomeAgent a \<Rightarrow> None | HomeHarness h \<Rightarrow> Some (harness_name h)),
     lq_model = None, lq_effort = None, lq_cwd = Some (sh_dir home), lq_searchRoots = [], lq_listed = []\<rparr>"

lemma realized_harness: "rz_harness opts = None \<Longrightarrow> \<exists>h. parse_harness (rl_harness (realizeLaunch d opts)) = Some h"
  using parse_harness_name [of Claude]
  by (cases "df_harness d") (auto simp: realizeLaunch_def Let_def DEFAULT_HARNESS_def parse_harness_name simp del: ex_simps)


definition home_host :: "nat host" where
  "home_host = demo_host\<lparr>os_exists := (\<lambda>p x. True), os_isDir := (\<lambda>p x. True)\<rparr>"

definition home_flag :: home_flags where
  "home_flag = \<lparr>hf_standing = True, hf_handle = Some ''ops'', hf_home = Some ''/srv/ops'', hf_clearHome = False,
     hf_agent = None, hf_harness = Some ''codex''\<rparr>"


end
