(* ===== verification/PresenceSpawn.thy ===== *)
theory PresenceSpawn
  imports StandingHome
begin

text \<open>
  \<open>presence-spawn.ts\<close>: spawning a unit into the home of a standing owner and binding it as the owner's
  presence, under the lock that \<open>unit claim\<close> takes.
\<close>

definition presenceBrief :: "string \<Rightarrow> string" where
  "presenceBrief handle = join_with nl
     [''You stand in for the standing owner '' @ dquote @ handle @ dquote @
        '': you are its presence, spawned because mail was delivered to it and no unit was standing in.'',
      [],
      ''Read its mail: cyberlegion mail inbox --owner '' @ handle @ '', then cyberlegion mail read --owner '' @ handle @ '' <id>.'',
      ''Ack what you have handled: cyberlegion mail ack --owner '' @ handle @ '' <id>.'']"

definition presenceInput :: "string \<Rightarrow> standing_home \<Rightarrow> spawn_launch \<Rightarrow> spawn_input" where
  "presenceInput handle home launched =
     \<lparr>sp_harness = sl_harness launched, sp_task = Some (presenceBrief handle), sp_briefFile = None, sp_handle = None,
      sp_command = sl_command launched, sp_briefInstructions = sl_briefInstructions launched, sp_branch = None,
      sp_worktreePath = None, sp_cwd = Some (sh_dir home), sp_repo = None, sp_base = None, sp_at = Some ''workspace'',
      sp_cwdOwnRepo = True\<rparr>"

definition setPresence :: "agent \<Rightarrow> string option \<Rightarrow> ('x, unit) op" where
  "setPresence rec p = hubWrite (putAgent (rec\<lparr>a_presence := p\<rparr>))"

text \<open>Release the presence again, if the unit still is it.\<close>

definition unbind :: "string \<Rightarrow> string \<Rightarrow> ('x, bool) op" where
  "unbind ownerId unitId =
     andThen (hubRead (getAgent ownerId)) (\<lambda>latest.
     case latest of
       None \<Rightarrow> ret False
     | Some rec \<Rightarrow>
         if a_presence rec \<noteq> Some unitId then ret False
         else andThen (setPresence rec None) (\<lambda>_. ret True))"

definition settlePresence :: "'x host \<Rightarrow> string \<Rightarrow> spawn_result \<Rightarrow> trust_opts \<Rightarrow> ('x, first_turn \<times> bool) op" where
  "settlePresence H ownerId res trustOpts =
     andThen (tryE (settleSpawnTrust H res trustOpts True)) (\<lambda>r.
     case r of
       Inl e \<Rightarrow> andThen (unbind ownerId (a_id (sr_agent res))) (\<lambda>_. throw e)
     | Inr trust \<Rightarrow>
         if trust_blocked (ft_trust trust)
         then andThen (unbind ownerId (a_id (sr_agent res))) (\<lambda>b. ret (trust, b))
         else ret (trust, False))"

definition spawnInHome ::
  "'x host \<Rightarrow> 'x worktree_lib \<Rightarrow> agent \<Rightarrow> agent \<Rightarrow> standing_home \<Rightarrow> trust_opts \<Rightarrow> ('x, spawn_result \<times> first_turn \<times> bool) op" where
  "spawnInHome H L owner current home trustOpts =
     andThen (reads (\<lambda>w. resolveSpawnLaunch H (homeRequest home) (ext w))) (\<lambda>launched.
     andThen (spawn H L (presenceInput (a_handle owner) home launched)) (\<lambda>res.
     andThen (setPresence current (Some (a_id (sr_agent res)))) (\<lambda>_.
     andThen (settlePresence H (a_id owner) res trustOpts) (\<lambda>(trust, unbound). ret (res, trust, unbound)))))"

text \<open>The part under the lock: the live presence, or the unit spawned in the home.\<close>

definition presenceOrSpawn ::
  "'x host \<Rightarrow> 'x worktree_lib \<Rightarrow> agent \<Rightarrow> standing_home \<Rightarrow> trust_opts \<Rightarrow> ('x, agent + spawn_result \<times> first_turn \<times> bool) op" where
  "presenceOrSpawn H L owner home trustOpts =
     andThen (hubRead (getAgent (a_id owner))) (\<lambda>found.
     case found of
       None \<Rightarrow> throw (SpawnE (OwnerGone (a_handle owner)))
     | Some current \<Rightarrow>
         andThen (hubRead (presenceOf current)) (\<lambda>live.
         case live of
           Some u \<Rightarrow> ret (Inl u)
         | None \<Rightarrow> andThen (spawnInHome H L owner current home trustOpts) (\<lambda>s. ret (Inr s))))"

definition ringPresence :: "'x host \<Rightarrow> spawn_result \<times> first_turn \<times> bool \<Rightarrow> ring_opts \<Rightarrow> ('x, presence_spawn) op" where
  "ringPresence H s nudge = (case s of (res, trust, unbound) \<Rightarrow>
     andThen (if trust_blocked (ft_trust trust) then ret trust else ringSpawnFirstTurn H res trust False nudge) (\<lambda>turn.
     ret (SpawnedPresence (sr_agent res) (sr_pane res) unbound turn)))"

definition spawnPresence ::
  "'x host \<Rightarrow> 'x worktree_lib \<Rightarrow> ring_opts \<Rightarrow> trust_opts \<Rightarrow> agent \<Rightarrow> ('x, presence_spawn) op" where
  "spawnPresence H L nudge trustOpts owner = (case a_home owner of
       None \<Rightarrow> throw (SpawnE (NoHome (a_handle owner)))
     | Some home \<Rightarrow>
         andThen (withLock H (presenceLock (a_id owner)) (presenceOrSpawn H L owner home trustOpts)) (\<lambda>outcome.
         case outcome of
           Inl u \<Rightarrow> ret (Existing u)
         | Inr s \<Rightarrow> ringPresence H s nudge))"

lemma wf_setPresence [pres]: "wf_op (setPresence rec p)"
  unfolding setPresence_def by (intro pres) (auto elim: store_wf)

lemma wf_settlePresence [pres]: "others_wf H \<Longrightarrow> wf_op (settlePresence H i res opts)"
  unfolding settlePresence_def unbind_def by (intro pres)

lemma wf_ringPresence [pres]: "others_wf H \<Longrightarrow> wf_op (ringPresence H s nudge)"
  unfolding ringPresence_def by (intro pres)

lemma wf_spawnPresence [pres]:
  assumes "lib_hub L hub_wf" "others_wf H"
  shows "wf_op (spawnPresence H L nudge opts owner)"
proof (cases "a_home owner")
  case None
  show ?thesis unfolding spawnPresence_def None option.case by (intro pres)
next
  case (Some home)
  have "wf_op (spawnInHome H L owner current home opts)" for current
    unfolding spawnInHome_def by (intro pres assms)
  then have "wf_op (presenceOrSpawn H L owner home opts)" unfolding presenceOrSpawn_def by (intro pres)
  then show ?thesis unfolding spawnPresence_def Some option.case by (intro pres assms)
qed

subsection \<open>One presence\<close>

lemma settle_alone: "alone H \<Longrightarrow> keeps hub (settleSpawnTrust H res opts trustFolder)"
  unfolding keeps_preserves
  by (intro allI pres_settleSpawnTrust [where Q = "\<lambda>h. h = v" for v]) (simp add: alone_sleep_keeps)

lemma ring_alone: "alone H \<Longrightarrow> keeps hub (ringPresence H s nudge)"
  unfolding keeps_preserves ringPresence_def
  by (intro allI pres pres_ringSpawnFirstTurn [where Q = "\<lambda>h. h = v" for v]) (simp_all add: alone_sleep_keeps)

lemma setPresence_run:
  assumes "safe_id (a_id rec)"
  obtains v' where "setPresence rec p v = (Inr (), v')"
    "\<forall>j. getAgent j (hub v') = (if j = a_id rec then Inr (Some (rec\<lparr>a_presence := p\<rparr>)) else getAgent j (hub v))"
proof -
  obtain h' where h': "putAgent (rec\<lparr>a_presence := p\<rparr>) (hub v) = Inr h'"
    using agent_store.put_total [of "rec\<lparr>a_presence := p\<rparr>" "hub v"] assms by auto
  then have "setPresence rec p v = (Inr (), v\<lparr>hub := h'\<rparr>)" by (simp add: setPresence_def hubWrite_run)
  moreover have "\<forall>j. getAgent j h' = (if j = a_id rec then Inr (Some (rec\<lparr>a_presence := p\<rparr>)) else getAgent j (hub v))"
    using agent_store.get_put [OF h'] by simp
  ultimately show thesis using that by simp
qed

lemma unbind_run:
  assumes "safe_id (a_id rec)" "getAgent (a_id rec) (hub v) = Inr (Some rec)" "a_presence rec = Some u"
  obtains v' where "unbind (a_id rec) u v = (Inr True, v')"
    "\<forall>j. getAgent j (hub v') = (if j = a_id rec then Inr (Some (rec\<lparr>a_presence := None\<rparr>)) else getAgent j (hub v))"
proof -
  obtain v' where v': "setPresence rec None v = (Inr (), v')"
    "\<forall>j. getAgent j (hub v') = (if j = a_id rec then Inr (Some (rec\<lparr>a_presence := None\<rparr>)) else getAgent j (hub v))"
    using setPresence_run [OF assms(1)] by metis
  with assms(2,3) have "unbind (a_id rec) u v = (Inr True, v')"
    by (simp add: unbind_def andThen_def hubRead_run ret_def)
  from this v'(2) show thesis by (rule that)
qed

lemma spawn_id:
  assumes "spawn H L inp w = (Inr res, w')" "\<forall>n x. fst (os_random H n x) \<noteq> taken"
  shows "a_id (sr_agent res) \<noteq> taken"
proof -
  have reg: "a_id (sr_agent q) = spl_unit P" if "registerUnit P h pl v = (Inr q, v')" for P :: "'a spawn_plan" and h pl v q v'
    using that by (auto simp: registerUnit_def Let_def ret_def unitRecord_def elim!: andThen_okE)
  have rnd: "i \<noteq> taken" if "randomId H v = (Inr i, v')" for i v v'
    using that assms(2) by (auto simp: randomId_def extStep_def split: prod.splits) (metis fst_conv)
  show ?thesis using assms(1)
    by (auto simp: spawn_def Let_def elim!: andThen_okE dest!: reg rnd split: prod.splits)
qed

text \<open>What the part under the lock leaves behind: the owner's record names the new unit, or no new unit.\<close>

definition presence_bound :: "agent \<Rightarrow> agent \<Rightarrow> bool \<Rightarrow> hub \<Rightarrow> bool" where
  "presence_bound current u unbound h \<longleftrightarrow>
     getAgent (a_id current) h = Inr (Some (current\<lparr>a_presence := (if unbound then None else Some (a_id u))\<rparr>)) \<and>
     getAgent (a_id u) h = Inr (Some u) \<and> a_status u = Active \<and> a_id u \<noteq> []"

definition presence_left :: "agent \<Rightarrow> hub \<Rightarrow> bool" where
  "presence_left current h \<longleftrightarrow> (\<exists>a. getAgent (a_id current) h = Inr (Some a) \<and> a_presence a \<in> {a_presence current, None})"

lemma settlePresence_run:
  assumes "alone H" "safe_id (a_id current)" "a_id (sr_agent res) \<noteq> a_id current"
    and "settlePresence H (a_id current) res opts v = (r, w')"
    and "presence_bound current (sr_agent res) False (hub v)"
  shows "case r of Inl e \<Rightarrow> presence_left current (hub w')
    | Inr (trust, unbound) \<Rightarrow> (unbound \<longleftrightarrow> trust_blocked (ft_trust trust)) \<and> presence_bound current (sr_agent res) unbound (hub w')"
proof -
  let ?rec = "current\<lparr>a_presence := Some (a_id (sr_agent res))\<rparr>"
  obtain t v1 where t: "settleSpawnTrust H res opts True v = (t, v1)" by fastforce
  have v1: "hub v1 = hub v" using settle_alone [OF assms(1), of res opts True] t unfolding keeps_def by (metis snd_conv)
  have rec: "getAgent (a_id current) (hub v1) = Inr (Some ?rec)" using assms(5) by (simp add: presence_bound_def v1)
  obtain v2 where u: "unbind (a_id current) (a_id (sr_agent res)) v1 = (Inr True, v2)"
    "\<forall>j. getAgent j (hub v2) = (if j = a_id current then Inr (Some (?rec\<lparr>a_presence := None\<rparr>)) else getAgent j (hub v1))"
    using unbind_run [of ?rec v1 "a_id (sr_agent res)"] assms(2) rec by auto
  have left: "presence_left current (hub v2)" using u(2) by (simp add: presence_left_def)
  have unbound: "presence_bound current (sr_agent res) True (hub v2)"
    using u(2) assms(3,5) v1 by (simp add: presence_bound_def)
  show ?thesis using assms(4,5) t v1 u(1) left unbound
    by (auto simp: settlePresence_def andThen_def tryE_def throw_def ret_def split: sum.splits if_splits)
qed

lemma spawnInHome_run:
  assumes "alone H" "\<forall>Q. lib_hub L Q" "\<forall>n x. fst (os_random H n x) \<noteq> a_id current" "safe_id (a_id current)"
    and "getAgent (a_id current) (hub w) = Inr (Some current)" "a_id owner = a_id current"
    and "spawnInHome H L owner current home opts w = (r, w')"
  shows "case r of Inl e \<Rightarrow> presence_left current (hub w')
    | Inr (res, trust, unbound) \<Rightarrow> (unbound \<longleftrightarrow> trust_blocked (ft_trust trust)) \<and> presence_bound current (sr_agent res) unbound (hub w')"
proof -
  have same: "presence_left current h" if "h_agents h = h_agents (hub w)" "h_root h = h_root (hub w)" for h
  proof -
    have "getAgent (a_id current) h = getAgent (a_id current) (hub w)" using that by (simp add: getAgent_simp)
    with assms(5) show ?thesis by (simp add: presence_left_def)
  qed
  show ?thesis
  proof (cases "resolveSpawnLaunch H (homeRequest home) (ext w)")
    case (Inl e)
    with assms(7) same show ?thesis by (auto simp: spawnInHome_def andThen_def reads_def)
  next
    case (Inr launched)
    obtain q v where q: "spawn H L (presenceInput (a_handle owner) home launched) w = (q, v)" by fastforce
    note out = spawn_outcome [OF assms(2) q]
    show ?thesis
    proof (cases q)
      case (Inl e)
      with out obtain i where "unit_frame i (hub w) (hub v)" by auto
      note f = frame_fields(1,4) [OF this]
      from Inl Inr q assms(7) have "r = Inl e" "w' = v" by (auto simp: spawnInHome_def andThen_def reads_def)
      with same [OF f] show ?thesis by simp
    next
      case (Inr res)
      then obtain brief where sp: "spawned (presenceInput (a_handle owner) home launched) brief res (hub w) (hub v)"
        using out by auto
      let ?u = "sr_agent res"
      have new: "a_id ?u \<noteq> a_id current" using spawn_id [OF _ assms(3)] q Inr by blast
      have u: "getAgent (a_id ?u) (hub v) = Inr (Some ?u)" "a_status ?u = Active"
        using sp by (simp_all add: spawned_def Let_def)
      then have "safe_id (a_id ?u)" by (simp add: getAgent_Some)
      then have ne: "a_id ?u \<noteq> []" by (auto simp: safe_id_def)
      obtain v1 where v1: "setPresence current (Some (a_id ?u)) v = (Inr (), v1)"
        "\<forall>j. getAgent j (hub v1) = (if j = a_id current then Inr (Some (current\<lparr>a_presence := Some (a_id ?u)\<rparr>)) else getAgent j (hub v))"
        using setPresence_run [OF assms(4)] by metis
      have bound: "presence_bound current (sr_agent res) False (hub v1)"
        using v1(2) u new ne by (simp add: presence_bound_def)
      obtain t w2 where t: "settlePresence H (a_id current) res opts v1 = (t, w2)" by fastforce
      have run: "r = (case t of Inl e \<Rightarrow> Inl e | Inr (trust, unbound) \<Rightarrow> Inr (res, trust, unbound))" "w' = w2"
        using assms(6,7) \<open>resolveSpawnLaunch _ _ _ = _\<close> q Inr v1(1) t
        by (auto simp: spawnInHome_def andThen_def reads_def ret_def split: sum.splits prod.splits)
      show ?thesis using settlePresence_run [OF assms(1,4) new t bound] run by (auto split: sum.splits)
    qed
  qed
qed

lemma ringPresence_run:
  assumes "alone H" "ringPresence H (res, trust, unbound) nudge v = (r, v')"
  shows "hub v' = hub v \<and> (\<exists>turn. r = Inr (SpawnedPresence (sr_agent res) (sr_pane res) unbound turn) \<and> ft_trust turn = ft_trust trust)"
proof (cases "trust_blocked (ft_trust trust)")
  case True
  with assms(2) show ?thesis by (auto simp: ringPresence_def ret_def)
next
  case False
  obtain k v1 where "wakeSpawn H (sessionAdapter H)
       \<lparr>ws_target = sr_pane res, ws_briefPath = defaultTo (a_brief (sr_agent res)) [],
        ws_noWake = (False \<or> truthy (a_brief (sr_agent res)) = None), ws_resumed = False,
        ws_harness = a_harness (sr_agent res)\<rparr> nudge default_guard v = (Inr k, v1)" "hub v1 = hub v"
    by (rule wakeSpawn_run [OF assms(1) hub_sessionAdapter])
  with False assms(2) show ?thesis by (auto simp: ringPresence_def ringSpawnFirstTurn_def andThen_def ret_def)
qed

text \<open>
  C17. An owner gets one presence. With the presence lock free and no other process writing meanwhile, a live
  presence found under the lock is returned and nothing is opened or changed. Otherwise a unit is spawned
  and the owner's record names it, unless its trust prompt stayed, when the record names no unit; the next
  delivery then finds it live, and so does not spawn a second one. A spawn that fails leaves the owner with
  the presence it had or none, never with the new unit.
\<close>
theorem spawn_one_presence:
  assumes "hub_wf (hub w)" "lock_free (hub w) (presenceLock (a_id owner))" "alone H" "\<forall>Q. lib_hub L Q"
    and "\<forall>n x. fst (os_random H n x) \<noteq> a_id owner" "getAgent (a_id owner) (hub w) = Inr (Some current)"
    and "spawnPresence H L nudge opts owner w = (r, w')"
  shows "case r of
      Inl e \<Rightarrow> presence_left current (hub w')
    | Inr (Existing u) \<Rightarrow> presenceOf current (hub w) = Inr (Some u) \<and> ext w' = ext w \<and>
        (\<forall>j. getAgent j (hub w') = getAgent j (hub w))
    | Inr (SpawnedPresence u pane unbound turn) \<Rightarrow> presenceOf current (hub w) = Inr None \<and>
        (unbound \<longleftrightarrow> trust_blocked (ft_trust turn)) \<and> presence_bound current u unbound (hub w') \<and>
        (\<not> unbound \<longrightarrow> presenceOf (current\<lparr>a_presence := Some (a_id u)\<rparr>) (hub w') = Inr (Some u))"
proof -
  have cur: "a_id current = a_id owner" "safe_id (a_id current)"
    using getAgent_wf_id [OF assms(1,6)] by auto
  have same: "presence_left current h" if "\<forall>j. getAgent j h = getAgent j (hub w)" for h
    using assms(6) that by (simp add: presence_left_def cur(1))
  show ?thesis
  proof (cases "a_home owner")
    case None
    with assms(7) same show ?thesis by (auto simp: spawnPresence_def throw_def)
  next
    case (Some home)
    let ?n = "presenceLock (a_id owner)"
    let ?w = "takeLock H ?n w"
    obtain q v where q: "presenceOrSpawn H L owner home opts ?w = (q, v)" by fastforce
    define w1 where "w1 = v\<lparr>hub := releaseLock ?n (hub v)\<rparr>"
    have locked: "withLock H ?n (presenceOrSpawn H L owner home opts) w = (q, w1)"
      by (simp add: withLock_free [OF assms(2)] q w1_def)
    have pres: "presenceOf current (hub ?w) = presenceOf current (hub w)"
      by (simp add: presenceOf_def cong: option.case_cong)
    consider (threw) e where "presenceOf current (hub w) = Inl e" | (live) u where "presenceOf current (hub w) = Inr (Some u)"
      | (dead) "presenceOf current (hub w) = Inr None" by (metis obj_sumE option.exhaust)
    then show ?thesis
    proof cases
      case threw
      with q pres assms(6) have "q = Inl e" "v = ?w" by (auto simp: presenceOrSpawn_def andThen_def hubRead_run)
      with assms(7) Some locked same show ?thesis by (auto simp: spawnPresence_def andThen_def w1_def)
    next
      case live
      with q pres assms(6) have "q = Inr (Inl u)" "v = ?w"
        by (auto simp: presenceOrSpawn_def andThen_def hubRead_run ret_def)
      with assms(7) Some locked live show ?thesis
        by (auto simp: spawnPresence_def andThen_def w1_def ret_def)
    next
      case dead
      obtain s v1 where s: "spawnInHome H L owner current home opts ?w = (s, v1)" by fastforce
      with q pres dead assms(6) have v: "v = v1" "q = (case s of Inl e \<Rightarrow> Inl e | Inr y \<Rightarrow> Inr (Inr y))"
        by (auto simp: presenceOrSpawn_def andThen_def hubRead_run ret_def split: sum.splits)
      have out: "case s of Inl e \<Rightarrow> presence_left current (hub v1)
        | Inr (res, trust, unbound) \<Rightarrow> (unbound \<longleftrightarrow> trust_blocked (ft_trust trust)) \<and> presence_bound current (sr_agent res) unbound (hub v1)"
        by (rule spawnInHome_run [OF assms(3,4) _ cur(2) _ _ s]) (use assms(5,6) cur in simp_all)
      show ?thesis
      proof (cases s)
        case (Inl e)
        with out v assms(7) Some locked show ?thesis
          by (auto simp: spawnPresence_def andThen_def w1_def presence_left_def)
      next
        case (Inr y)
        then obtain res trust unbound where y: "s = Inr (res, trust, unbound)" by (cases y) auto
        obtain t w2 where t: "ringPresence H (res, trust, unbound) nudge w1 = (t, w2)" by fastforce
        from assms(7) Some locked v y t have "r = t" "w' = w2" by (auto simp: spawnPresence_def andThen_def)
        moreover obtain turn where "t = Inr (SpawnedPresence (sr_agent res) (sr_pane res) unbound turn)"
          "ft_trust turn = ft_trust trust" "hub w2 = hub w1"
          using ringPresence_run [OF assms(3) t] by blast
        moreover have "presence_bound current (sr_agent res) unbound (hub w1)"
          "unbound \<longleftrightarrow> trust_blocked (ft_trust trust)"
          using out y v by (simp_all add: w1_def presence_bound_def)
        ultimately show ?thesis using dead by (auto simp: presenceOf_def presence_bound_def truthy_def split: list.splits)
      qed
    qed
  qed
qed

subsection \<open>A concrete delivery\<close>

definition presence_host :: "nat host" where
  "presence_host = demo_host\<lparr>mx_probe := (\<lambda>e x. ''tmux''), os_exists := (\<lambda>p x. True)\<rparr>"

lemma presence_host_simps [simp]:
  "mx_probe presence_host e x = ''tmux''" "mx_adapter presence_host m = demo_adapter (mux_name m) []"
  "os_random presence_host n x = (''c0ffee'', Suc x)" "os_exists presence_host p x = True" "ctx_self presence_host = None"
  "mx_primaryRoot presence_host d x = None" "os_sleep presence_host ms v = v\<lparr>ext := ext v + ms\<rparr>" "os_pid presence_host = 1"
  by (simp_all add: presence_host_def)

definition home_owner :: agent where
  "home_owner = (demo_agent ''o'')\<lparr>a_kind := Some StandingKind,
     a_home := Some \<lparr>sh_dir = ''/srv/ops'', sh_launch = HomeHarness Codex\<rparr>\<rparr>"

definition home_world :: "nat world" where
  "home_world = demo_world\<lparr>hub := (empty_hub ''/hub'')\<lparr>h_agents := [(''o.json'', Json home_owner)]\<rparr>\<rparr>"

definition quick_trust :: trust_opts where
  "quick_trust = \<lparr>to_pollMs = Some 1, to_timeoutMs = Some 0, to_stableReads = None, to_blankReads = None,
     to_keyDelayMs = None, to_attempts = None\<rparr>"

lemma home_world_facts:
  "hub_wf (hub home_world)" "getAgent ''o'' (hub home_world) = Inr (Some home_owner)" "lock_free (hub home_world) n"
  "presenceOf home_owner h = Inr None" "a_id home_owner = ''o''"
  by (simp_all add: home_world_def home_owner_def demo_world_def hub_wf_def empty_hub_def files_wf_def lease_files_wf_def getAgent_simp
      safe_id_def unsafe_char_def slash_def dget_def json_def lock_free_def presenceOf_def demo_agent_def dir_wf_def)

lemma presenceBrief_text: "truthy (Some (presenceBrief nm)) = Some (presenceBrief nm)" "presenceBrief nm \<noteq> ''-''"
  by (simp_all add: presenceBrief_def)

lemma spawn_in_home:
  assumes "sl_harness launched = Some ''codex''"
  obtains res v' where "spawn presence_host slot_lib (presenceInput nm \<lparr>sh_dir = ''/srv/ops'', sh_launch = k\<rparr> launched) v = (Inr res, v')"
    "a_harness (sr_agent res) = Some Codex"
proof -
  let ?inp = "presenceInput nm \<lparr>sh_dir = ''/srv/ops'', sh_launch = k\<rparr> launched"
  have checks: "spawnChecks presence_host ?inp u = (Inr (Tmux, Codex, presenceBrief nm), u)" for u
    using assms presenceBrief_text
    by (simp add: spawnChecks_def andThen_def eff_simps selectSessionAdapter_def parse_harness_def resolveBrief_def
        cwdFlagClash_def presenceInput_def)
  have primary: "spawnPrimary presence_host slot_lib ?inp u = (Inr None, u)" for u
    by (simp add: spawnPrimary_def primaryRootOf_def presenceInput_def extGet_run)
  have random: "randomId presence_host u = (Inr ''c0ffee'', u\<lparr>ext := Suc (ext u)\<rparr>)" for u
    by (simp add: randomId_def extStep_def)
  let ?P = "\<lparr>spl_host = presence_host, spl_lib = slot_lib, spl_input = ?inp, spl_backend = Tmux, spl_unit = ''c0ffee'',
     spl_brief = presenceBrief nm, spl_launch = defaultTo (sp_command ?inp) (LAUNCH_MAP Codex)\<rparr>"
  let ?v = "v\<lparr>hub := ensureMarker (hub v), ext := Suc (ext v)\<rparr>"
  have "\<exists>pl u. place ?P None ?v = (Inr pl, u)"
    by (simp add: place_def placeInFolder_def presenceInput_def openSession_def launchLine_def composeLaunchLine_def
        demo_adapter_def andThen_def eff_simps extGet_run hubGet_run Let_def)
  then obtain pl u where pl: "place ?P None ?v = (Inr pl, u)" by blast
  have "safe_id (spl_unit ?P)" by (simp add: safe_id_def unsafe_char_def slash_def)
  then obtain res v' where "registerUnit ?P Codex pl u = (Inr res, v')" "a_harness (sr_agent res) = Some Codex"
    by (rule registerUnit_returns)
  with pl checks primary random have
    "spawn presence_host slot_lib ?inp v = (Inr res, v')" by (simp add: spawn_def andThen_def hubSet_run Let_def)
  then show thesis using \<open>a_harness _ = _\<close> by (rule that)
qed

lemma settle_quick:
  assumes "a_harness (sr_agent res) = Some Codex"
  shows "settleSpawnTrust presence_host res quick_trust True v = (Inr \<lparr>ft_rung = False, ft_warning = None, ft_trust = TUnsettled\<rparr>, v)"
proof -
  have "\<not> showsTrustPrompt Codex []" by (simp add: showsTrustPrompt_def ustr_of_def uspace_def)
  moreover have "trust_screen (demo_adapter nm []) p x = []" for nm p x by (simp add: trust_screen_def demo_adapter_def)
  moreover have "trustTimeoutMs quick_trust = 0" by (simp add: trustTimeoutMs_def quick_trust_def)
  ultimately show ?thesis
    using assms
    by (simp add: settleSpawnTrust_def settleTrust_def sessionAdapter_def andThen_def eff_simps selectSessionAdapter_def
        answerTrustPrompt_def extGet_run)
qed

theorem spawn_one_presence_witness:
  "\<exists>u pane unbound turn w'. spawnPresence presence_host slot_lib NUDGE_OPTS quick_trust home_owner home_world =
      (Inr (SpawnedPresence u pane unbound turn), w') \<and> presence_bound home_owner u unbound (hub w')"
proof -
  have alone: "alone presence_host" by (simp add: alone_def)
  have lib: "\<forall>Q. lib_hub slot_lib Q" by (simp add: lib_hub_slot)
  have home: "a_home home_owner = Some \<lparr>sh_dir = ''/srv/ops'', sh_launch = HomeHarness Codex\<rparr>" by (simp add: home_owner_def)
  have fresh: "\<forall>n x. fst (os_random presence_host n x) \<noteq> a_id home_owner" by (simp add: home_world_facts)
  have get: "getAgent (a_id home_owner) (hub home_world) = Inr (Some home_owner)" by (simp add: home_world_facts)
  obtain r w' where run: "spawnPresence presence_host slot_lib NUDGE_OPTS quick_trust home_owner home_world = (r, w')" by fastforce
  let ?l = "presenceLock (a_id home_owner)"
  let ?w = "takeLock presence_host ?l home_world"
  obtain l where l: "resolveSpawnLaunch presence_host (homeRequest (the (a_home home_owner))) (ext ?w) = Inr l"
    "sl_harness l = Some ''codex''"
    by (simp add: home resolveSpawnLaunch_def homeRequest_def)
  obtain res v where res: "spawn presence_host slot_lib (presenceInput (a_handle home_owner) (the (a_home home_owner)) l) ?w = (Inr res, v)"
    "a_harness (sr_agent res) = Some Codex"
    using spawn_in_home [OF l(2)] home by (metis option.sel)
  obtain v1 where v1: "setPresence home_owner (Some (a_id (sr_agent res))) v = (Inr (), v1)"
    using setPresence_run [of home_owner] getAgent_wf_id [OF home_world_facts(1) get] by metis
  have "presenceOrSpawn presence_host slot_lib home_owner (the (a_home home_owner)) quick_trust ?w =
      (Inr (Inr (res, \<lparr>ft_rung = False, ft_warning = None, ft_trust = TUnsettled\<rparr>, False)), v1)"
    using get l res v1 settle_quick [OF res(2)]
    by (simp add: presenceOrSpawn_def spawnInHome_def settlePresence_def andThen_def hubRead_run reads_def tryE_def ret_def
        home_world_facts(4) trust_blocked_def)
  then have "\<exists>z. r = Inr z"
    using run home ringPresence_run [OF alone]
    by (auto simp: spawnPresence_def andThen_def withLock_free home_world_facts(3) split: prod.splits) blast
  moreover have "\<forall>u. r \<noteq> Inr (Existing u)"
    using spawn_one_presence [OF home_world_facts(1,3) alone lib fresh get run] by (auto simp: home_world_facts(4))
  ultimately obtain u pane unbound turn where "r = Inr (SpawnedPresence u pane unbound turn)"
    by (metis presence_spawn.exhaust)
  with spawn_one_presence [OF home_world_facts(1,3) alone lib fresh get run] run show ?thesis by auto
qed

end
