(* ===== verification/Permission.thy ===== *)
theory Permission
  imports Paths
begin

text \<open>
  \<open>permission.ts\<close>: the rule in Claude Code's user settings that lets every \<open>cyberlegion\<close> subcommand
  run. The settings are a JSON value, read and written through the host. A file that exists and cannot
  be read reads like one that does not parse: both throw inside the same \<open>try\<close>.
\<close>

subsection \<open>Reading a JSON value\<close>

text \<open>
  What \<open>v.k\<close> reads of a JSON value for a key that is not one of the built-in properties: \<open>null\<close>
  throws, everything but an object has no such property.
\<close>

definition type_error :: error where
  "type_error = HostError ''TypeError''"

fun jprop :: "jvalue \<Rightarrow> string \<Rightarrow> error + jvalue option" where
  "jprop JNull k = Inl type_error"
| "jprop (JObj fs) k = Inr (dget fs k)"
| "jprop _ k = Inr None"

text \<open>Nullish: absent or \<open>null\<close>.\<close>

definition present :: "jvalue option \<Rightarrow> jvalue option" where
  "present v = (if v = Some JNull then None else v)"

lemma present_simps [simp]: "present None = None" "present (Some JNull) = None"
  "present (Some (JArr vs)) = Some (JArr vs)" "present (Some (JObj fs)) = Some (JObj fs)" "present (Some (JStr s)) = Some (JStr s)"
  by (simp_all add: present_def)

text \<open>Spreading a value into an object literal: its fields, or the elements of an array under their index.\<close>

fun spread :: "jvalue \<Rightarrow> (string, jvalue) dir" where
  "spread (JObj fs) = fs"
| "spread (JArr vs) = zip (map nat_str [0..<length vs]) vs"
| "spread _ = []"

subsection \<open>The rule\<close>

definition CLI_RULE :: string where
  "CLI_RULE = ''Bash(cyberlegion *)''"

text \<open>The texts the pattern matches.\<close>

definition COVERING :: "string list" where
  "COVERING = [''Bash'', ''Bash(*)'', ''Bash(cyberlegion *)'', ''Bash(cyberlegion:*)'', ''Bash(cyberlegion*)'']"

datatype rule_state = RulePresent | RuleMissing | RuleUnreadable

fun rule_name :: "rule_state \<Rightarrow> string" where
  "rule_name RulePresent = ''present''"
| "rule_name RuleMissing = ''missing''"
| "rule_name RuleUnreadable = ''unreadable''"

definition claudeUserSettingsFile :: "'x host \<Rightarrow> env \<Rightarrow> string" where
  "claudeUserSettingsFile H env =
     path_join (defaultTo (truthy (env_get env ''CLAUDE_CONFIG_DIR'')) (path_join (os_homedir H) [''.claude'']))
       [''settings.json'']"

text \<open>The allow list of a \<open>permissions\<close> value, unless it is malformed.\<close>

definition allowList :: "jvalue option \<Rightarrow> jvalue list option" where
  "allowList permissions = (case permissions of
       None \<Rightarrow> Some []
     | Some (JObj ps) \<Rightarrow> (case present (dget ps ''allow'') of None \<Rightarrow> Some [] | Some (JArr vs) \<Rightarrow> Some vs | Some _ \<Rightarrow> None)
     | Some (JArr vs) \<Rightarrow> Some []
     | Some _ \<Rightarrow> None)"

definition readSettings :: "'x host \<Rightarrow> string \<Rightarrow> 'x \<Rightarrow> error + (string, jvalue) dir \<times> jvalue list" where
  "readSettings H file x = (case os_readJson H file x of
       None \<Rightarrow> Inr ([], [])
     | Some Torn \<Rightarrow> Inl (ConfigE (SettingsUnparseable file))
     | Some (Json (JObj settings)) \<Rightarrow>
         (case allowList (dget settings ''permissions'') of
            None \<Rightarrow> Inl (ConfigE (SettingsMalformed file))
          | Some allow \<Rightarrow> Inr (settings, allow))
     | Some (Json _) \<Rightarrow> Inl (ConfigE (SettingsNotObject file)))"

definition covers :: "jvalue list \<Rightarrow> bool" where
  "covers allow \<longleftrightarrow> (\<exists>rule\<in>set allow. rule \<in> JStr ` set COVERING)"

definition permissionRuleState :: "'x host \<Rightarrow> string \<Rightarrow> 'x \<Rightarrow> rule_state" where
  "permissionRuleState H file x = (case readSettings H file x of
       Inl e \<Rightarrow> RuleUnreadable
     | Inr (settings, allow) \<Rightarrow> if covers allow then RulePresent else RuleMissing)"

datatype rule_added = RuleAdded | RuleThere

fun added_name :: "rule_added \<Rightarrow> string" where
  "added_name RuleAdded = ''added''"
| "added_name RuleThere = ''present''"

definition withRule :: "(string, jvalue) dir \<Rightarrow> jvalue list \<Rightarrow> (string, jvalue) dir" where
  "withRule settings allow =
     (let permissions = defaultTo (present (dget settings ''permissions'')) (JObj [])
      in dput ''permissions'' (JObj (dput ''allow'' (JArr (allow @ [JStr CLI_RULE])) (spread permissions))) settings)"

definition addPermissionRule :: "'x host \<Rightarrow> string \<Rightarrow> (error, 'x, rule_added) eff" where
  "addPermissionRule H file =
     andThen (reads (readSettings H file)) (\<lambda>(settings, allow).
     if covers allow then ret RuleThere
     else andThen (os_writeJson H file (JObj (withRule settings allow))) (\<lambda>_. ret RuleAdded))"

subsection \<open>What a run leaves\<close>

text \<open>What the program relies on: a file just written reads as what was written.\<close>

definition json_file_law :: "'x host \<Rightarrow> string \<Rightarrow> bool" where
  "json_file_law H file \<longleftrightarrow>
     (\<forall>v x x'. os_writeJson H file v x = (Inr (), x') \<longrightarrow> os_readJson H file x' = Some (Json v))"

text \<open>The settings a file stands for: a missing file is an empty object.\<close>

definition settingsOf :: "'x host \<Rightarrow> string \<Rightarrow> 'x \<Rightarrow> (string, jvalue) dir" where
  "settingsOf H file x = (case os_readJson H file x of Some (Json (JObj fs)) \<Rightarrow> fs | _ \<Rightarrow> [])"

definition permissionsOf :: "(string, jvalue) dir \<Rightarrow> (string, jvalue) dir" where
  "permissionsOf settings = (case dget settings ''permissions'' of None \<Rightarrow> [] | Some p \<Rightarrow> spread p)"

definition allowOf :: "(string, jvalue) dir \<Rightarrow> jvalue list" where
  "allowOf settings = defaultTo (allowList (dget settings ''permissions'')) []"

lemma covers_append [simp]: "covers (allow @ [JStr CLI_RULE])"
  by (auto simp: covers_def COVERING_def CLI_RULE_def)

lemma allowList_null [simp]: "allowList (Some JNull) = None"
  by (simp add: allowList_def)

lemma allowList_allow [simp]: "allowList (Some (JObj (dput ''allow'' (JArr vs) fs))) = Some vs"
  by (simp add: allowList_def)

lemma readSettings_ok:
  "readSettings H file x = Inr (settings, allow) \<Longrightarrow>
     settings = settingsOf H file x \<and> allowList (dget settings ''permissions'') = Some allow"
  by (auto simp: readSettings_def settingsOf_def allowList_def split: option.splits jfile.splits jvalue.splits)

lemma readSettings_written:
  assumes "json_file_law H file" "os_writeJson H file (JObj (withRule settings allow)) x = (Inr (), x')"
  shows "readSettings H file x' = Inr (withRule settings allow, allow @ [JStr CLI_RULE])"
proof -
  have "os_readJson H file x' = Some (Json (JObj (withRule settings allow)))"
    using assms unfolding json_file_law_def by blast
  then show ?thesis by (simp add: readSettings_def withRule_def Let_def)
qed

lemma withRule_permissions:
  assumes "allowList (dget settings ''permissions'') = Some allow"
  shows "permissionsOf (withRule settings allow) =
           dput ''allow'' (JArr (allow @ [JStr CLI_RULE])) (permissionsOf settings)"
proof -
  have nn: "dget settings ''permissions'' \<noteq> Some JNull" using assms by auto
  show ?thesis
    by (cases "dget settings ''permissions''") (use nn in \<open>auto simp: permissionsOf_def withRule_def present_def defaultTo_def Let_def\<close>)
qed

lemma withRule_other [simp]: "k \<noteq> ''permissions'' \<Longrightarrow> dget (withRule settings allow) k = dget settings k"
  by (simp add: withRule_def Let_def)

text \<open>Every outcome of the step.\<close>

lemma addPermissionRule_run:
  "addPermissionRule H file x = (case readSettings H file x of
       Inl e \<Rightarrow> (Inl e, x)
     | Inr (settings, allow) \<Rightarrow>
         if covers allow then (Inr RuleThere, x)
         else case os_writeJson H file (JObj (withRule settings allow)) x of
                (Inl e, x') \<Rightarrow> (Inl e, x')
              | (Inr u, x') \<Rightarrow> (Inr RuleAdded, x'))"
proof (cases "readSettings H file x")
  case (Inl e)
  then show ?thesis by (simp add: addPermissionRule_def andThen_reads)
next
  case (Inr p)
  then show ?thesis
    by (cases p) (simp add: addPermissionRule_def andThen_reads andThen_def [of "os_writeJson H file v" for v] ret_def
        split: sum.splits prod.splits)
qed

lemma added_rule_lands:
  assumes law: "json_file_law H file"
    and readable: "readSettings H file x = Inr (settings, allow)" and open_: "\<not> covers allow"
    and written: "os_writeJson H file (JObj (withRule settings allow)) x = (Inr (), x')"
  shows "allowOf (settingsOf H file x') = allowOf (settingsOf H file x) @ [JStr CLI_RULE]"
    and "k' \<noteq> ''permissions'' \<Longrightarrow> dget (settingsOf H file x') k' = dget (settingsOf H file x) k'"
    and "k \<noteq> ''allow'' \<Longrightarrow>
           dget (permissionsOf (settingsOf H file x')) k = dget (permissionsOf (settingsOf H file x)) k"
    and "permissionRuleState H file x' = RulePresent"
    and "addPermissionRule H file x' = (Inr RuleThere, x')"
proof -
  note before = readSettings_ok [OF readable]
  note after = readSettings_written [OF law written]
  note after' = readSettings_ok [OF after]
  show "allowOf (settingsOf H file x') = allowOf (settingsOf H file x) @ [JStr CLI_RULE]"
    using before after' by (auto simp: allowOf_def defaultTo_def)
  show "dget (settingsOf H file x') k' = dget (settingsOf H file x) k'" if "k' \<noteq> ''permissions''"
    using before after' that withRule_other by metis
  show "dget (permissionsOf (settingsOf H file x')) k = dget (permissionsOf (settingsOf H file x)) k" if "k \<noteq> ''allow''"
    using before after' that withRule_permissions [of settings allow] by (metis dget_dput_other)
  show "permissionRuleState H file x' = RulePresent"
    by (simp add: permissionRuleState_def after)
  show "addPermissionRule H file x' = (Inr RuleThere, x')"
    by (simp add: addPermissionRule_run after)
qed

text \<open>
  C31. Adding the rule merges it into the settings, or leaves them alone. When it reports the rule added,
  the settings file now lets the CLI run: its allow list is the former one with the rule after it, every
  other permission and every other setting reads as before, and a second run changes nothing. When it
  reports the rule present, nothing is written. When it fails, the settings could not be read as
  settings and the file is untouched, or the rule was missing and the write itself failed.
\<close>

theorem permission_rule_merged:
  assumes "json_file_law H file" and "addPermissionRule H file x = (r, x')"
  shows "case r of
      Inr RuleAdded \<Rightarrow>
        permissionRuleState H file x = RuleMissing \<and> permissionRuleState H file x' = RulePresent \<and>
        allowOf (settingsOf H file x') = allowOf (settingsOf H file x) @ [JStr CLI_RULE] \<and>
        (\<forall>k. k \<noteq> ''permissions'' \<longrightarrow> dget (settingsOf H file x') k = dget (settingsOf H file x) k) \<and>
        (\<forall>k. k \<noteq> ''allow'' \<longrightarrow>
           dget (permissionsOf (settingsOf H file x')) k = dget (permissionsOf (settingsOf H file x)) k) \<and>
        addPermissionRule H file x' = (Inr RuleThere, x')
    | Inr RuleThere \<Rightarrow> permissionRuleState H file x = RulePresent \<and> x' = x
    | Inl e \<Rightarrow>
        permissionRuleState H file x = RuleUnreadable \<and> x' = x \<or>
        permissionRuleState H file x = RuleMissing \<and>
          (\<exists>v. os_writeJson H file v x = (Inl e, x'))"
proof (cases "readSettings H file x")
  case (Inl e)
  then show ?thesis using assms(2) by (auto simp: addPermissionRule_run permissionRuleState_def)
next
  case (Inr p)
  obtain settings allow where p: "p = (settings, allow)" by (cases p)
  note readable = Inr [unfolded p]
  obtain u y where wr: "os_writeJson H file (JObj (withRule settings allow)) x = (u, y)" by fastforce
  show ?thesis
  proof (cases "covers allow")
    case True
    then show ?thesis using assms(2) readable by (auto simp: addPermissionRule_run permissionRuleState_def)
  next
    case False
    then have missing: "permissionRuleState H file x = RuleMissing" by (simp add: permissionRuleState_def readable)
    show ?thesis
    proof (cases u)
      case (Inl e)
      then show ?thesis using assms(2) readable False wr missing by (auto simp: addPermissionRule_run)
    next
      case (Inr v)
      have wr': "os_writeJson H file (JObj (withRule settings allow)) x = (Inr (), y)" using wr Inr by simp
      have "r = Inr RuleAdded" "x' = y" using assms(2) readable False wr' by (auto simp: addPermissionRule_run)
      then show ?thesis using added_rule_lands [OF assms(1) readable False wr'] missing by simp
    qed
  qed
qed

text \<open>A host whose outside world is one file.\<close>

definition file_host :: "jvalue jfile option host" where
  "file_host = quiet_host\<lparr>os_readJson := (\<lambda>p x. x), os_writeJson := (\<lambda>p v x. (Inr (), Some (Json v)))\<rparr>"

lemma file_host_law [simp]: "json_file_law file_host p"
  by (simp add: json_file_law_def file_host_def)

definition demo_settings :: jvalue where
  "demo_settings = JObj [(''model'', JStr ''opus''),
     (''permissions'', JObj [(''allow'', JArr [JStr ''Bash(git *)'']), (''deny'', JArr [JStr ''Bash(rm *)''])])]"

lemma demo_rule_added:
  "addPermissionRule file_host ''/cfg'' (Some (Json demo_settings)) =
     (Inr RuleAdded, Some (Json (JObj [(''model'', JStr ''opus''),
        (''permissions'', JObj [(''allow'', JArr [JStr ''Bash(git *)'', JStr CLI_RULE]), (''deny'', JArr [JStr ''Bash(rm *)''])])])))"
  by (simp add: addPermissionRule_run readSettings_def file_host_def demo_settings_def allowList_def covers_def COVERING_def
      withRule_def dget_Cons defaultTo_def Let_def)

theorem permission_rule_merged_witness:
  "permissionRuleState file_host ''/cfg'' (Some (Json demo_settings)) = RuleMissing \<and>
   dget (settingsOf file_host ''/cfg'' (snd (addPermissionRule file_host ''/cfg'' (Some (Json demo_settings))))) ''model''
     = Some (JStr ''opus'')"
proof -
  note T = permission_rule_merged [OF file_host_law demo_rule_added]
  have other: "dget (settingsOf file_host ''/cfg'' (snd (addPermissionRule file_host ''/cfg'' (Some (Json demo_settings))))) ''model''
      = dget (settingsOf file_host ''/cfg'' (Some (Json demo_settings))) ''model''"
    using T by (simp add: demo_rule_added)
  have "dget (settingsOf file_host ''/cfg'' (Some (Json demo_settings))) ''model'' = Some (JStr ''opus'')"
    by (simp add: settingsOf_def file_host_def demo_settings_def dget_Cons)
  with T other show ?thesis by simp
qed

end
