(* ===== verification/Install.thy ===== *)
theory Install
  imports Permission
begin

text \<open>
  \<open>install.ts\<close>: the surfacing hook in a harness's project settings. The settings are a JSON value; what
  the code reads of a value of another shape than it expects follows the language: \<open>null\<close> throws, a
  loop runs over arrays and strings and throws on the rest, a property set on an array is not written,
  a property set on a number, a text or a boolean throws.
\<close>

subsection \<open>The hook command\<close>

definition pin_char :: "char \<Rightarrow> bool" where
  "pin_char c \<longleftrightarrow> is_alnum c \<or> c \<in> {CHR ''.'', CHR ''_'', CHR ''+'', CHR ''-''}"

definition PIN_TOKEN :: "string \<Rightarrow> bool" where
  "PIN_TOKEN p \<longleftrightarrow> (case p of [] \<Rightarrow> False | c # cs \<Rightarrow> is_alnum c \<and> list_all pin_char cs)"

definition validatePin :: "string \<Rightarrow> error + unit" where
  "validatePin pin = (if PIN_TOKEN pin then Inr () else Inl (ConfigE (InvalidPin pin)))"

definition hookCommand :: "string \<Rightarrow> string option \<Rightarrow> string" where
  "hookCommand event pin =
     ''if command -v cyberlegion >/dev/null 2>&1; then cyberlegion mail hook --event '' @ event @
     ''; else npx -y cyberlegion'' @ (case truthy pin of None \<Rightarrow> [] | Some p \<Rightarrow> ''@'' @ p) @
     '' mail hook --event '' @ event @ ''; fi''"

definition strip :: "string \<Rightarrow> string \<Rightarrow> string option" where
  "strip p s = (if starts_with s p then Some (drop (length p) s) else None)"

definition word_char :: "char \<Rightarrow> bool" where
  "word_char c \<longleftrightarrow> is_alnum c \<or> c = CHR ''_''"

text \<open>An optional pin: an at sign and the characters up to the next space.\<close>

definition skip_pin :: "string \<Rightarrow> string" where
  "skip_pin s = (case s of
       [] \<Rightarrow> []
     | c # r \<Rightarrow> if c = CHR ''@'' \<and> takeWhile (\<lambda>d. \<not> is_space d) r \<noteq> [] then dropWhile (\<lambda>d. \<not> is_space d) r else s)"

text \<open>The two patterns of commands that were ever written; each matches a whole command.\<close>

definition bare_generation :: "string \<Rightarrow> string option" where
  "bare_generation s =
     (let called = (case strip ''npx '' s of
            Some r \<Rightarrow> map_option skip_pin (strip ''cyberlegion'' (defaultTo (strip ''-y '' r) r))
          | None \<Rightarrow> strip ''cyberlegion'' s)
      in case Option.bind called (strip '' mail hook --event '') of
           None \<Rightarrow> None
         | Some e \<Rightarrow> if e \<noteq> [] \<and> list_all word_char e then Some e else None)"

definition path_generation :: "string \<Rightarrow> string option" where
  "path_generation s =
     (case strip ''if command -v cyberlegion >/dev/null 2>&1; then cyberlegion mail hook --event '' s of
        None \<Rightarrow> None
      | Some r \<Rightarrow>
          let e = takeWhile word_char r;
              called = map_option skip_pin (strip ''; else npx -y cyberlegion'' (dropWhile word_char r))
          in if e \<noteq> [] \<and> Option.bind called (strip '' mail hook --event '') = Some (e @ ''; fi'') then Some e else None)"

definition hookTarget :: "string \<Rightarrow> string option" where
  "hookTarget command = or_else (bare_generation command) (path_generation command)"

subsection \<open>The harnesses\<close>

datatype shape = ClaudeShape | CursorShape

record vendor_spec =
  vs_file :: string
  vs_shape :: shape
  vs_events :: "(string \<times> string) list"
  vs_pluginHook :: bool

fun VENDORS :: "harness \<Rightarrow> vendor_spec" where
  "VENDORS Claude = \<lparr>vs_file = ''.claude/settings.json'', vs_shape = ClaudeShape,
     vs_events = [(''SessionStart'', ''SessionStart'')], vs_pluginHook = True\<rparr>"
| "VENDORS Cursor = \<lparr>vs_file = ''.cursor/hooks.json'', vs_shape = CursorShape,
     vs_events = [(''SessionStart'', ''sessionStart'')], vs_pluginHook = False\<rparr>"
| "VENDORS Codex = \<lparr>vs_file = ''.codex/hooks.json'', vs_shape = CursorShape,
     vs_events = [(''SessionStart'', ''SessionStart'')], vs_pluginHook = True\<rparr>"

definition RETIRED_EVENTS :: "string list" where
  "RETIRED_EVENTS = [''PostToolUse'']"

datatype install_status = Registered | AlreadyPresent | ProvidedByPlugin | RemovedProjectHook

fun status_text :: "install_status \<Rightarrow> string" where
  "status_text Registered = ''registered''"
| "status_text AlreadyPresent = ''already present''"
| "status_text ProvidedByPlugin = ''provided by plugin''"
| "status_text RemovedProjectHook = ''removed project hook''"

record install_result =
  ir_harness :: harness
  ir_event :: string
  ir_vendorEvent :: string
  ir_file :: string
  ir_status :: install_status

subsection \<open>Registering\<close>

text \<open>What a loop over a value visits.\<close>

fun iter_values :: "jvalue \<Rightarrow> error + jvalue list" where
  "iter_values (JArr vs) = Inr vs"
| "iter_values (JStr s) = Inr (map (\<lambda>c. JStr [c]) s)"
| "iter_values _ = Inl type_error"

fun with_field :: "string \<Rightarrow> jvalue \<Rightarrow> jvalue \<Rightarrow> jvalue" where
  "with_field k v (JObj fs) = JObj (dput k v fs)"
| "with_field k v w = w"

text \<open>
  The first entry that is the command, or that an earlier version wrote for the same event: that one
  is brought up to date. \<open>None\<close> when there is none.
\<close>

fun refresh :: "string \<Rightarrow> jvalue list \<Rightarrow> error + jvalue list option" where
  "refresh command [] = Inr None"
| "refresh command (h # hs) = (case jprop h ''command'' of
       Inl e \<Rightarrow> Inl e
     | Inr c \<Rightarrow>
         if c = Some (JStr command) then Inr (Some (h # hs))
         else (case (hookTarget command, c) of
             (None, _) \<Rightarrow> map_sum id (map_option (Cons h)) (refresh command hs)
           | (Some t, Some (JStr old)) \<Rightarrow>
               if hookTarget old = Some t then Inr (Some (with_field ''command'' (JStr command) h # hs))
               else map_sum id (map_option (Cons h)) (refresh command hs)
           | (Some t, _) \<Rightarrow> Inl type_error))"

text \<open>The hooks of a group, as the loop reads them.\<close>

definition groupHooks :: "jvalue \<Rightarrow> error + jvalue list" where
  "groupHooks g = (case jprop g ''hooks'' of
       Inl e \<Rightarrow> Inl e
     | Inr v \<Rightarrow> (case present v of None \<Rightarrow> Inr [] | Some l \<Rightarrow> iter_values l))"

fun refreshGroups :: "string \<Rightarrow> jvalue list \<Rightarrow> error + jvalue list option" where
  "refreshGroups command [] = Inr None"
| "refreshGroups command (g # gs) = (case groupHooks g of
       Inl e \<Rightarrow> Inl e
     | Inr hs \<Rightarrow> (case refresh command hs of
           Inl e \<Rightarrow> Inl e
         | Inr (Some hs') \<Rightarrow> Inr (Some (with_field ''hooks'' (JArr hs') g # gs))
         | Inr None \<Rightarrow> map_sum id (map_option (Cons g)) (refreshGroups command gs)))"

text \<open>
  The list of an event after a registration. \<open>search\<close> looks for an entry to keep or bring up to date,
  \<open>entry\<close> is the one to add. \<open>push\<close> needs an array.
\<close>

definition upsertEvent ::
    "(jvalue list \<Rightarrow> error + jvalue list option) \<Rightarrow> jvalue \<Rightarrow> jvalue option \<Rightarrow> error + install_status \<times> jvalue" where
  "upsertEvent search entry v =
     (let old = defaultTo (present v) (JArr [])
      in case iter_values old of
           Inl e \<Rightarrow> Inl e
         | Inr hs \<Rightarrow> (case search hs of
               Inl e \<Rightarrow> Inl e
             | Inr (Some hs') \<Rightarrow> Inr (AlreadyPresent, (case old of JArr vs \<Rightarrow> JArr hs' | w \<Rightarrow> w))
             | Inr None \<Rightarrow> (case old of JArr vs \<Rightarrow> Inr (Registered, JArr (vs @ [entry])) | _ \<Rightarrow> Inl type_error)))"

text \<open>The hooks of the settings; on an array the new list is set as a property that JSON does not carry.\<close>

definition upsertHooks ::
    "(jvalue option \<Rightarrow> error + install_status \<times> jvalue) \<Rightarrow> string \<Rightarrow> jvalue \<Rightarrow> error + install_status \<times> jvalue" where
  "upsertHooks put event settings = (case settings of
       JObj fs \<Rightarrow>
         (case defaultTo (present (dget fs ''hooks'')) (JObj []) of
            JObj hs \<Rightarrow> map_sum id (map_prod id (\<lambda>l. JObj (dput ''hooks'' (JObj (dput event l hs)) fs))) (put (dget hs event))
          | JArr vs \<Rightarrow> map_sum id (map_prod id (\<lambda>l. settings)) (put None)
          | _ \<Rightarrow> Inl type_error)
     | JArr vs \<Rightarrow> map_sum id (map_prod id (\<lambda>l. settings)) (put None)
     | _ \<Rightarrow> Inl type_error)"

definition upsertClaude :: "jvalue \<Rightarrow> string \<Rightarrow> string \<Rightarrow> error + install_status \<times> jvalue" where
  "upsertClaude settings event command =
     upsertHooks (upsertEvent (refreshGroups command)
       (JObj [(''hooks'', JArr [JObj [(''type'', JStr ''command''), (''command'', JStr command)]])])) event settings"

definition setVersion :: "jvalue \<Rightarrow> jvalue" where
  "setVersion settings = (case settings of
       JObj fs \<Rightarrow> if present (dget fs ''version'') = None then JObj (dput ''version'' (JNum 1) fs) else settings
     | _ \<Rightarrow> settings)"

definition upsertCursor :: "jvalue \<Rightarrow> string \<Rightarrow> string \<Rightarrow> error + install_status \<times> jvalue" where
  "upsertCursor settings event command =
     upsertHooks (upsertEvent (refresh command) (JObj [(''command'', JStr command)])) event (setVersion settings)"

subsection \<open>Removing\<close>

definition isOurs :: "jvalue \<Rightarrow> string \<Rightarrow> error + bool" where
  "isOurs h event = (case jprop h ''command'' of
       Inl e \<Rightarrow> Inl e
     | Inr None \<Rightarrow> Inr False
     | Inr (Some (JStr c)) \<Rightarrow> Inr (hookTarget c = Some event)
     | Inr (Some _) \<Rightarrow> Inl type_error)"

fun dropOurs :: "string \<Rightarrow> jvalue list \<Rightarrow> error + jvalue list" where
  "dropOurs event [] = Inr []"
| "dropOurs event (h # hs) = (case isOurs h event of
       Inl e \<Rightarrow> Inl e
     | Inr ours \<Rightarrow> map_sum id (\<lambda>kept. if ours then kept else h # kept) (dropOurs event hs))"

text \<open>One group: whether something went, and the group when something is left.\<close>

definition dropFromGroup :: "string \<Rightarrow> jvalue \<Rightarrow> error + bool \<times> jvalue list" where
  "dropFromGroup event g = (case jprop g ''hooks'' of
       Inl e \<Rightarrow> Inl e
     | Inr v \<Rightarrow> (case present v of
           None \<Rightarrow> Inr (False, [])
         | Some (JArr hs) \<Rightarrow> (case dropOurs event hs of
               Inl e \<Rightarrow> Inl e
             | Inr kept \<Rightarrow> Inr (length kept \<noteq> length hs,
                 if kept = [] then [] else [JObj (dput ''hooks'' (JArr kept) (spread g))]))
         | Some _ \<Rightarrow> Inl type_error))"

fun dropFromGroups :: "string \<Rightarrow> jvalue list \<Rightarrow> error + bool \<times> jvalue list" where
  "dropFromGroups event [] = Inr (False, [])"
| "dropFromGroups event (g # gs) = (case dropFromGroup event g of
       Inl e \<Rightarrow> Inl e
     | Inr (removed, kept) \<Rightarrow> map_sum id (map_prod (\<lambda>r. removed \<or> r) (\<lambda>k. kept @ k)) (dropFromGroups event gs))"

fun falsy :: "jvalue \<Rightarrow> bool" where
  "falsy JNull \<longleftrightarrow> True"
| "falsy (JBool b) \<longleftrightarrow> \<not> b"
| "falsy (JNum n) \<longleftrightarrow> n = 0"
| "falsy (JStr s) \<longleftrightarrow> s = []"
| "falsy _ \<longleftrightarrow> False"

text \<open>The list registered for an event, when there is one: the fields around it come along.\<close>

definition eventList :: "jvalue \<Rightarrow> string \<Rightarrow> error + ((string, jvalue) dir \<times> (string, jvalue) dir \<times> jvalue) option" where
  "eventList settings event = (case settings of
       JNull \<Rightarrow> Inl type_error
     | JObj fs \<Rightarrow> (case dget fs ''hooks'' of
           Some (JObj hs) \<Rightarrow> (case dget hs event of
               Some l \<Rightarrow> Inr (if falsy l then None else Some (fs, hs, l))
             | None \<Rightarrow> Inr None)
         | _ \<Rightarrow> Inr None)
     | _ \<Rightarrow> Inr None)"

definition keepList :: "(string, jvalue) dir \<Rightarrow> (string, jvalue) dir \<Rightarrow> string \<Rightarrow> jvalue list \<Rightarrow> jvalue" where
  "keepList fs hs event kept =
     JObj (dput ''hooks'' (JObj (if kept = [] then ddel event hs else dput event (JArr kept) hs)) fs)"

definition removeClaude :: "jvalue \<Rightarrow> string \<Rightarrow> string \<Rightarrow> error + bool \<times> jvalue" where
  "removeClaude settings event canonical = (case eventList settings event of
       Inl e \<Rightarrow> Inl e
     | Inr None \<Rightarrow> Inr (False, settings)
     | Inr (Some (fs, hs, l)) \<Rightarrow> (case iter_values l of
           Inl e \<Rightarrow> Inl e
         | Inr gs \<Rightarrow> (case dropFromGroups canonical gs of
               Inl e \<Rightarrow> Inl e
             | Inr (removed, kept) \<Rightarrow> Inr (if removed then (True, keepList fs hs event kept) else (False, settings)))))"

definition removeCursor :: "jvalue \<Rightarrow> string \<Rightarrow> string \<Rightarrow> error + bool \<times> jvalue" where
  "removeCursor settings event canonical = (case eventList settings event of
       Inl e \<Rightarrow> Inl e
     | Inr None \<Rightarrow> Inr (False, settings)
     | Inr (Some (fs, hs, JArr l)) \<Rightarrow> (case dropOurs canonical l of
           Inl e \<Rightarrow> Inl e
         | Inr kept \<Rightarrow> Inr (if length kept = length l then (False, settings) else (True, keepList fs hs event kept)))
     | Inr (Some _) \<Rightarrow> Inl type_error)"

definition removeHook :: "shape \<Rightarrow> jvalue \<Rightarrow> string \<Rightarrow> string \<Rightarrow> error + bool \<times> jvalue" where
  "removeHook s = (case s of ClaudeShape \<Rightarrow> removeClaude | CursorShape \<Rightarrow> removeCursor)"

definition upsertHook :: "shape \<Rightarrow> jvalue \<Rightarrow> string \<Rightarrow> string \<Rightarrow> error + install_status \<times> jvalue" where
  "upsertHook s = (case s of ClaudeShape \<Rightarrow> upsertClaude | CursorShape \<Rightarrow> upsertCursor)"

subsection \<open>The installation\<close>

text \<open>The settings, what is reported, and whether to write.\<close>

type_synonym install_state = "jvalue \<times> install_result list \<times> bool"

definition installEvent ::
    "harness \<Rightarrow> string \<Rightarrow> string option \<Rightarrow> string \<times> string \<Rightarrow> install_state \<Rightarrow> error + install_state" where
  "installEvent h file pin ev st = (case (ev, st) of ((canonical, vendorEvent), (settings, results, changed)) \<Rightarrow>
     let spec = VENDORS h;
         report = (\<lambda>s. \<lparr>ir_harness = h, ir_event = canonical, ir_vendorEvent = vendorEvent, ir_file = file, ir_status = s\<rparr>)
     in if vs_pluginHook spec
        then (case removeHook (vs_shape spec) settings vendorEvent canonical of
            Inl e \<Rightarrow> Inl e
          | Inr (removed, settings') \<Rightarrow>
              Inr (settings', results @ [report (if removed then RemovedProjectHook else ProvidedByPlugin)], changed \<or> removed))
        else (case upsertHook (vs_shape spec) settings vendorEvent (hookCommand canonical pin) of
            Inl e \<Rightarrow> Inl e
          | Inr (s, settings') \<Rightarrow> Inr (settings', results @ [report s], True)))"

definition retireEvent :: "harness \<Rightarrow> string \<Rightarrow> string \<Rightarrow> install_state \<Rightarrow> error + install_state" where
  "retireEvent h file event st = (case st of (settings, results, changed) \<Rightarrow>
     case removeHook (vs_shape (VENDORS h)) settings event event of
       Inl e \<Rightarrow> Inl e
     | Inr (removed, settings') \<Rightarrow>
         Inr (if removed
              then (settings', results @ [\<lparr>ir_harness = h, ir_event = event, ir_vendorEvent = event, ir_file = file,
                                          ir_status = RemovedProjectHook\<rparr>], True)
              else (settings', results, changed)))"

fun foldSum :: "('a \<Rightarrow> 'b \<Rightarrow> error + 'b) \<Rightarrow> 'a list \<Rightarrow> 'b \<Rightarrow> error + 'b" where
  "foldSum f [] b = Inr b"
| "foldSum f (a # as) b = (case f a b of Inl e \<Rightarrow> Inl e | Inr b' \<Rightarrow> foldSum f as b')"

definition readJson :: "'x host \<Rightarrow> string \<Rightarrow> 'x \<Rightarrow> jvalue" where
  "readJson H file x = (case os_readJson H file x of Some (Json v) \<Rightarrow> v | _ \<Rightarrow> JObj [])"

definition hookFile :: "harness \<Rightarrow> string \<Rightarrow> string" where
  "hookFile h projectDir = path_join projectDir [vs_file (VENDORS h)]"

definition installed :: "harness \<Rightarrow> string \<Rightarrow> string option \<Rightarrow> jvalue \<Rightarrow> error + install_state" where
  "installed h file pin settings =
     (case foldSum (installEvent h file pin) (vs_events (VENDORS h)) (settings, [], False) of
        Inl e \<Rightarrow> Inl e
      | Inr st \<Rightarrow> if vs_pluginHook (VENDORS h) then foldSum (retireEvent h file) RETIRED_EVENTS st else Inr st)"

definition install :: "'x host \<Rightarrow> harness \<Rightarrow> string \<Rightarrow> string option \<Rightarrow> (error, 'x, install_result list) eff" where
  "install H h projectDir pin =
     andThen (ofSum (case pin of None \<Rightarrow> Inr () | Some p \<Rightarrow> validatePin p)) (\<lambda>_.
     andThen (reads (\<lambda>x. installed h (hookFile h projectDir) pin (readJson H (hookFile h projectDir) x)))
       (\<lambda>(settings, results, changed).
     if changed then andThen (os_writeJson H (hookFile h projectDir) settings) (\<lambda>_. ret results) else ret results))"

subsection \<open>The command is recognised\<close>

lemma strip_append [simp]: "strip p (p @ s) = Some s"
  by (simp add: strip_def starts_with_def)

lemma word_not_space: "word_char c \<Longrightarrow> \<not> is_space c"
  by (auto simp: word_char_def is_alnum_def is_digit_def is_lower_def is_upper_def is_space_def)

lemma pin_not_space: "pin_char c \<Longrightarrow> \<not> is_space c"
  by (auto simp: pin_char_def is_alnum_def is_digit_def is_lower_def is_upper_def is_space_def)

lemma PIN_TOKEN_chars: "PIN_TOKEN p \<Longrightarrow> p \<noteq> [] \<and> list_all pin_char p"
  by (auto simp: PIN_TOKEN_def pin_char_def split: list.splits)

lemma skip_pin_none: "skip_pin (CHR '' '' # s) = CHR '' '' # s"
  by (simp add: skip_pin_def)

lemma skip_pin_some:
  assumes "PIN_TOKEN p"
  shows "skip_pin (CHR ''@'' # p @ CHR '' '' # s) = CHR '' '' # s"
proof -
  have all: "\<forall>c\<in>set p. \<not> is_space c" and "p \<noteq> []"
    using PIN_TOKEN_chars [OF assms] by (auto simp: list_all_iff pin_not_space)
  have sp: "is_space (CHR '' '')" by (simp add: is_space_def)
  show ?thesis using all \<open>p \<noteq> []\<close> sp by (simp add: skip_pin_def takeWhile_append dropWhile_append)
qed

lemma hookTarget_hookCommand:
  assumes "event \<noteq> []" "list_all word_char event" "\<And>p. pin = Some p \<Longrightarrow> PIN_TOKEN p"
  shows "hookTarget (hookCommand event pin) = Some event"
proof -
  let ?start = "''if command -v cyberlegion >/dev/null 2>&1; then cyberlegion mail hook --event ''"
  define pinned where "pinned = (case truthy pin of None \<Rightarrow> [] | Some p \<Rightarrow> ''@'' @ p)"
  define rest where "rest = '' mail hook --event '' @ event @ ''; fi''"
  define tail where "tail = ''; else npx -y cyberlegion'' @ pinned @ rest"
  have cmd: "hookCommand event pin = ?start @ event @ tail"
    by (simp add: hookCommand_def tail_def pinned_def rest_def)
  have bare: "bare_generation (?start @ t) = None" for t
    by (simp add: bare_generation_def strip_def starts_with_def)
  have ev: "takeWhile word_char (event @ tail) = event" "dropWhile word_char (event @ tail) = tail"
    using assms(2) by (simp_all add: tail_def list_all_iff takeWhile_append dropWhile_append word_char_def
        is_alnum_def is_digit_def is_lower_def is_upper_def)
  have st: "strip ''; else npx -y cyberlegion'' tail = Some (pinned @ rest)"
    unfolding tail_def by (rule strip_append)
  have sk: "skip_pin (pinned @ rest) = rest"
  proof (cases "truthy pin")
    case None
    then show ?thesis by (simp add: pinned_def rest_def skip_pin_none del: append_Cons) (simp add: skip_pin_none)
  next
    case (Some p)
    then have "PIN_TOKEN p" using assms(3) by (simp add: truthy_Some)
    then show ?thesis using Some skip_pin_some [of p] by (simp add: pinned_def rest_def)
  qed
  have re: "strip '' mail hook --event '' rest = Some (event @ ''; fi'')"
    unfolding rest_def by (rule strip_append)
  have "path_generation (?start @ event @ tail) = Some event"
    unfolding path_generation_def strip_append option.case Let_def ev st option.map sk bind.bind_lunit re
    using assms(1) by simp
  then show ?thesis unfolding cmd hookTarget_def bare by (simp add: or_else_def)
qed

subsection \<open>What a registration leaves\<close>

definition ours :: "string \<Rightarrow> jvalue \<Rightarrow> bool" where
  "ours event h \<longleftrightarrow> isOurs h event = Inr True"

definition runs :: "string \<Rightarrow> jvalue \<Rightarrow> bool" where
  "runs c h \<longleftrightarrow> jprop h ''command'' = Inr (Some (JStr c))"

lemma jprop_Some: "jprop h k = Inr (Some v) \<longleftrightarrow> (\<exists>fs. h = JObj fs \<and> dget fs k = Some v)"
  by (cases h) auto

lemma runs_ours: "runs c h \<Longrightarrow> ours t h \<longleftrightarrow> hookTarget c = Some t"
  by (simp add: runs_def ours_def isOurs_def)

lemma runs_with_field: "jprop h ''command'' = Inr (Some v) \<Longrightarrow> runs c (with_field ''command'' (JStr c) h)"
  by (auto simp: jprop_Some runs_def)

lemma refresh_unfold:
  assumes "hookTarget c = Some t"
  shows "refresh c (h # hs) = (case jprop h ''command'' of
       Inr (Some (JStr old)) \<Rightarrow>
         if old = c then Inr (Some (h # hs))
         else if hookTarget old = Some t then Inr (Some (with_field ''command'' (JStr c) h # hs))
         else map_sum id (map_option (Cons h)) (refresh c hs)
     | _ \<Rightarrow> (case jprop h ''command'' of Inl e \<Rightarrow> Inl e | _ \<Rightarrow> Inl type_error))"
  using assms by (auto split: sum.splits option.splits jvalue.splits)

text \<open>One entry, as a registration for the event of \<open>c\<close> sees it.\<close>

lemma refresh_cases:
  assumes "hookTarget c = Some t" "refresh c (h # hs) = Inr r"
  obtains (same) "runs c h" "r = Some (h # hs)"
    | (older) old where "runs old h" "old \<noteq> c" "hookTarget old = Some t" "r = Some (with_field ''command'' (JStr c) h # hs)"
    | (foreign) old r' where "runs old h" "old \<noteq> c" "hookTarget old \<noteq> Some t" "refresh c hs = Inr r'" "r = map_option (Cons h) r'"
  using assms(2) unfolding refresh_unfold [OF assms(1)] runs_def
  by (auto split: sum.splits option.splits jvalue.splits if_splits simp: map_sum_def)

lemma refresh_found:
  assumes "hookTarget c = Some t"
  shows "refresh c hs = Inr (Some hs') \<Longrightarrow>
    filter (\<lambda>h. \<not> ours t h) hs' = filter (\<lambda>h. \<not> ours t h) hs \<and>
    length (filter (ours t) hs') = length (filter (ours t) hs) \<and> filter (ours t) hs \<noteq> [] \<and>
    (\<exists>h\<in>set hs'. runs c h) \<and> refresh c hs' = Inr (Some hs')"
proof (induction hs arbitrary: hs')
  case Nil
  then show ?case by simp
next
  case (Cons h hs)
  show ?case
  proof (rule refresh_cases [OF assms Cons.prems], goal_cases)
    case 1
    then show ?thesis using assms by (auto simp: runs_ours refresh_unfold runs_def)
  next
    case (2 old)
    have new: "runs c (with_field ''command'' (JStr c) h)" by (rule runs_with_field [OF 2(1) [unfolded runs_def]])
    have "refresh c (with_field ''command'' (JStr c) h # hs) = Inr (Some (with_field ''command'' (JStr c) h # hs))"
      using new assms by (simp add: refresh_unfold runs_def)
    then show ?thesis using 2 new assms by (simp add: runs_ours)
  next
    case (3 old r')
    then obtain hs2 where hs2: "r' = Some hs2" "hs' = h # hs2" by (cases r') auto
    have "refresh c (h # hs2) = map_sum id (map_option (Cons h)) (refresh c hs2)"
      using 3(1-3) assms by (simp add: refresh_unfold runs_def)
    then show ?thesis using Cons.IH [of hs2] 3 hs2 assms by (auto simp: runs_ours)
  qed
qed

lemma refresh_missing:
  assumes "hookTarget c = Some t" "runs c new"
  shows "refresh c hs = Inr None \<Longrightarrow>
    filter (ours t) hs = [] \<and> refresh c (hs @ [new]) = Inr (Some (hs @ [new]))"
proof (induction hs)
  case Nil
  then show ?case using assms by (simp add: refresh_unfold runs_def)
next
  case (Cons h hs)
  show ?case
  proof (rule refresh_cases [OF assms(1) Cons.prems], goal_cases)
    case (3 old r')
    have "refresh c (h # hs @ [new]) = map_sum id (map_option (Cons h)) (refresh c (hs @ [new]))"
      using 3(1-3) assms(1) by (simp add: refresh_unfold runs_def)
    then show ?thesis using Cons.IH 3 assms(1) by (auto simp: runs_ours)
  qed auto
qed

subsection \<open>The entries of an event\<close>

definition eventValue :: "jvalue \<Rightarrow> string \<Rightarrow> jvalue option" where
  "eventValue settings event = (case settings of
       JObj fs \<Rightarrow> (case dget fs ''hooks'' of Some (JObj hs) \<Rightarrow> dget hs event | _ \<Rightarrow> None)
     | _ \<Rightarrow> None)"

definition settingOf :: "jvalue \<Rightarrow> string \<Rightarrow> jvalue option" where
  "settingOf settings k = (case settings of JObj fs \<Rightarrow> dget fs k | _ \<Rightarrow> None)"

text \<open>The entries of one group, each with the other fields of its group.\<close>

definition groupEntries :: "jvalue \<Rightarrow> ((string, jvalue) dir \<times> jvalue) list" where
  "groupEntries g = (case g of
       JObj fs \<Rightarrow> (case dget fs ''hooks'' of Some (JArr hs) \<Rightarrow> map (Pair (ddel ''hooks'' fs)) hs | _ \<Rightarrow> [])
     | _ \<Rightarrow> [])"

fun entriesIn :: "shape \<Rightarrow> jvalue option \<Rightarrow> ((string, jvalue) dir \<times> jvalue) list" where
  "entriesIn ClaudeShape (Some (JArr gs)) = concat (map groupEntries gs)"
| "entriesIn CursorShape (Some (JArr hs)) = map (Pair []) hs"
| "entriesIn _ _ = []"

definition hookEntries :: "shape \<Rightarrow> jvalue \<Rightarrow> string \<Rightarrow> ((string, jvalue) dir \<times> jvalue) list" where
  "hookEntries sh settings event = entriesIn sh (eventValue settings event)"

lemma entriesIn_falsy: "falsy l \<Longrightarrow> entriesIn sh (Some l) = []"
  by (cases sh; cases l) auto

lemma hookEntries_value: "eventValue s event = v \<Longrightarrow> hookEntries sh s event = entriesIn sh v"
  by (simp add: hookEntries_def)

lemma hookEntries_none [simp]: "eventValue s event = None \<Longrightarrow> hookEntries sh s event = []"
  by (cases sh) (simp_all add: hookEntries_def)

lemma filter_Pair: "filter (\<lambda>(a, h). Q h) (map (Pair a) hs) = map (Pair a) (filter Q hs)"
  by (induction hs) auto

lemma ddel_dput [simp]: "ddel k (dput k v d) = ddel k d"
  by (induction k v d rule: dput.induct) (auto simp: ddel_def)

subsection \<open>What a removal leaves\<close>

lemma dropOurs_filter: "dropOurs event hs = Inr kept \<Longrightarrow> kept = filter (\<lambda>h. \<not> ours event h) hs"
  by (induction hs arbitrary: kept) (auto simp: ours_def map_sum_def split: sum.splits)

lemma filter_same_length: "length (filter Q xs) = length xs \<Longrightarrow> filter Q xs = xs"
  by (metis filter_id_conv length_filter_less less_irrefl)

lemma dropFromGroup_entries:
  assumes "dropFromGroup event g = Inr (removed, kept)"
  shows "concat (map groupEntries kept) = filter (\<lambda>(a, h). \<not> ours event h) (groupEntries g) \<and>
         (\<not> removed \<longrightarrow> filter (\<lambda>(a, h). \<not> ours event h) (groupEntries g) = groupEntries g)"
proof (cases "present (dget (spread g) ''hooks'')")
  case None
  then show ?thesis using assms
    by (cases g) (auto simp: dropFromGroup_def groupEntries_def present_def split: option.splits jvalue.splits if_splits)
next
  case (Some v)
  show ?thesis
  proof (cases g)
    case (JObj fs)
    then obtain hs where hs: "dget fs ''hooks'' = Some (JArr hs)"
      using assms Some by (auto simp: dropFromGroup_def present_def split: jvalue.splits if_splits)
    then obtain k where k: "dropOurs event hs = Inr k" "removed = (length k \<noteq> length hs)"
        "kept = (if k = [] then [] else [JObj (dput ''hooks'' (JArr k) fs)])"
      using assms JObj by (auto simp: dropFromGroup_def split: sum.splits cong: if_cong)
    note f = dropOurs_filter [OF k(1)]
    have "concat (map groupEntries kept) = map (Pair (ddel ''hooks'' fs)) k"
      using k(3) by (simp add: groupEntries_def)
    moreover have "groupEntries g = map (Pair (ddel ''hooks'' fs)) hs" using JObj hs by (simp add: groupEntries_def)
    ultimately show ?thesis using f k(2) filter_same_length [of "\<lambda>h. \<not> ours event h" hs] by (auto simp: filter_Pair)
  qed (use assms in \<open>auto simp: dropFromGroup_def groupEntries_def\<close>)
qed

lemma dropFromGroups_entries:
  "dropFromGroups event gs = Inr (removed, kept) \<Longrightarrow>
     concat (map groupEntries kept) = filter (\<lambda>(a, h). \<not> ours event h) (concat (map groupEntries gs)) \<and>
     (\<not> removed \<longrightarrow>
        filter (\<lambda>(a, h). \<not> ours event h) (concat (map groupEntries gs)) = concat (map groupEntries gs))"
proof (induction gs arbitrary: removed kept)
  case Nil
  then show ?case by simp
next
  case (Cons g gs)
  obtain r1 k1 where one: "dropFromGroup event g = Inr (r1, k1)"
    using Cons.prems by (auto split: sum.splits)
  obtain r2 k2 where two: "dropFromGroups event gs = Inr (r2, k2)" "removed = (r1 \<or> r2)" "kept = k1 @ k2"
    using Cons.prems one by (auto simp: map_sum_def split: sum.splits)
  note here = dropFromGroup_entries [OF one] and there = Cons.IH [OF two(1)]
  show ?case
  proof (intro conjI impI)
    show "concat (map groupEntries kept) = filter (\<lambda>(a, h). \<not> ours event h) (concat (map groupEntries (g # gs)))"
      by (simp add: two(3) conjunct1 [OF here] conjunct1 [OF there])
    assume "\<not> removed"
    then have nr: "\<not> r1" "\<not> r2" using two(2) by auto
    show "filter (\<lambda>(a, h). \<not> ours event h) (concat (map groupEntries (g # gs))) = concat (map groupEntries (g # gs))"
      by (simp only: list.map concat.simps filter_append mp [OF conjunct2 [OF here] nr(1)] mp [OF conjunct2 [OF there] nr(2)])
  qed
qed

lemma groups_of_text: "dropFromGroups event (map (\<lambda>c. JStr [c]) s) = Inr (False, [])"
  by (induction s) (simp_all add: dropFromGroup_def)

text \<open>What stays the same when the entries of one event change.\<close>

definition sameElsewhere :: "string \<Rightarrow> jvalue \<Rightarrow> jvalue \<Rightarrow> bool" where
  "sameElsewhere event s s' \<longleftrightarrow>
     (\<forall>k. k \<noteq> ''hooks'' \<longrightarrow> settingOf s' k = settingOf s k) \<and> (\<forall>e. e \<noteq> event \<longrightarrow> eventValue s' e = eventValue s e)"

lemma sameElsewhere_refl [simp]: "sameElsewhere event s s"
  by (simp add: sameElsewhere_def)

lemma eventList_Some:
  "eventList s event = Inr (Some (fs, hs, l)) \<Longrightarrow>
     s = JObj fs \<and> dget fs ''hooks'' = Some (JObj hs) \<and> dget hs event = Some l \<and> eventValue s event = Some l"
  by (auto simp: eventList_def eventValue_def split: jvalue.splits option.splits if_splits)

lemma keepList_elsewhere:
  "dget fs ''hooks'' = Some (JObj hs) \<Longrightarrow> sameElsewhere event (JObj fs) (keepList fs hs event kept)"
  by (simp add: sameElsewhere_def keepList_def settingOf_def eventValue_def)

lemma keepList_entries:
  "hookEntries sh (keepList fs hs event kept) event = entriesIn sh (Some (JArr kept))"
  by (cases sh) (simp_all add: hookEntries_def keepList_def eventValue_def)

text \<open>The list at hand is falsy, or there is none: no entries.\<close>

lemma eventList_None: "eventList s event = Inr None \<Longrightarrow> hookEntries sh s event = []"
  by (auto simp: eventList_def hookEntries_def eventValue_def entriesIn_falsy
      split: jvalue.splits option.splits if_splits)

definition removal :: "shape \<Rightarrow> string \<Rightarrow> string \<Rightarrow> jvalue \<Rightarrow> bool \<Rightarrow> jvalue \<Rightarrow> bool" where
  "removal sh event canonical s removed s' \<longleftrightarrow>
     hookEntries sh s' event = filter (\<lambda>(a, h). \<not> ours canonical h) (hookEntries sh s event) \<and>
     sameElsewhere event s s' \<and> (\<not> removed \<longrightarrow> s' = s)"

lemma removeClaude_removal:
  assumes "removeClaude s event canonical = Inr (removed, s')"
  shows "removal ClaudeShape event canonical s removed s'"
proof (cases "eventList s event")
  case (Inl e)
  then show ?thesis using assms by (simp add: removeClaude_def)
next
  case (Inr found)
  show ?thesis
  proof (cases found)
    case None
    then show ?thesis using assms Inr eventList_None [of s event] by (simp add: removeClaude_def removal_def)
  next
    case (Some t)
    then obtain fs hs l where l: "eventList s event = Inr (Some (fs, hs, l))" using Inr by (cases t) auto
    note shape = eventList_Some [OF l]
    obtain gs where gs: "iter_values l = Inr gs" using assms l by (auto simp: removeClaude_def split: sum.splits)
    obtain r kept where drop: "dropFromGroups canonical gs = Inr (r, kept)"
      using assms l gs by (auto simp: removeClaude_def split: sum.splits)
    have res: "removed = r" "s' = (if r then keepList fs hs event kept else s)"
      using assms l gs drop by (auto simp: removeClaude_def split: if_splits)
    show ?thesis
    proof (cases l)
      case (JArr vs)
      then have "hookEntries ClaudeShape s event = concat (map groupEntries gs)"
        using gs shape hookEntries_value by fastforce
      then show ?thesis using dropFromGroups_entries [OF drop] res shape keepList_elsewhere [of fs hs event kept]
        by (auto simp: removal_def keepList_entries)
    next
      case (JStr str)
      then have "\<not> r" using drop gs groups_of_text by auto
      moreover have "hookEntries ClaudeShape s event = []" using JStr shape hookEntries_value by fastforce
      ultimately show ?thesis using res by (simp add: removal_def)
    qed (use gs in auto)
  qed
qed

lemma removeCursor_removal:
  assumes "removeCursor s event canonical = Inr (removed, s')"
  shows "removal CursorShape event canonical s removed s'"
proof (cases "eventList s event")
  case (Inl e)
  then show ?thesis using assms by (simp add: removeCursor_def)
next
  case (Inr found)
  show ?thesis
  proof (cases found)
    case None
    then show ?thesis using assms Inr eventList_None [of s event] by (simp add: removeCursor_def removal_def)
  next
    case (Some t)
    obtain fs hs l where t: "t = (fs, hs, l)" by (cases t)
    obtain vs where l: "l = JArr vs" using assms Inr Some t by (cases l) (auto simp: removeCursor_def)
    have ev: "eventList s event = Inr (Some (fs, hs, JArr vs))" using Inr Some t l by simp
    note shape = eventList_Some [OF ev]
    obtain kept where drop: "dropOurs canonical vs = Inr kept" using assms ev by (auto simp: removeCursor_def split: sum.splits)
    have res: "removed = (length kept \<noteq> length vs)" "s' = (if removed then keepList fs hs event kept else s)"
      using assms ev drop by (auto simp: removeCursor_def split: if_splits)
    have "hookEntries CursorShape s event = map (Pair []) vs" using shape hookEntries_value by fastforce
    then show ?thesis
      using dropOurs_filter [OF drop] res shape keepList_elsewhere [of fs hs event kept]
        filter_same_length [of "\<lambda>h. \<not> ours canonical h" vs]
      by (auto simp: removal_def keepList_entries filter_Pair)
  qed
qed

lemma removeHook_removal:
  "removeHook sh s event canonical = Inr (removed, s') \<Longrightarrow> removal sh event canonical s removed s'"
  by (cases sh) (auto simp: removeHook_def removeClaude_removal removeCursor_removal)

subsection \<open>A run of the installation\<close>

lemma install_run:
  assumes "install H h dir pin x = (Inr results, x')"
  obtains settings changed where
    "installed h (hookFile h dir) pin (readJson H (hookFile h dir) x) = Inr (settings, results, changed)"
    "if changed then os_writeJson H (hookFile h dir) settings x = (Inr (), x') else x' = x"
    "\<forall>p. pin = Some p \<longrightarrow> PIN_TOKEN p"
proof -
  have pin: "PIN_TOKEN p" if "pin = Some p" for p
    using assms that by (auto simp: install_def andThen_ofSum validatePin_def split: if_splits)
  have ok: "(case pin of None \<Rightarrow> Inr () | Some p \<Rightarrow> validatePin p) = Inr ()"
    using pin by (cases pin) (simp_all add: validatePin_def)
  obtain settings res changed where st:
      "installed h (hookFile h dir) pin (readJson H (hookFile h dir) x) = Inr (settings, res, changed)"
    using assms by (auto simp: install_def ok andThen_ofSum andThen_reads split: sum.splits)
  have "(if changed then andThen (os_writeJson H (hookFile h dir) settings) (\<lambda>_. ret res) x else (Inr res, x)) = (Inr results, x')"
    using assms st by (auto simp: install_def ok andThen_ofSum andThen_reads ret_def split: if_splits)
  then have "res = results" "if changed then os_writeJson H (hookFile h dir) settings x = (Inr (), x') else x' = x"
    by (auto simp: ret_def elim!: andThen_okE split: if_splits)
  with st pin show thesis using that by blast
qed

text \<open>What the next run reads.\<close>

lemma install_reads_back:
  assumes "json_file_law H file" "if changed then os_writeJson H file settings x = (Inr (), x') else x' = x"
    and "\<not> changed \<Longrightarrow> settings = readJson H file x"
  shows "readJson H file x' = settings"
proof (cases changed)
  case True
  then have "os_readJson H file x' = Some (Json settings)" using assms(1,2) unfolding json_file_law_def by auto
  then show ?thesis by (simp add: readJson_def)
qed (use assms in auto)

lemma sameElsewhere_event: "sameElsewhere event s s' \<Longrightarrow> e \<noteq> event \<Longrightarrow> hookEntries sh s' e = hookEntries sh s e"
  by (simp add: sameElsewhere_def hookEntries_def)

definition fires_once :: "string \<Rightarrow> bool" where
  "fires_once event \<longleftrightarrow> event = ''SessionStart'' \<or> event = ''PostToolUse''"

text \<open>What installing leaves of the settings of a harness whose plugin ships the hook.\<close>

definition leftToPlugin :: "shape \<Rightarrow> jvalue \<Rightarrow> jvalue \<Rightarrow> bool" where
  "leftToPlugin sh s s' \<longleftrightarrow>
     (\<forall>event. fires_once event \<longrightarrow>
        hookEntries sh s' event = filter (\<lambda>(a, h). \<not> ours event h) (hookEntries sh s event)) \<and>
     (\<forall>event. \<not> fires_once event \<longrightarrow> eventValue s' event = eventValue s event) \<and>
     (\<forall>k. k \<noteq> ''hooks'' \<longrightarrow> settingOf s' k = settingOf s k)"

lemma removals_left:
  assumes "removal sh ''SessionStart'' ''SessionStart'' s r1 t" "removal sh ''PostToolUse'' ''PostToolUse'' t r2 s'"
  shows "leftToPlugin sh s s'"
proof -
  have same: "sameElsewhere ''SessionStart'' s t" "sameElsewhere ''PostToolUse'' t s'"
    using assms by (simp_all add: removal_def)
  have "hookEntries sh t ''PostToolUse'' = hookEntries sh s ''PostToolUse''"
    "hookEntries sh s' ''SessionStart'' = hookEntries sh t ''SessionStart''"
    using same sameElsewhere_event by auto
  then show ?thesis using assms same
    by (auto simp: leftToPlugin_def removal_def fires_once_def sameElsewhere_def)
qed

lemma installed_plugin:
  assumes "h \<noteq> Cursor" "installed h file pin s = Inr (s', results, changed)"
  obtains r1 r2 t where
    "removal (vs_shape (VENDORS h)) ''SessionStart'' ''SessionStart'' s r1 t"
    "removal (vs_shape (VENDORS h)) ''PostToolUse'' ''PostToolUse'' t r2 s'" "changed \<longleftrightarrow> r1 \<or> r2"
    "results = \<lparr>ir_harness = h, ir_event = ''SessionStart'', ir_vendorEvent = ''SessionStart'', ir_file = file,
        ir_status = (if r1 then RemovedProjectHook else ProvidedByPlugin)\<rparr> #
      (if r2 then [\<lparr>ir_harness = h, ir_event = ''PostToolUse'', ir_vendorEvent = ''PostToolUse'', ir_file = file,
        ir_status = RemovedProjectHook\<rparr>] else [])"
proof -
  have plugin: "vs_pluginHook (VENDORS h)" "vs_events (VENDORS h) = [(''SessionStart'', ''SessionStart'')]"
    using assms(1) by (cases h; simp)+
  obtain r1 t where one: "removeHook (vs_shape (VENDORS h)) s ''SessionStart'' ''SessionStart'' = Inr (r1, t)"
    using assms(2) plugin by (auto simp: installed_def installEvent_def Let_def split: sum.splits)
  obtain r2 u where two: "removeHook (vs_shape (VENDORS h)) t ''PostToolUse'' ''PostToolUse'' = Inr (r2, u)"
    using assms(2) plugin one
    by (auto simp: installed_def installEvent_def retireEvent_def RETIRED_EVENTS_def Let_def split: sum.splits)
  have "u = s'" "changed \<longleftrightarrow> r1 \<or> r2"
    "results = \<lparr>ir_harness = h, ir_event = ''SessionStart'', ir_vendorEvent = ''SessionStart'', ir_file = file,
        ir_status = (if r1 then RemovedProjectHook else ProvidedByPlugin)\<rparr> #
      (if r2 then [\<lparr>ir_harness = h, ir_event = ''PostToolUse'', ir_vendorEvent = ''PostToolUse'', ir_file = file,
        ir_status = RemovedProjectHook\<rparr>] else [])"
    using assms(2) plugin one two
    by (auto simp: installed_def installEvent_def retireEvent_def RETIRED_EVENTS_def Let_def split: if_splits)
  then show thesis using that removeHook_removal [OF one] removeHook_removal [OF two] by simp
qed


subsection \<open>The cursor hook\<close>

abbreviation cursorEntries :: "jvalue \<Rightarrow> jvalue list" where
  "cursorEntries s \<equiv> map snd (hookEntries CursorShape s ''sessionStart'')"

text \<open>The settings and the hooks in it are objects, or absent.\<close>

definition has_objects :: "jvalue \<Rightarrow> bool" where
  "has_objects s \<longleftrightarrow> (\<exists>fs. s = JObj fs \<and> (\<forall>vs. dget fs ''hooks'' \<noteq> Some (JArr vs)))"

lemma cursorEntries_list [simp]:
  "cursorEntries (JObj (dput ''hooks'' (JObj (dput ''sessionStart'' (JArr l) hs)) fs)) = l"
  by (simp add: hookEntries_def eventValue_def comp_def)

lemma setVersion_objects:
  assumes "has_objects s"
  obtains fs where "setVersion s = JObj fs" "\<And>vs. dget fs ''hooks'' \<noteq> Some (JArr vs)"
    "eventValue (JObj fs) event = eventValue s event"
proof -
  obtain fs where fs: "s = JObj fs" "\<forall>vs. dget fs ''hooks'' \<noteq> Some (JArr vs)"
    using assms by (auto simp: has_objects_def)
  let ?gs = "if present (dget fs ''version'') = None then dput ''version'' (JNum 1) fs else fs"
  have "setVersion s = JObj ?gs" "dget ?gs ''hooks'' = dget fs ''hooks''"
    using fs(1) by (simp_all add: setVersion_def)
  then show thesis using that [of ?gs] fs by (simp add: eventValue_def)
qed

text \<open>A list that a registration went through is an array.\<close>

lemma upsertEvent_cases:
  assumes "hookTarget c = Some t" "upsertEvent (refresh c) new v = Inr (st, v')"
  obtains (kept) l where "refresh c (map snd (entriesIn CursorShape v)) = Inr (Some l)" "st = AlreadyPresent" "v' = JArr l"
    | (added) "refresh c (map snd (entriesIn CursorShape v)) = Inr None" "st = Registered"
        "v' = JArr (map snd (entriesIn CursorShape v) @ [new])"
proof -
  define old where "old = defaultTo (present v) (JArr [])"
  have up: "upsertEvent (refresh c) new v = (case iter_values old of
           Inl e \<Rightarrow> Inl e
         | Inr hs \<Rightarrow> (case refresh c hs of
               Inl e \<Rightarrow> Inl e
             | Inr (Some hs') \<Rightarrow> Inr (AlreadyPresent, (case old of JArr vs \<Rightarrow> JArr hs' | w \<Rightarrow> w))
             | Inr None \<Rightarrow> (case old of JArr vs \<Rightarrow> Inr (Registered, JArr (vs @ [new])) | _ \<Rightarrow> Inl type_error)))"
    unfolding upsertEvent_def old_def Let_def by (rule refl)
  have "\<exists>l. old = JArr l"
  proof (cases old)
    case (JStr str)
    then show ?thesis using assms by (cases str) (auto simp: up refresh_unfold)
  qed (use assms(2) in \<open>auto simp: up\<close>)
  then obtain l where l: "old = JArr l" ..
  have es: "map snd (entriesIn CursorShape v) = l"
    using l by (cases v; cases "the v") (auto simp: old_def defaultTo_def present_def comp_def split: if_splits)
  obtain r where r: "refresh c l = Inr r" using assms(2) l by (cases "refresh c l") (auto simp: up)
  show thesis
    using assms(2) that unfolding es up l by (cases r) (simp_all add: r)
qed

lemma cursor_searched:
  assumes "has_objects s" "hookTarget c = Some t" "upsertCursor s ''sessionStart'' c = Inr (st, s')"
  obtains (kept) l where "refresh c (cursorEntries s) = Inr (Some l)" "st = AlreadyPresent" "cursorEntries s' = l"
    | (added) "refresh c (cursorEntries s) = Inr None" "st = Registered"
        "cursorEntries s' = cursorEntries s @ [JObj [(''command'', JStr c)]]"
proof -
  obtain fs where fs: "setVersion s = JObj fs" "\<And>vs. dget fs ''hooks'' \<noteq> Some (JArr vs)"
      "eventValue (JObj fs) ''sessionStart'' = eventValue s ''sessionStart''"
    using setVersion_objects [OF assms(1)] by blast
  obtain hs where hs: "defaultTo (present (dget fs ''hooks'')) (JObj []) = JObj hs"
    using assms(3) fs
    by (cases "dget fs ''hooks''")
      (auto simp: upsertCursor_def upsertHooks_def defaultTo_def present_def split: jvalue.splits if_splits)
  obtain v where v: "upsertEvent (refresh c) (JObj [(''command'', JStr c)]) (dget hs ''sessionStart'') = Inr (st, v)"
      "s' = JObj (dput ''hooks'' (JObj (dput ''sessionStart'' v hs)) fs)"
    using assms(3) fs(1) hs by (auto simp: upsertCursor_def upsertHooks_def map_sum_def split: sum.splits)
  have "eventValue (JObj fs) ''sessionStart'' = dget hs ''sessionStart''"
    using hs by (auto simp: eventValue_def defaultTo_def present_def split: option.splits jvalue.splits if_splits)
  then have es: "cursorEntries s = map snd (entriesIn CursorShape (dget hs ''sessionStart''))"
    by (simp add: hookEntries_def fs(3))
  show thesis
    by (rule upsertEvent_cases [OF assms(2) v(1)]) (use that v(2) es in auto)
qed

lemma upsertHooks_shape:
  assumes "upsertHooks put event s = Inr (st, s')"
  shows "s' = s \<or> (\<exists>fs hs v. s = JObj fs \<and> defaultTo (present (dget fs ''hooks'')) (JObj []) = JObj hs \<and>
                     s' = JObj (dput ''hooks'' (JObj (dput event v hs)) fs))"
proof (cases s)
  case (JObj fs)
  then show ?thesis using assms
    by (cases "defaultTo (present (dget fs ''hooks'')) (JObj [])") (auto simp: upsertHooks_def map_sum_def split: sum.splits)
qed (use assms in \<open>auto simp: upsertHooks_def map_sum_def split: sum.splits\<close>)

lemma hooks_default:
  assumes "defaultTo (present (dget fs ''hooks'')) (JObj []) = JObj hs" "e \<noteq> event"
  shows "eventValue (JObj (dput ''hooks'' (JObj (dput event v hs)) fs)) e = eventValue (JObj fs) e"
  using assms by (cases "dget fs ''hooks''") (auto simp: eventValue_def defaultTo_def present_def dget_Cons split: if_splits)

lemma setVersion_frame:
  "k \<noteq> ''version'' \<Longrightarrow> settingOf (setVersion s) k = settingOf s k"
  "eventValue (setVersion s) e = eventValue s e"
  "has_objects s \<Longrightarrow> has_objects (setVersion s)"
  by (cases s; simp add: setVersion_def settingOf_def eventValue_def has_objects_def)+

lemma cursor_frame:
  assumes "upsertCursor s event c = Inr (st, s')"
  shows "k \<noteq> ''hooks'' \<Longrightarrow> k \<noteq> ''version'' \<Longrightarrow> settingOf s' k = settingOf s k"
    and "e \<noteq> event \<Longrightarrow> eventValue s' e = eventValue s e"
    and "has_objects s \<Longrightarrow> has_objects s'"
proof -
  have u: "upsertHooks (upsertEvent (refresh c) (JObj [(''command'', JStr c)])) event (setVersion s) = Inr (st, s')"
    using assms by (simp add: upsertCursor_def)
  show "settingOf s' k = settingOf s k" if "k \<noteq> ''hooks''" "k \<noteq> ''version''"
    using upsertHooks_shape [OF u] setVersion_frame(1) [of k s] that by (auto simp: settingOf_def)
  show "eventValue s' e = eventValue s e" if "e \<noteq> event"
    using upsertHooks_shape [OF u] setVersion_frame(2) [of s e] that hooks_default by metis
  show "has_objects s'" if "has_objects s"
    using upsertHooks_shape [OF u] setVersion_frame(3) [OF that] by (auto simp: has_objects_def)
qed

text \<open>A registration that is done stays done.\<close>

lemma ours_after_search:
  assumes "hookTarget c = Some t" "refresh c hs = Inr r"
    and "hs' = (case r of None \<Rightarrow> hs @ [JObj [(''command'', JStr c)]] | Some l \<Rightarrow> l)"
  shows "filter (\<lambda>h. \<not> ours t h) hs' = filter (\<lambda>h. \<not> ours t h) hs \<and>
    length (filter (ours t) hs') = max 1 (length (filter (ours t) hs)) \<and>
    (\<exists>h\<in>set hs'. runs c h) \<and> refresh c hs' = Inr (Some hs')"
proof (cases r)
  case None
  have new: "runs c (JObj [(''command'', JStr c)])" by (simp add: runs_def dget_Cons)
  have "ours t (JObj [(''command'', JStr c)])" using new assms(1) by (simp add: runs_ours)
  then show ?thesis using refresh_missing [OF assms(1) new] assms(2,3) None new by auto
next
  case (Some l)
  then have l: "hs' = l" "refresh c hs = Inr (Some l)" using assms(2,3) by auto
  have "filter (ours t) hs \<noteq> []" using refresh_found [OF assms(1) l(2)] by blast
  then have "1 \<le> length (filter (ours t) hs)" by (cases "filter (ours t) hs") auto
  then show ?thesis using refresh_found [OF assms(1) l(2)] l(1) by simp
qed

definition hookRegistered :: "string \<Rightarrow> jvalue \<Rightarrow> jvalue \<Rightarrow> bool" where
  "hookRegistered c s s' \<longleftrightarrow>
     (\<exists>h\<in>set (cursorEntries s'). runs c h) \<and>
     filter (\<lambda>h. \<not> ours ''SessionStart'' h) (cursorEntries s') = filter (\<lambda>h. \<not> ours ''SessionStart'' h) (cursorEntries s) \<and>
     length (filter (ours ''SessionStart'') (cursorEntries s')) = max 1 (length (filter (ours ''SessionStart'') (cursorEntries s))) \<and>
     (\<forall>e. e \<noteq> ''sessionStart'' \<longrightarrow> eventValue s' e = eventValue s e) \<and>
     (\<forall>k. k \<noteq> ''hooks'' \<and> k \<noteq> ''version'' \<longrightarrow> settingOf s' k = settingOf s k)"

lemma cursor_target:
  assumes "\<And>p. pin = Some p \<Longrightarrow> PIN_TOKEN p"
  shows "hookTarget (hookCommand ''SessionStart'' pin) = Some ''SessionStart''"
proof (rule hookTarget_hookCommand)
  show "list_all word_char ''SessionStart''" by code_simp
qed (use assms in auto)

lemma upsertCursor_registered:
  assumes "hookTarget c = Some ''SessionStart''" "has_objects s" "upsertCursor s ''sessionStart'' c = Inr (st, s')"
  shows "hookRegistered c s s' \<and> refresh c (cursorEntries s') = Inr (Some (cursorEntries s'))"
proof -
  have "\<exists>r. refresh c (cursorEntries s) = Inr r \<and>
      cursorEntries s' = (case r of None \<Rightarrow> cursorEntries s @ [JObj [(''command'', JStr c)]] | Some l \<Rightarrow> l)"
    by (rule cursor_searched [OF assms(2,1,3)]) auto
  then obtain r where r: "refresh c (cursorEntries s) = Inr r"
      "cursorEntries s' = (case r of None \<Rightarrow> cursorEntries s @ [JObj [(''command'', JStr c)]] | Some l \<Rightarrow> l)"
    by blast
  show ?thesis
    using ours_after_search [OF assms(1) r] cursor_frame(1,2) [OF assms(3)] unfolding hookRegistered_def by blast
qed

lemma installed_cursor:
  "installed Cursor file pin s = Inr (s', results, changed) \<longleftrightarrow>
     (\<exists>st. upsertCursor s ''sessionStart'' (hookCommand ''SessionStart'' pin) = Inr (st, s') \<and> changed \<and>
        results = [\<lparr>ir_harness = Cursor, ir_event = ''SessionStart'', ir_vendorEvent = ''sessionStart'', ir_file = file, ir_status = st\<rparr>])"
  by (auto simp: installed_def installEvent_def upsertHook_def split: sum.splits)

text \<open>
  For cursor, whose plugin carries no hook, a successful installation leaves the surfacing hook in
  the project settings: an entry runs the command just composed (with the pin given), every entry the
  program does not recognise as its own is kept in its order, an older entry of its own is brought up
  to date rather than doubled (there are as many own entries as before, or one when there was none),
  and every other event and every other setting but the format version reads as before. Installing
  again succeeds and reports the hook already present.
\<close>

lemma cursor_hook_registered:
  assumes "json_file_law H (hookFile Cursor dir)" "has_objects (readJson H (hookFile Cursor dir) x)"
    and "install H Cursor dir pin x = (Inr results, x')"
  shows "hookRegistered (hookCommand ''SessionStart'' pin) (readJson H (hookFile Cursor dir) x) (readJson H (hookFile Cursor dir) x') \<and>
    (\<forall>results' x''. install H Cursor dir pin x' = (Inr results', x'') \<longrightarrow>
       map ir_status results' = [AlreadyPresent] \<and>
       cursorEntries (readJson H (hookFile Cursor dir) x'') = cursorEntries (readJson H (hookFile Cursor dir) x'))"
proof -
  let ?file = "hookFile Cursor dir" and ?c = "hookCommand ''SessionStart'' pin"
  have run: "\<exists>st s'. upsertCursor (readJson H ?file y) ''sessionStart'' ?c = Inr (st, s') \<and> map ir_status res = [st] \<and>
      readJson H ?file y' = s'" if ran: "install H Cursor dir pin y = (Inr res, y')" for y y' res
  proof -
    obtain s changed where s: "installed Cursor ?file pin (readJson H ?file y) = Inr (s, res, changed)"
        "if changed then os_writeJson H ?file s y = (Inr (), y') else y' = y"
        "\<forall>p. pin = Some p \<longrightarrow> PIN_TOKEN p"
      by (rule install_run [OF ran])
    obtain st where st: "upsertCursor (readJson H ?file y) ''sessionStart'' ?c = Inr (st, s)" "changed"
        "res = [\<lparr>ir_harness = Cursor, ir_event = ''SessionStart'', ir_vendorEvent = ''sessionStart'', ir_file = ?file, ir_status = st\<rparr>]"
      using s(1) by (auto simp: installed_cursor)
    have "readJson H ?file y' = s" by (rule install_reads_back [OF assms(1) s(2)]) (use st in auto)
    then show ?thesis using st by auto
  qed
  have target: "hookTarget ?c = Some ''SessionStart''"
    by (rule install_run [OF assms(3)], rule cursor_target) blast
  obtain st where up: "upsertCursor (readJson H ?file x) ''sessionStart'' ?c = Inr (st, readJson H ?file x')"
    using run [OF assms(3)] by auto
  note one = upsertCursor_registered [OF target assms(2) up]
  have obj: "has_objects (readJson H ?file x')" by (rule cursor_frame(3) [OF up assms(2)])
  have "map ir_status res = [AlreadyPresent] \<and> cursorEntries (readJson H ?file y) = cursorEntries (readJson H ?file x')"
    if ran: "install H Cursor dir pin x' = (Inr res, y)" for res y
  proof -
    obtain st2 where up2: "upsertCursor (readJson H ?file x') ''sessionStart'' ?c = Inr (st2, readJson H ?file y)"
        "map ir_status res = [st2]"
      using run [OF ran] by auto
    show ?thesis by (rule cursor_searched [OF obj target up2(1)]) (use one up2(2) in auto)
  qed
  with one show ?thesis by blast
qed

subsection \<open>Concrete files\<close>

definition own_hook :: jvalue where
  "own_hook = JObj [(''type'', JStr ''command''), (''command'', JStr ''npx cyberlegion@0.2.0 mail hook --event SessionStart'')]"

definition foreign_hook :: jvalue where
  "foreign_hook = JObj [(''type'', JStr ''command''), (''command'', JStr ''my-wrapper && cyberlegion mail hook --event SessionStart'')]"

definition claude_file :: jvalue where
  "claude_file = JObj [(''hooks'', JObj [(''SessionStart'', JArr
     [JObj [(''hooks'', JArr [own_hook])], JObj [(''matcher'', JStr ''*''), (''hooks'', JArr [foreign_hook])]])]),
     (''model'', JStr ''opus'')]"

lemma own_target: "hookTarget ''npx cyberlegion@0.2.0 mail hook --event SessionStart'' = Some ''SessionStart''"
  by code_simp

lemma foreign_target: "hookTarget ''my-wrapper && cyberlegion mail hook --event SessionStart'' = None"
  by code_simp

lemma install_changed:
  assumes "case pin of None \<Rightarrow> True | Some p \<Rightarrow> PIN_TOKEN p"
    and "installed h (hookFile h dir) pin (readJson H (hookFile h dir) x) = Inr (settings, results, True)"
    and "os_writeJson H (hookFile h dir) settings x = (Inr (), x')"
  shows "install H h dir pin x = (Inr results, x')"
proof -
  have "(case pin of None \<Rightarrow> Inr () | Some p \<Rightarrow> validatePin p) = Inr ()"
    using assms(1) by (cases pin) (simp_all add: validatePin_def)
  then show ?thesis using assms(2,3)
    by (simp add: install_def andThen_ofSum andThen_reads andThen_Inr ret_def)
qed

lemma file_host_read [simp]: "readJson file_host p (Some (Json v)) = v"
  by (simp add: readJson_def file_host_def)

lemma file_host_write [simp]: "os_writeJson file_host p v x = (Inr (), Some (Json v))"
  by (simp add: file_host_def)

lemma demo_claude_install:
  "install file_host Claude ''/p'' None (Some (Json claude_file)) =
     (Inr [\<lparr>ir_harness = Claude, ir_event = ''SessionStart'', ir_vendorEvent = ''SessionStart'',
            ir_file = hookFile Claude ''/p'', ir_status = RemovedProjectHook\<rparr>],
      Some (Json (JObj [(''hooks'', JObj [(''SessionStart'', JArr
        [JObj [(''matcher'', JStr ''*''), (''hooks'', JArr [foreign_hook])]])]), (''model'', JStr ''opus'')])))"
  by (rule install_changed)
    (simp_all add: claude_file_def installed_def installEvent_def retireEvent_def RETIRED_EVENTS_def removeHook_def
      removeClaude_def eventList_def dget_Cons dropFromGroup_def isOurs_def own_hook_def foreign_hook_def own_target
      foreign_target keepList_def Let_def)


lemma demo_cursor_install:
  "install file_host Cursor ''/p'' (Some ''0.3.0'') (Some (Json (JObj [(''hooks'', JObj [(''sessionStart'', JArr [own_hook])])]))) =
     (Inr [\<lparr>ir_harness = Cursor, ir_event = ''SessionStart'', ir_vendorEvent = ''sessionStart'',
            ir_file = hookFile Cursor ''/p'', ir_status = AlreadyPresent\<rparr>],
      Some (Json (JObj [(''hooks'', JObj [(''sessionStart'', JArr
        [JObj [(''type'', JStr ''command''), (''command'', JStr (hookCommand ''SessionStart'' (Some ''0.3.0'')))]])]),
        (''version'', JNum 1)])))"
proof -
  have pin: "PIN_TOKEN ''0.3.0''" by code_simp
  have target: "hookTarget (hookCommand ''SessionStart'' (Some ''0.3.0'')) = Some ''SessionStart''"
    by (rule cursor_target) (use pin in auto)
  have new: "hookCommand ''SessionStart'' (Some ''0.3.0'') \<noteq> ''npx cyberlegion@0.2.0 mail hook --event SessionStart''"
    by (simp add: hookCommand_def)
  show ?thesis
    using new new [symmetric]
    by (intro install_changed) (simp_all add: pin installed_def installEvent_def upsertHook_def upsertCursor_def setVersion_def upsertHooks_def upsertEvent_def
        defaultTo_def dget_Cons own_hook_def target own_target Let_def)
qed

lemma cursor_hook_registered_witness:
  "hookRegistered (hookCommand ''SessionStart'' (Some ''0.3.0''))
     (JObj [(''hooks'', JObj [(''sessionStart'', JArr [own_hook])])])
     (readJson file_host (hookFile Cursor ''/p'') (snd (install file_host Cursor ''/p'' (Some ''0.3.0'')
        (Some (Json (JObj [(''hooks'', JObj [(''sessionStart'', JArr [own_hook])])]))))))"
proof -
  have obj: "has_objects (readJson file_host p (Some (Json (JObj [(''hooks'', JObj [(''sessionStart'', JArr [own_hook])])]))))" for p
    by (simp add: has_objects_def dget_Cons)
  show ?thesis
    using cursor_hook_registered [OF file_host_law obj demo_cursor_install]
    by (simp add: demo_cursor_install)
qed

end
