(* ===== verification/CliOutput.thy ===== *)
theory CliOutput
  imports Types
begin

text \<open>
  \<open>output.ts\<close>: what a command prints. A value in a field is its text, \<open>None\<close> when it is \<open>null\<close> or
  \<open>undefined\<close>. A printed document is a text, or the JSON of a value.
\<close>

subsection \<open>Rendering\<close>

datatype format = FToon | FJson

definition comma :: char where
  "comma = CHR '',''"

definition dq :: char where
  "dq = CHR 0x22"

definition newline :: char where
  "newline = CHR 0x0A"

text \<open>Every quote of a quoted cell is doubled.\<close>

fun double_quotes :: "string \<Rightarrow> string" where
  "double_quotes [] = []"
| "double_quotes (c # s) = (if c = dq then dq # dq # double_quotes s else c # double_quotes s)"

definition needs_quotes :: "string \<Rightarrow> bool" where
  "needs_quotes s \<longleftrightarrow> comma \<in> set s \<or> newline \<in> set s \<or> dq \<in> set s"

definition stringifyCell :: "string option \<Rightarrow> string" where
  "stringifyCell v = (case v of
       None \<Rightarrow> []
     | Some s \<Rightarrow> if needs_quotes s then dq # double_quotes s @ [dq] else s)"

definition toonObject :: "(string \<times> string option) list \<Rightarrow> string" where
  "toonObject fs =
     join_with nl (concat (map (\<lambda>(k, v). case v of None \<Rightarrow> [] | Some s \<Rightarrow> [k @ '': '' @ s]) fs))"

definition toonHeader :: "string \<Rightarrow> nat \<Rightarrow> string list \<Rightarrow> string" where
  "toonHeader name n keys = name @ ''['' @ nat_str n @ '']{'' @ join_with [comma] keys @ ''}:''"

definition toonRow :: "(string \<times> ('a \<Rightarrow> string option)) list \<Rightarrow> 'a \<Rightarrow> string" where
  "toonRow fs item = join_with [comma] (map (\<lambda>f. stringifyCell (snd f item)) fs)"

definition toonList :: "string \<Rightarrow> 'a list \<Rightarrow> (string \<times> ('a \<Rightarrow> string option)) list \<Rightarrow> string \<Rightarrow> string" where
  "toonList name items fs summary =
     join_with nl (toonHeader name (length items) (map fst fs) # map (\<lambda>r. ''  '' @ r) (map (toonRow fs) items) @ [summary])"

datatype 'j printed = Plain string | JsonDoc 'j

record 'j emit_payload =
  ep_toon :: string
  ep_json :: 'j

text \<open>What goes to standard output.\<close>

definition emit :: "format \<Rightarrow> 'j emit_payload \<Rightarrow> 'j printed" where
  "emit f p = (case f of FJson \<Rightarrow> JsonDoc (ep_json p) | FToon \<Rightarrow> Plain (ep_toon p))"

subsection \<open>A reader of lists\<close>

text \<open>
  Rows as a reader of comma-separated text takes them: a cell that opens with a quote runs to the next
  quote that is not doubled, any other to the next comma or the end of the line.
\<close>

fun read_quoted :: "string \<Rightarrow> string \<times> string" where
  "read_quoted [] = ([], [])"
| "read_quoted (c # s) =
     (if c = dq
      then (case s of
          d # t \<Rightarrow> if d = dq then (let (cell, rest) = read_quoted t in (dq # cell, rest)) else ([], s)
        | [] \<Rightarrow> ([], s))
      else (let (cell, rest) = read_quoted s in (c # cell, rest)))"

definition plain_char :: "char \<Rightarrow> bool" where
  "plain_char c \<longleftrightarrow> c \<noteq> comma \<and> c \<noteq> newline"

definition read_cell :: "string \<Rightarrow> string \<times> string" where
  "read_cell s = (case s of
       [] \<Rightarrow> ([], [])
     | c # t \<Rightarrow> if c = dq then read_quoted t else (takeWhile plain_char s, dropWhile plain_char s))"

lemma read_quoted_shorter: "length (snd (read_quoted s)) \<le> length s"
proof (induction s rule: read_quoted.induct)
  case (2 c s)
  show ?case
  proof (cases "c = dq")
    case True
    show ?thesis
    proof (cases s)
      case (Cons d t)
      then show ?thesis using True 2(1) [OF True Cons] by (cases "read_quoted t") auto
    qed (simp add: True)
  next
    case False
    then show ?thesis using 2(2) [OF False] by (cases "read_quoted s") simp
  qed
qed simp

lemma read_cell_shorter: "length (snd (read_cell s)) \<le> length s"
proof (cases s)
  case (Cons c t)
  have "length (dropWhile plain_char (c # t)) \<le> length (c # t)" by (rule length_dropWhile_le)
  then show ?thesis using Cons read_quoted_shorter [of t] by (simp add: read_cell_def)
qed (simp add: read_cell_def)

text \<open>A row, and what follows its line.\<close>

function read_row :: "string \<Rightarrow> string list \<times> string" where
  "read_row s =
     (case read_cell s of
        (cell, []) \<Rightarrow> ([cell], [])
      | (cell, c # rest) \<Rightarrow>
          if c = comma then (let (cells, after) = read_row rest in (cell # cells, after)) else ([cell], rest))"
  by auto

termination
proof (relation "measure length")
  fix s cell c rest x
  assume "(cell, x) = read_cell s" "x = c # rest"
  then have "length (c # rest) \<le> length s" using read_cell_shorter [of s] by (metis snd_conv)
  then show "(rest, s) \<in> measure length" by simp
qed simp

declare read_row.simps [simp del]

fun read_rows :: "nat \<Rightarrow> string \<Rightarrow> string list list \<times> string" where
  "read_rows 0 s = ([], s)"
| "read_rows (Suc n) s = (let (row, rest) = read_row (drop 2 s); (rows, after) = read_rows n rest in (row # rows, after))"

subsection \<open>What is printed reads back\<close>

lemma read_quoted_cell: "read_quoted (double_quotes s @ dq # t) = (s, t)"
  if "t = [] \<or> hd t \<noteq> dq" for t
  using that by (induction s) (auto split: list.splits)

text \<open>A cell ends at the end of the text, at a comma or at the end of the line.\<close>

definition cell_end :: "string \<Rightarrow> bool" where
  "cell_end t \<longleftrightarrow> t = [] \<or> hd t = comma \<or> hd t = newline"

lemma takeWhile_plain: "\<not> needs_quotes s \<Longrightarrow> cell_end t \<Longrightarrow> takeWhile plain_char (s @ t) = s \<and> dropWhile plain_char (s @ t) = t"
  by (cases t) (auto simp: takeWhile_append dropWhile_append plain_char_def needs_quotes_def cell_end_def)

lemma read_cell_back: "cell_end t \<Longrightarrow> read_cell (stringifyCell v @ t) = (defaultTo v [], t)"
proof (cases "v = None \<or> v = Some []")
  case True
  assume "cell_end t"
  moreover have "stringifyCell v = []" using True by (auto simp: stringifyCell_def needs_quotes_def)
  ultimately show ?thesis using True
    by (cases t) (auto simp: read_cell_def cell_end_def defaultTo_def plain_char_def dq_def comma_def newline_def)
next
  case False
  assume t: "cell_end t"
  obtain c s where v: "v = Some (c # s)" using False by (metis list.exhaust option.exhaust)
  show ?thesis
  proof (cases "needs_quotes (c # s)")
    case True
    have "t = [] \<or> hd t \<noteq> dq" using t by (auto simp: cell_end_def dq_def comma_def newline_def)
    from read_quoted_cell [OF this, of "c # s"] show ?thesis
      using True v by (simp add: stringifyCell_def read_cell_def defaultTo_def del: double_quotes.simps)
  next
    case False
    then have "c \<noteq> dq" by (auto simp: needs_quotes_def)
    then show ?thesis using v False takeWhile_plain [OF False t] by (simp add: stringifyCell_def read_cell_def defaultTo_def)
  qed
qed

lemma read_row_back:
  "vs \<noteq> [] \<Longrightarrow> t = [] \<or> hd t = newline \<Longrightarrow>
     read_row (join_with [comma] (map stringifyCell vs) @ t) = (map (\<lambda>v. defaultTo v []) vs, tl t)"
proof (induction vs)
  case Nil
  then show ?case by simp
next
  case (Cons v vs)
  show ?case
  proof (cases "vs = []")
    case True
    have "cell_end t" using Cons.prems by (auto simp: cell_end_def)
    then show ?thesis using True Cons.prems
      by (cases t) (auto simp: read_row.simps [of "stringifyCell v @ t" for t] read_row.simps [of "stringifyCell v"]
          read_cell_back read_cell_back [of "[]", simplified] cell_end_def comma_def newline_def)
  next
    case False
    let ?rest = "join_with [comma] (map stringifyCell vs) @ t"
    have "join_with [comma] (map stringifyCell (v # vs)) @ t = stringifyCell v @ comma # ?rest"
      using False by (simp add: join_with_Cons)
    moreover have "read_cell (stringifyCell v @ comma # ?rest) = (defaultTo v [], comma # ?rest)"
      by (rule read_cell_back) (simp add: cell_end_def)
    ultimately show ?thesis using Cons.IH [OF False Cons.prems(2)]
      by (simp add: read_row.simps [of "stringifyCell v @ comma # ?rest"])
  qed
qed

lemma toonRow_back:
  "fs \<noteq> [] \<Longrightarrow> read_row (toonRow fs item @ newline # t) = (map (\<lambda>f. defaultTo (snd f item) []) fs, t)"
  using read_row_back [of "map (\<lambda>f. snd f item) fs" "newline # t"] by (simp add: toonRow_def comp_def)

lemma read_rows_back:
  "fs \<noteq> [] \<Longrightarrow>
     read_rows (length items) (join_with nl (map (\<lambda>r. ''  '' @ r) (map (toonRow fs) items) @ [summary])) =
       (map (\<lambda>item. map (\<lambda>f. defaultTo (snd f item) []) fs) items, summary)"
proof (induction items)
  case Nil
  then show ?case by simp
next
  case (Cons item items)
  let ?rest = "join_with nl (map (\<lambda>r. ''  '' @ r) (map (toonRow fs) items) @ [summary])"
  have "join_with nl (map (\<lambda>r. ''  '' @ r) (map (toonRow fs) (item # items)) @ [summary]) =
      ''  '' @ toonRow fs item @ newline # ?rest"
    by (simp add: join_with_Cons nl_def newline_def)
  then show ?case using Cons.IH [OF Cons.prems] toonRow_back [OF Cons.prems, of item ?rest] by simp
qed

text \<open>
  C33. A printed list can be read back: behind its header, a reader of comma-separated rows gets for
  every item, in order, the text of each of its fields (a missing value as the empty text), and then the
  summary, whatever the texts hold: commas, quotes and line breaks included.
\<close>

theorem toon_list_reads_back:
  assumes "fs \<noteq> []"
  shows "read_rows (length items) (drop (length (toonHeader name (length items) (map fst fs)) + 1) (toonList name items fs summary)) =
    (map (\<lambda>item. map (\<lambda>f. defaultTo (snd f item) []) fs) items, summary)"
proof -
  have "toonList name items fs summary = toonHeader name (length items) (map fst fs) @ newline #
      join_with nl (map (\<lambda>r. ''  '' @ r) (map (toonRow fs) items) @ [summary])"
    by (simp add: toonList_def join_with_Cons nl_def newline_def)
  then show ?thesis using read_rows_back [OF assms, of items summary] by simp
qed

theorem toon_list_reads_back_witness:
  "read_rows 2 (drop (length (toonHeader ''messages'' 2 [''id'', ''subject'']) + 1)
     (toonList ''messages'' [(''m1'', Some ''a,b''), (''m2'', None)] [(''id'', \<lambda>m. Some (fst m)), (''subject'', snd)] ''2 messages'')) =
   ([[''m1'', ''a,b''], [''m2'', '''']], ''2 messages'')"
  using toon_list_reads_back [where fs = "[(''id'', \<lambda>m. Some (fst m)), (''subject'', snd)]" and name = "''messages''"
      and items = "[(''m1'', Some ''a,b''), (''m2'', None)]" and summary = "''2 messages''"]
  by (simp add: defaultTo_def numeral_2_eq_2 del: read_rows.simps)

end
