(* ===== verification/CursorModels.thy ===== *)
theory CursorModels
  imports Identity
begin

text \<open>
  \<open>cursor-models.ts\<close>: the model ids that \<open>cursor-agent models\<close> prints. The output is a text of UTF-16
  units; \<open>stripVTControlCharacters\<close> of \<open>node:util\<close> is a parameter.
\<close>

text \<open>A list bullet: a dash, an asterisk or U+2022, and the space behind it.\<close>

definition dropBullet :: "ustr \<Rightarrow> ustr" where
  "dropBullet line = (case line of
       c # d # rest \<Rightarrow> if c \<in> {45, 42, 8226} \<and> uspace d then dropWhile uspace rest else line
     | _ \<Rightarrow> line)"

definition modelId :: "ustr \<Rightarrow> ustr" where
  "modelId line = takeWhile (\<lambda>c. \<not> uspace c) (dropBullet (utrim line))"

definition parseCursorModels :: "(ustr \<Rightarrow> ustr) \<Rightarrow> ustr \<Rightarrow> ustr list" where
  "parseCursorModels stripVT text = filter (\<lambda>i. i \<noteq> []) (map modelId (urows (stripVT text)))"

text \<open>The ids as the texts the launch builder compares; a failed probe lists none.\<close>

definition listCursorModels :: "'x host \<Rightarrow> (ustr \<Rightarrow> ustr) \<Rightarrow> ('x, string list) op" where
  "listCursorModels H stripVT =
     andThen (exec H ''cursor-agent'' [''models'']) (\<lambda>out.
     ret (case out of None \<Rightarrow> [] | Some text \<Rightarrow> map (map char_of) (parseCursorModels stripVT (ustr_of text))))"

lemma listCursorModels_run:
  "listCursorModels H stripVT w = (case os_exec H ''cursor-agent'' [''models''] (ext w) of (out, x) \<Rightarrow>
     (Inr (case out of None \<Rightarrow> [] | Some text \<Rightarrow> map (map char_of) (parseCursorModels stripVT (ustr_of text))),
      w\<lparr>ext := x\<rparr>))"
  by (simp add: listCursorModels_def andThen_def exec_run ret_def split: prod.splits)

lemma wf_listCursorModels [pres]: "preserves (\<lambda>w. P (hub w)) (listCursorModels H stripVT)"
  by (simp add: preserves_def listCursorModels_run split: prod.splits)

text \<open>An id is a word: it is not empty and holds no space.\<close>

lemma modelId_word: "c \<in> set (modelId line) \<Longrightarrow> \<not> uspace c"
  by (auto simp: modelId_def dest: set_takeWhileD)

lemma parseCursorModels_words:
  "i \<in> set (parseCursorModels stripVT text) \<Longrightarrow> i \<noteq> [] \<and> (\<forall>c\<in>set i. \<not> uspace c)"
  by (auto simp: parseCursorModels_def dest: modelId_word)

lemma utrim_word:
  assumes "i \<noteq> []" "\<forall>c\<in>set i. \<not> uspace c" "rest = [] \<or> uspace (hd rest)"
  shows "takeWhile (\<lambda>c. \<not> uspace c) (i @ rest) = i"
  using assms by (cases rest) (auto simp: takeWhile_append)

end
