(* ===== verification/MetaphorFree.thy ===== *)
theory MetaphorFree
  imports JsText
begin

text \<open>
  \<open>metaphor-free.ts\<close>, \<open>check-metaphor-free.ts\<close>: the scan of the repository for terms the command line
  must not use. The files are a tree; directories list their entries in order.
\<close>

subsection \<open>Terms\<close>

datatype banned_term = Bunker | Council | Operator | Pod

fun term_text :: "banned_term \<Rightarrow> string" where
  "term_text Bunker = ''Bunker''"
| "term_text Council = ''Council''"
| "term_text Operator = ''Operator''"
| "term_text Pod = ''Pod''"

definition BANNED_TERMS :: "banned_term list" where
  "BANNED_TERMS = [Bunker, Council, Operator, Pod]"

text \<open>
  The pattern of a term at a place: no capital letter before it, and no small letter behind it or behind
  its plural. The result is the length of the match.
\<close>

definition no_lower :: "string \<Rightarrow> bool" where
  "no_lower s \<longleftrightarrow> (case s of [] \<Rightarrow> True | c # r \<Rightarrow> \<not> is_lower c)"

definition term_at :: "banned_term \<Rightarrow> char option \<Rightarrow> string \<Rightarrow> nat option" where
  "term_at t before s =
     (let k = length (term_text t); behind = drop k s
      in if starts_with s (term_text t) \<and> (case before of None \<Rightarrow> True | Some c \<Rightarrow> \<not> is_upper c)
         then (case behind of
             [] \<Rightarrow> Some k
           | c # r \<Rightarrow> if c = CHR ''s'' \<and> no_lower r then Some (k + 1) else if is_lower c then None else Some k)
         else None)"

text \<open>
  \<open>RegExp.exec\<close> in a loop: the search goes on behind the last match. \<open>i\<close> is the place, \<open>skip\<close> what is
  left of the last match.
\<close>

fun scan_term :: "banned_term \<Rightarrow> nat \<Rightarrow> nat \<Rightarrow> char option \<Rightarrow> string \<Rightarrow> nat list" where
  "scan_term t i skip before [] = []"
| "scan_term t i (Suc skip) before (c # s) = scan_term t (i + 1) skip (Some c) s"
| "scan_term t i 0 before (c # s) = (case term_at t before (c # s) of
       None \<Rightarrow> scan_term t (i + 1) 0 (Some c) s
     | Some k \<Rightarrow> i # scan_term t (i + 1) (k - 1) (Some c) s)"

definition matchBannedTerms :: "string \<Rightarrow> banned_term list \<Rightarrow> (banned_term \<times> nat) list" where
  "matchBannedTerms line terms = concat (map (\<lambda>t. map (Pair t) (scan_term t 0 0 None line)) terms)"

subsection \<open>The scan\<close>

record allow_entry =
  al_file :: string
  al_term :: banned_term
  al_contains :: string

definition unit_spec :: string where
  "unit_spec = ''packages/cyberlegion/.agents/spec/unit/lifecycle/''"

definition tick :: char where
  "tick = CHR 0x60"

definition ALLOW_LIST :: "allow_entry list" where
  "ALLOW_LIST =
     [\<lparr>al_file = unit_spec @ ''README.md'', al_term = Operator,
       al_contains = ''cyberfleet'' @ [tick, CHR 0x27] @ ''s Operator) is mux-agnostic''\<rparr>,
      \<lparr>al_file = unit_spec @ ''README.md'', al_term = Operator,
       al_contains = ''fixes every caller at once (Operator, Pod, and the Legate''\<rparr>,
      \<lparr>al_file = unit_spec @ ''README.md'', al_term = Pod,
       al_contains = ''fixes every caller at once (Operator, Pod, and the Legate''\<rparr>,
      \<lparr>al_file = unit_spec @ ''lifecycle.feature'', al_term = Operator,
       al_contains = ''fleet-layer caller (Operator) is mux-agnostic''\<rparr>]"

definition IN_SCOPE_ROOTS :: "string list" where
  "IN_SCOPE_ROOTS = [''packages/cyberlegion/src'', ''packages/cyberlegion/.agents/spec'', ''packages/cyberlegion/skills'',
     ''packages/cyberlegion/agents'', ''.agents/specs'']"

definition EXCLUDED_PATH_PREFIXES :: "string list" where
  "EXCLUDED_PATH_PREFIXES =
     [''packages/cyberlegion/.agents/spec/ledger/'', ''packages/cyberlegion/.agents/spec/metaphor-free/'']"

text \<open>The one pattern: a file under the ledger at the root of a project of the plural spec tree.\<close>

definition project_ledger :: "string \<Rightarrow> bool" where
  "project_ledger p = (case split_on slash p of
       a # b # project # d # rest \<Rightarrow> a = ''.agents'' \<and> b = ''specs'' \<and> project \<noteq> [] \<and> d = ''ledger'' \<and> rest \<noteq> []
     | _ \<Rightarrow> False)"

definition EXCLUDED_FILES :: "string list" where
  "EXCLUDED_FILES = [''packages/cyberlegion/src/metaphor-free.ts'', ''packages/cyberlegion/src/metaphor-free.test.ts'']"

definition SKIP_DIR_NAMES :: "string list" where
  "SKIP_DIR_NAMES = [''node_modules'', ''dist'', ''.git'']"

record scan_options =
  so_terms :: "banned_term list"
  so_allow :: "allow_entry list"
  so_prefixes :: "string list"
  so_pattern :: "string \<Rightarrow> bool"
  so_files :: "string list"
  so_roots :: "string list"

definition default_options :: scan_options where
  "default_options = \<lparr>so_terms = BANNED_TERMS, so_allow = ALLOW_LIST, so_prefixes = EXCLUDED_PATH_PREFIXES,
     so_pattern = project_ledger, so_files = EXCLUDED_FILES, so_roots = IN_SCOPE_ROOTS\<rparr>"

definition isExcludedPath :: "scan_options \<Rightarrow> string \<Rightarrow> bool" where
  "isExcludedPath opts p \<longleftrightarrow>
     p \<in> set (so_files opts) \<or> so_pattern opts p \<or> (\<exists>prefix\<in>set (so_prefixes opts). starts_with p prefix)"

definition isAllowed :: "string \<Rightarrow> banned_term \<Rightarrow> string \<Rightarrow> allow_entry list \<Rightarrow> bool" where
  "isAllowed p t line allow \<longleftrightarrow>
     (\<exists>entry\<in>set allow. al_file entry = p \<and> al_term entry = t \<and> contains line (al_contains entry))"

text \<open>A file holds its text, or none when it cannot be read; sockets and links are neither file nor directory.\<close>

datatype node = File "string option" | Dir "(string \<times> node) list" | Special

text \<open>The files below a directory, each with the path from the root of the repository.\<close>

function walk :: "string list \<Rightarrow> (string \<times> node) list \<Rightarrow> (string list \<times> string option) list" where
  "walk base [] = []"
| "walk base ((name, n) # entries) = (case n of
       Dir sub \<Rightarrow> if name \<in> set SKIP_DIR_NAMES then [] else walk (base @ [name]) sub
     | File text \<Rightarrow> [(base @ [name], text)]
     | Special \<Rightarrow> []) @ walk base entries"
  by pat_completeness auto

termination
  by (relation "measure (\<lambda>(p, es). size_list (size_prod (\<lambda>x. 0) size) es)") auto

fun find_node :: "string list \<Rightarrow> node \<Rightarrow> node option" where
  "find_node [] n = Some n"
| "find_node (w # ws) (Dir es) = (case map_of es w of None \<Rightarrow> None | Some n \<Rightarrow> find_node ws n)"
| "find_node (w # ws) _ = None"

text \<open>A missing root is skipped; one that is no directory cannot be listed, and that ends the scan.\<close>

fun collectFiles :: "node \<Rightarrow> string list \<Rightarrow> (string list \<times> string option) list option" where
  "collectFiles root [] = Some []"
| "collectFiles root (r # roots) = (case find_node (split_on slash r) root of
       None \<Rightarrow> collectFiles root roots
     | Some (Dir es) \<Rightarrow> map_option (\<lambda>files. walk (split_on slash r) es @ files) (collectFiles root roots)
     | Some n \<Rightarrow> None)"

record violation =
  vi_file :: string
  vi_line :: nat
  vi_term :: banned_term

definition lineViolations :: "scan_options \<Rightarrow> string \<Rightarrow> nat \<times> string \<Rightarrow> violation list" where
  "lineViolations opts p l = (case l of (i, line) \<Rightarrow>
     map (\<lambda>m. \<lparr>vi_file = p, vi_line = i + 1, vi_term = fst m\<rparr>)
       (filter (\<lambda>m. \<not> isAllowed p (fst m) line (so_allow opts)) (matchBannedTerms line (so_terms opts))))"

definition fileViolations :: "scan_options \<Rightarrow> string list \<times> string option \<Rightarrow> violation list" where
  "fileViolations opts f = (case f of (ws, content) \<Rightarrow>
     let p = join_with [slash] ws
     in if isExcludedPath opts p then []
        else (case content of
            None \<Rightarrow> []
          | Some text \<Rightarrow> concat (map (lineViolations opts p) (enumerate 0 (split_on (CHR 0x0A) text)))))"

definition findMetaphorViolations :: "node \<Rightarrow> scan_options \<Rightarrow> violation list option" where
  "findMetaphorViolations root opts =
     map_option (\<lambda>files. concat (map (fileViolations opts) files)) (collectFiles root (so_roots opts))"

text \<open>The command: what it prints on standard error and its exit code; an unlistable root ends it with a throw.\<close>

definition violation_line :: "violation \<Rightarrow> string" where
  "violation_line v = vi_file v @ '':'' @ nat_str (vi_line v) @ '':'' @ term_text (vi_term v)"

definition check_metaphor_free :: "node \<Rightarrow> string list \<times> nat" where
  "check_metaphor_free root = (case findMetaphorViolations root default_options of
       None \<Rightarrow> ([], 1)
     | Some vs \<Rightarrow>
         if vs = [] then ([], 0)
         else (map violation_line vs @ [''check:metaphor-free found '' @ nat_str (length vs) @ '' violation(s)''], 1))"

subsection \<open>What a term is\<close>

text \<open>
  An occurrence: the term stands at the place, with no capital letter in front, and behind it, or behind
  its plural, no small letter follows.
\<close>

definition occurs :: "banned_term \<Rightarrow> string \<Rightarrow> nat \<Rightarrow> bool" where
  "occurs t line i \<longleftrightarrow>
     starts_with (drop i line) (term_text t) \<and> (i = 0 \<or> \<not> is_upper (line ! (i - 1))) \<and>
     (let behind = drop (i + length (term_text t)) line
      in no_lower behind \<or> behind \<noteq> [] \<and> hd behind = CHR ''s'' \<and> no_lower (tl behind))"

lemma term_shape: "\<exists>c w. term_text t = c # w \<and> is_upper c \<and> (\<forall>d\<in>set w. \<not> is_upper d)"
  by (cases t) (auto simp: is_upper_def)

lemma term_text_nonempty [simp]: "term_text t \<noteq> []"
  using term_shape [of t] by auto

lemma lower_not_upper: "is_lower c \<Longrightarrow> \<not> is_upper c"
  by (simp add: is_lower_def is_upper_def)

lemma term_at_iff:
  "term_at t before s \<noteq> None \<longleftrightarrow>
     starts_with s (term_text t) \<and> (\<forall>c. before = Some c \<longrightarrow> \<not> is_upper c) \<and>
     (let behind = drop (length (term_text t)) s
      in no_lower behind \<or> behind \<noteq> [] \<and> hd behind = CHR ''s'' \<and> no_lower (tl behind))"
  by (cases before) (auto simp: term_at_def no_lower_def Let_def split: list.splits)

lemma starts_with_split: "starts_with s p \<Longrightarrow> \<exists>r. s = p @ r"
  by (metis append_take_drop_id starts_with_def)

text \<open>What a match takes holds no capital letter after its first: no other occurrence starts inside it.\<close>

lemma term_at_body:
  assumes "term_at t before (c # s) = Some k"
  shows "is_upper c" "\<forall>d\<in>set (take (k - 1) s). \<not> is_upper d"
proof -
  obtain a w where w: "term_text t = a # w" "is_upper a" "\<forall>d\<in>set w. \<not> is_upper d" using term_shape by blast
  have "starts_with (c # s) (term_text t)"
    using assms term_at_iff [of t before "c # s"] by auto
  then obtain r where r: "c = a" "s = w @ r" using starts_with_split w(1) by fastforce
  show "is_upper c" using r w(2) by simp
  have k: "k = length w + 1 \<or> k = length w + 2 \<and> r \<noteq> [] \<and> hd r = CHR ''s''"
    using assms r w(1) by (auto simp: term_at_def Let_def split: if_splits list.splits)
  have s_low: "\<not> is_upper (CHR ''s'')" by (simp add: is_upper_def)
  show "\<forall>d\<in>set (take (k - 1) s). \<not> is_upper d"
    using k r(2) w(3) s_low by (cases r) auto
qed

lemma scan_term_places:
  "(\<forall>d\<in>set (take skip s). \<not> is_upper d) \<Longrightarrow>
     scan_term t i skip before s =
       map ((+) i) (filter (\<lambda>j. term_at t (if j = 0 then before else Some (s ! (j - 1))) (drop j s) \<noteq> None) [0..<length s])"
proof (induction t i skip before s rule: scan_term.induct)
  case (1 t i skip before)
  then show ?case by simp
next
  case (2 t i skip before c s)
  have "term_at t before (c # s) = None"
    using 2(2) term_at_body(1) by fastforce
  then show ?case using 2
    by (simp add: upt_conv_Cons map_Suc_upt [symmetric] filter_map comp_def nth_Cons' del: upt_Suc)
next
  case (3 t i before c s)
  show ?case
  proof (cases "term_at t before (c # s)")
    case None
    then show ?thesis using 3(1) [OF None]
      by (simp add: upt_conv_Cons map_Suc_upt [symmetric] filter_map comp_def nth_Cons' del: upt_Suc)
  next
    case (Some k)
    then show ?thesis using 3(2) [OF Some] term_at_body(2) [OF Some]
      by (simp add: upt_conv_Cons map_Suc_upt [symmetric] filter_map comp_def nth_Cons' del: upt_Suc)
  qed
qed

lemma scan_term_occurs: "scan_term t 0 0 None line = filter (occurs t line) [0..<length line]"
proof -
  have "term_at t (if j = 0 then None else Some (line ! (j - 1))) (drop j line) \<noteq> None \<longleftrightarrow> occurs t line j" for j
    unfolding term_at_iff occurs_def Let_def drop_drop by (auto simp: add.commute)
  then show ?thesis using scan_term_places [of 0 line t 0 None] by (simp add: map_idI)
qed

lemma occurs_inside: "occurs t line i \<Longrightarrow> i < length line"
  using term_text_nonempty [of t] by (intro ccontr [of "i < length line"]) (auto simp: occurs_def starts_with_def)

lemma matchBannedTerms_iff: "(t, i) \<in> set (matchBannedTerms line terms) \<longleftrightarrow> t \<in> set terms \<and> occurs t line i"
  using occurs_inside by (auto simp: matchBannedTerms_def scan_term_occurs image_iff)

subsection \<open>What is scanned\<close>

inductive in_tree :: "(string \<times> node) list \<Rightarrow> string list \<Rightarrow> string option \<Rightarrow> bool" where
  a_file: "(name, File text) \<in> set es \<Longrightarrow> in_tree es [name] text"
| a_folder: "(name, Dir sub) \<in> set es \<Longrightarrow> name \<notin> set SKIP_DIR_NAMES \<Longrightarrow> in_tree sub ws text \<Longrightarrow> in_tree es (name # ws) text"

inductive_cases in_tree_Nil: "in_tree [] ws text"

lemma in_tree_Cons:
  "in_tree ((name, n) # es) ws text \<longleftrightarrow>
     in_tree es ws text \<or> n = File text \<and> ws = [name] \<or>
     (\<exists>sub us. n = Dir sub \<and> name \<notin> set SKIP_DIR_NAMES \<and> ws = name # us \<and> in_tree sub us text)"
proof
  assume "in_tree ((name, n) # es) ws text"
  then show "in_tree es ws text \<or> n = File text \<and> ws = [name] \<or>
     (\<exists>sub us. n = Dir sub \<and> name \<notin> set SKIP_DIR_NAMES \<and> ws = name # us \<and> in_tree sub us text)"
    by (cases rule: in_tree.cases) (auto intro: in_tree.intros)
next
  assume "in_tree es ws text \<or> n = File text \<and> ws = [name] \<or>
     (\<exists>sub us. n = Dir sub \<and> name \<notin> set SKIP_DIR_NAMES \<and> ws = name # us \<and> in_tree sub us text)"
  moreover have "in_tree es ws text \<Longrightarrow> in_tree ((name, n) # es) ws text"
    by (cases rule: in_tree.cases) (auto intro: in_tree.intros)
  ultimately show "in_tree ((name, n) # es) ws text" by (auto intro: in_tree.intros)
qed

lemma set_walk: "set (walk base es) = {(base @ ws, text) | ws text. in_tree es ws text}"
proof (induction base es rule: walk.induct)
  case (1 base)
  then show ?case by (auto elim: in_tree_Nil)
next
  case (2 base name n es)
  show ?case using 2 by (cases n) (auto simp: in_tree_Cons)
qed

definition scanned :: "node \<Rightarrow> string list \<Rightarrow> string list \<Rightarrow> string option \<Rightarrow> bool" where
  "scanned root roots ws text \<longleftrightarrow>
     (\<exists>r\<in>set roots. \<exists>es us. find_node (split_on slash r) root = Some (Dir es) \<and> in_tree es us text \<and> ws = split_on slash r @ us)"

lemma set_collectFiles:
  "collectFiles root roots = Some files \<Longrightarrow> (ws, text) \<in> set files \<longleftrightarrow> scanned root roots ws text"
proof (induction roots arbitrary: files)
  case Nil
  then show ?case by (simp add: scanned_def)
next
  case (Cons r roots)
  show ?case
  proof (cases "find_node (split_on slash r) root")
    case None
    then show ?thesis using Cons by (simp add: scanned_def)
  next
    case (Some n)
    then obtain es where n: "n = Dir es" using Cons.prems by (cases n) auto
    obtain others where files: "collectFiles root roots = Some others" "files = walk (split_on slash r) es @ others"
      using Cons.prems Some n by auto
    show ?thesis using Cons.IH [OF files(1)] files(2) Some n by (auto simp: scanned_def set_walk)
  qed
qed

text \<open>A violation that should be reported.\<close>

definition leaks :: "scan_options \<Rightarrow> node \<Rightarrow> violation \<Rightarrow> bool" where
  "leaks opts root v \<longleftrightarrow>
     (\<exists>ws text i. scanned root (so_roots opts) ws (Some text) \<and> vi_file v = join_with [slash] ws \<and>
        \<not> isExcludedPath opts (vi_file v) \<and> i < length (split_on (CHR 0x0A) text) \<and> vi_line v = i + 1 \<and>
        vi_term v \<in> set (so_terms opts) \<and>
        (\<exists>j. occurs (vi_term v) (split_on (CHR 0x0A) text ! i) j) \<and>
        \<not> isAllowed (vi_file v) (vi_term v) (split_on (CHR 0x0A) text ! i) (so_allow opts))"

lemma violation_eq: "v = \<lparr>vi_file = p, vi_line = n, vi_term = t\<rparr> \<longleftrightarrow> vi_file v = p \<and> vi_line v = n \<and> vi_term v = t"
  by (cases v) auto

lemma lineViolations_iff:
  "v \<in> set (lineViolations opts p (i, line)) \<longleftrightarrow>
     vi_file v = p \<and> vi_line v = i + 1 \<and> vi_term v \<in> set (so_terms opts) \<and> (\<exists>j. occurs (vi_term v) line j) \<and>
     \<not> isAllowed p (vi_term v) line (so_allow opts)"
  by (auto simp: lineViolations_def matchBannedTerms_iff image_iff violation_eq)

lemma fileViolations_iff:
  "v \<in> set (fileViolations opts (ws, content)) \<longleftrightarrow>
     (\<exists>text i. content = Some text \<and> vi_file v = join_with [slash] ws \<and> \<not> isExcludedPath opts (vi_file v) \<and>
        i < length (split_on (CHR 0x0A) text) \<and> v \<in> set (lineViolations opts (vi_file v) (i, split_on (CHR 0x0A) text ! i)))"
proof (cases content)
  case None
  then show ?thesis by (simp add: fileViolations_def Let_def)
next
  case (Some body)
  have "v \<in> set (fileViolations opts (ws, content)) \<longleftrightarrow> \<not> isExcludedPath opts (join_with [slash] ws) \<and>
      (\<exists>i < length (split_on (CHR 0x0A) body). v \<in> set (lineViolations opts (join_with [slash] ws) (i, split_on (CHR 0x0A) body ! i)))"
    using Some by (auto simp: fileViolations_def Let_def in_set_enumerate_eq)
  then show ?thesis using Some by (auto simp: lineViolations_iff)
qed

text \<open>
  C34. The vocabulary check is exact. Its scan reports a file, line and term precisely when the file is in
  scope (under a root, not below a skipped directory, not on an excluded path), can be read, and the
  line holds the term as a word of its own or as a capitalised part of a compound name, in the singular
  or the plural, where the allow list does not sanction it; the command exits with 0 precisely when
  there is no such place.
\<close>

theorem metaphor_check_exact:
  assumes "findMetaphorViolations root default_options = Some vs"
  shows "(\<forall>v. v \<in> set vs \<longleftrightarrow> leaks default_options root v) \<and>
    (snd (check_metaphor_free root) = 0 \<longleftrightarrow> (\<forall>v. \<not> leaks default_options root v))"
proof -
  obtain files where files: "collectFiles root (so_roots default_options) = Some files"
      "vs = concat (map (fileViolations default_options) files)"
    using assms by (auto simp: findMetaphorViolations_def)
  have iff: "v \<in> set vs \<longleftrightarrow> leaks default_options root v" for v
  proof -
    have "v \<in> set vs \<longleftrightarrow> (\<exists>ws content. scanned root (so_roots default_options) ws content \<and> v \<in> set (fileViolations default_options (ws, content)))"
      using set_collectFiles [OF files(1)] files(2) by auto
    then show ?thesis unfolding fileViolations_iff lineViolations_iff leaks_def by blast
  qed
  moreover have "snd (check_metaphor_free root) = 0 \<longleftrightarrow> vs = []"
    using assms by (simp add: check_metaphor_free_def)
  ultimately show ?thesis by (metis set_empty ex_in_conv)
qed

definition demo_tree :: node where
  "demo_tree = Dir [(''packages'', Dir [(''cyberlegion'', Dir [(''src'', Dir
     [(''a.ts'', File (Some ''resolveBunker(Podcast)'')), (''dist'', Dir [(''b.ts'', File (Some ''Council''))])])])])]"

lemma demo_tree_violations:
  "findMetaphorViolations demo_tree default_options =
     Some [\<lparr>vi_file = ''packages/cyberlegion/src/a.ts'', vi_line = 1, vi_term = Bunker\<rparr>]"
  by code_simp

theorem metaphor_check_exact_witness:
  "leaks default_options demo_tree \<lparr>vi_file = ''packages/cyberlegion/src/a.ts'', vi_line = 1, vi_term = Bunker\<rparr> \<and>
   snd (check_metaphor_free demo_tree) \<noteq> 0"
  using metaphor_check_exact [OF demo_tree_violations] by auto

end
