(* ===== verification/Cli.thy ===== *)
theory Cli
  imports CliOutput CursorModels Realize Session Participants UnitRuntime Decommission Install Admin
begin

text \<open>
  \<open>cli-input.ts\<close>, and what the commands of \<open>cli.ts\<close> share. A command is given its parsed options: the
  parser (\<open>commander\<close>) is a package. It runs on a shell: a world, what was printed on standard output
  and on standard error, and the exit code. A command that ends by \<open>fail\<close> or by a throw is an error: either
  way the process prints that error on standard error and exits with 1.
\<close>

subsection \<open>The shell\<close>

text \<open>What a command prints as JSON, by the value it hands to \<open>JSON.stringify\<close>.\<close>

datatype cli_json =
    FieldsJson "(string \<times> jvalue option) list"
  | AgentJson agent
  | AgentsJson "agent list"
  | SpawnedJson spawn_result first_turn string string
  | ClosedJson decommission_result
  | RestartJson restart_result
  | ViewJson runtime_view
  | PaneJson string "pane_loc option"
  | ProjectJson project "project_address option"
  | ProjectsJson "project list"
  | MessageJson message
  | InboxJson "(message \<times> bool) list"
  | ItemJson "message \<times> bool"
  | SentJson message bool "string option"
  | AckedJson message bool
  | NudgedJson string string ustr nat
  | ScreenJson string string "ustr option"
  | DefJson agent_def
  | DefsJson "agent_def list"
  | HookJson string string
  | HooksJson harness "install_result list" "string option"
  | StatusJson "(string \<times> string \<times> harness option) option" nat nat
  | MigratedJson migrate_result

text \<open>A screen is a text of UTF-16 units.\<close>

datatype cli_out = Doc "cli_json printed" | Screen "ustr option"

text \<open>A line on standard error, by what it says: the wording around a warning differs between commands.\<close>

datatype notice =
    NextStep string
  | Said string
  | DoorbellUnconfirmed wake_warning
  | TrustStuck trust_outcome
  | NudgeTo string ustr
  | BaseFallback base_fallback
  | EffortDropped string string "string option"
  | StillWaiting string nat
  | ServiceStarting string string
  | PinMux string "string option"
  | AllowCliHint
  | Failure error

record 'x shell =
  sh_world :: "'x world"
  sh_out :: "cli_out list"
  sh_err :: "notice list"
  sh_code :: nat

type_synonym ('x, 'a) cmd = "(error, 'x shell, 'a) eff"

definition inWorld :: "('x, 'a) op \<Rightarrow> ('x, 'a) cmd" where
  "inWorld m s = (case m (sh_world s) of (r, w) \<Rightarrow> (r, s\<lparr>sh_world := w\<rparr>))"

definition printDoc :: "cli_out \<Rightarrow> ('x, unit) cmd" where
  "printDoc d = update (\<lambda>s. s\<lparr>sh_out := sh_out s @ [d]\<rparr>)"

definition say :: "notice \<Rightarrow> ('x, unit) cmd" where
  "say n = update (\<lambda>s. s\<lparr>sh_err := sh_err s @ [n]\<rparr>)"

definition nextStep :: "string \<Rightarrow> ('x, unit) cmd" where
  "nextStep msg = say (NextStep msg)"

definition setCode :: "nat \<Rightarrow> ('x, unit) cmd" where
  "setCode n = update (\<lambda>s. s\<lparr>sh_code := n\<rparr>)"

definition emitDoc :: "format \<Rightarrow> string \<Rightarrow> cli_json \<Rightarrow> ('x, unit) cmd" where
  "emitDoc f toon doc = printDoc (Doc (emit f \<lparr>ep_toon = toon, ep_json = doc\<rparr>))"

text \<open>\<open>runCli\<close>: an error ends the process with exit code 1.\<close>

definition runCli :: "('x, unit) cmd \<Rightarrow> 'x shell \<Rightarrow> 'x shell" where
  "runCli c s = (case c s of
       (Inr u, s') \<Rightarrow> s'
     | (Inl e, s') \<Rightarrow> s'\<lparr>sh_err := sh_err s' @ [Failure e], sh_code := 1\<rparr>)"

subsection \<open>What a command is given besides its options\<close>

text \<open>
  The host, the worktree packages, the loader of \<open>cynapse\<close>, \<open>stripVTControlCharacters\<close>, how a time is
  written, what the field \<open>session_id\<close> of a hook's JSON is, whether standard input is a terminal, the hub
  found at another root, and the output format.
\<close>

record 'x cli =
  cl_host :: "'x host"
  cl_lib :: "'x worktree_lib"
  cl_load :: "'x importer"
  cl_stripVT :: "ustr \<Rightarrow> ustr"
  cl_iso :: "nat \<Rightarrow> string"
  cl_sessionId :: "string \<Rightarrow> string option"
  cl_tty :: bool
  cl_hubAt :: "string \<Rightarrow> hub"
  cl_format :: format

definition emits :: "'x cli \<Rightarrow> (string \<times> string option) list \<Rightarrow> cli_json \<Rightarrow> ('x, unit) cmd" where
  "emits C fs j = emitDoc (cl_format C) (toonObject fs) j"

definition emitsList ::
    "'x cli \<Rightarrow> string \<Rightarrow> 'a list \<Rightarrow> (string \<times> ('a \<Rightarrow> string option)) list \<Rightarrow> string \<Rightarrow> cli_json \<Rightarrow> ('x, unit) cmd" where
  "emitsList C name items fs summary j = emitDoc (cl_format C) (toonList name items fs summary) j"

definition requireSelf :: "'x cli \<Rightarrow> ('x, string) cmd" where
  "requireSelf C =
     andThen (inWorld (hubGet (resolveSelfId (cl_host C)))) (\<lambda>me.
     case truthy me of
       None \<Rightarrow> throw (CliE NotRegistered)
     | Some i \<Rightarrow> andThen (inWorld (bumpLastSeen (cl_host C) i)) (\<lambda>_. ret i))"

definition touchSelf :: "'x cli \<Rightarrow> ('x, unit) cmd" where
  "touchSelf C = inWorld (touch (cl_host C))"

text \<open>After a command that may have changed the units; not after a plain \<open>who\<close>.\<close>

definition syncsUnits :: "'x cli \<Rightarrow> ('x, unit) cmd \<Rightarrow> ('x, unit) cmd" where
  "syncsUnits C action = andThen action (\<lambda>_. andThen (inWorld (syncCynapse (cl_host C) (cl_load C))) (\<lambda>_. ret ()))"

subsection \<open>Texts\<close>

fun status_name :: "status \<Rightarrow> string" where
  "status_name Active = ''active''"
| "status_name Idle = ''idle''"
| "status_name Stale = ''stale''"
| "status_name Exited = ''exited''"
| "status_name Paused = ''paused''"
| "status_name Stopped = ''stopped''"
| "status_name (Other s) = s"

fun kind_name :: "kind \<Rightarrow> string" where
  "kind_name SessionKind = ''session''"
| "kind_name StandingKind = ''standing''"
| "kind_name ServiceKind = ''service''"

definition bool_text :: "bool \<Rightarrow> string" where
  "bool_text b = (if b then ''true'' else ''false'')"

definition harness_or :: "string \<Rightarrow> harness option \<Rightarrow> string" where
  "harness_or d h = (case h of None \<Rightarrow> d | Some x \<Rightarrow> harness_name x)"

definition trust_name :: "trust_outcome \<Rightarrow> string" where
  "trust_name t = (case t of TNone \<Rightarrow> ''none'' | TUnsettled \<Rightarrow> ''unsettled'' | TAccepted \<Rightarrow> ''accepted''
     | TNeedsHuman \<Rightarrow> ''needs-human'' | TStuck \<Rightarrow> ''stuck'')"

definition liveness_name :: "runtime_liveness \<Rightarrow> string" where
  "liveness_name l = (case l of RLive \<Rightarrow> ''live'' | RGone \<Rightarrow> ''gone'' | RUnknown \<Rightarrow> ''unknown'' | RStopped \<Rightarrow> ''stopped''
     | RExited \<Rightarrow> ''exited'' | RNone \<Rightarrow> ''none'')"

definition control_name :: "control \<Rightarrow> string" where
  "control_name k = (case k of Focus \<Rightarrow> ''focus'' | Nudge \<Rightarrow> ''nudge'' | ReadScreen \<Rightarrow> ''read'' | Clear \<Rightarrow> ''clear''
     | Stop \<Rightarrow> ''stop'' | Restart \<Rightarrow> ''restart'' | Rebind \<Rightarrow> ''rebind'' | Close \<Rightarrow> ''close'')"

definition jnull :: "string option \<Rightarrow> jvalue option" where
  "jnull v = Some (case v of None \<Rightarrow> JNull | Some s \<Rightarrow> JStr s)"

definition counted :: "'a list \<Rightarrow> string \<Rightarrow> string" where
  "counted xs noun = nat_str (length xs) @ '' '' @ noun"

text \<open>Options left at their defaults.\<close>

definition no_trust_opts :: trust_opts where
  "no_trust_opts = \<lparr>to_pollMs = None, to_timeoutMs = None, to_stableReads = None, to_blankReads = None,
     to_keyDelayMs = None, to_attempts = None\<rparr>"

subsection \<open>The options of a spawn\<close>

record spawn_options =
  sc_harness :: "string option"
  sc_agent :: "string option"
  sc_agentFile :: "string option"
  sc_model :: "string option"
  sc_effort :: "string option"
  sc_task :: "string option"
  sc_briefFile :: "string option"
  sc_handle :: "string option"
  sc_branch :: "string option"
  sc_worktreePath :: "string option"
  sc_cwd :: "string option"
  sc_repo :: "string option"
  sc_base :: "string option"
  sc_at :: "string option"
  sc_wake :: "bool option"

record launched =
  ld_model :: "string option"
  ld_effort :: "string option"
  ld_effortNotApplied :: "string option"

definition spawnCommandInput ::
    "'x host \<Rightarrow> spawn_options \<Rightarrow> string list \<Rightarrow> 'x \<Rightarrow> error + spawn_input \<times> bool \<times> launched" where
  "spawnCommandInput H opts listed x =
     (case resolveSpawnLaunch H \<lparr>lq_agent = sc_agent opts, lq_agentFile = sc_agentFile opts, lq_harness = sc_harness opts,
             lq_model = sc_model opts, lq_effort = sc_effort opts, lq_cwd = None, lq_searchRoots = [], lq_listed = listed\<rparr> x of
        Inl e \<Rightarrow> Inl e
      | Inr sl \<Rightarrow>
          if truthy (sl_harness sl) = None then Inl (CliE SpawnHarnessUnresolved)
          else Inr (\<lparr>sp_harness = sl_harness sl, sp_task = sc_task opts, sp_briefFile = sc_briefFile opts,
                 sp_handle = sc_handle opts, sp_command = sl_command sl, sp_briefInstructions = sl_briefInstructions sl,
                 sp_branch = sc_branch opts, sp_worktreePath = sc_worktreePath opts, sp_cwd = sc_cwd opts,
                 sp_repo = sc_repo opts, sp_base = sc_base opts, sp_at = sc_at opts, sp_cwdOwnRepo = False\<rparr>,
               sc_wake opts = Some False,
               \<lparr>ld_model = sl_model sl, ld_effort = sl_effort sl, ld_effortNotApplied = sl_effortNotApplied sl\<rparr>))"

definition readCommandOutput :: "format \<Rightarrow> string \<Rightarrow> string \<Rightarrow> ustr option \<Rightarrow> cli_out" where
  "readCommandOutput f ref pane screen =
     (case f of FJson \<Rightarrow> Doc (JsonDoc (ScreenJson ref pane screen)) | FToon \<Rightarrow> Screen screen)"

subsection \<open>Runs\<close>

lemma inWorld_run: "inWorld m s = (case m (sh_world s) of (r, w) \<Rightarrow> (r, s\<lparr>sh_world := w\<rparr>))"
  by (rule inWorld_def)

lemma shell_runs [eff_simps]:
  "printDoc d s = (Inr (), s\<lparr>sh_out := sh_out s @ [d]\<rparr>)"
  "say n s = (Inr (), s\<lparr>sh_err := sh_err s @ [n]\<rparr>)"
  "setCode k s = (Inr (), s\<lparr>sh_code := k\<rparr>)"
  by (simp_all add: printDoc_def say_def setCode_def update_def)

text \<open>What holds of the hub before a command and after it.\<close>

abbreviation wf_cmd :: "('x, 'a) cmd \<Rightarrow> bool" where
  "wf_cmd c \<equiv> preserves (\<lambda>s. hub_wf (hub (sh_world s))) c"

lemma pres_inWorld [pres]: "preserves P m \<Longrightarrow> preserves (\<lambda>s. P (sh_world s)) (inWorld m)"
  by (auto simp: preserves_def inWorld_def split: prod.splits)

lemma pres_shell [pres]:
  "preserves (\<lambda>s. P (sh_world s)) (printDoc d)" "preserves (\<lambda>s. P (sh_world s)) (say n)"
  "preserves (\<lambda>s. P (sh_world s)) (setCode k)"
  by (simp_all add: preserves_def eff_simps)

lemma pres_emits [pres]:
  "preserves (\<lambda>s. P (sh_world s)) (nextStep t)" "preserves (\<lambda>s. P (sh_world s)) (emitDoc f t j)"
  "preserves (\<lambda>s. P (sh_world s)) (emits C fs j)" "preserves (\<lambda>s. P (sh_world s)) (emitsList C nm items ks summary j)"
  unfolding nextStep_def emits_def emitsList_def emitDoc_def by (rule pres_shell)+

lemma wf_requireSelf [pres]: "wf_cmd (requireSelf C)"
  unfolding requireSelf_def by (intro pres)

lemma wf_touchSelf [pres]: "wf_cmd (touchSelf C)"
  unfolding touchSelf_def by (intro pres)

lemma wf_syncsUnits [pres]: "others_wf (cl_host C) \<Longrightarrow> wf_cmd action \<Longrightarrow> wf_cmd (syncsUnits C action)"
  unfolding syncsUnits_def by (intro pres) auto

text \<open>
  What a command prints on standard output. \<open>prints N\<close>: nothing when it fails, and when it succeeds a
  number of documents in \<open>N\<close>. \<open>quiet\<close>: never fails and prints nothing.
\<close>

named_theorems prints_rules \<open>what a command prints, by its shape\<close>

definition prints :: "nat set \<Rightarrow> ('x, 'a) cmd \<Rightarrow> bool" where
  "prints N c \<longleftrightarrow> (\<forall>s. case c s of
       (Inl e, s') \<Rightarrow> sh_out s' = sh_out s
     | (Inr a, s') \<Rightarrow> (\<exists>ds. length ds \<in> N \<and> sh_out s' = sh_out s @ ds))"

definition quiet :: "('x, 'a) cmd \<Rightarrow> bool" where
  "quiet c \<longleftrightarrow> (\<forall>s. \<exists>a s'. c s = (Inr a, s') \<and> sh_out s' = sh_out s)"

abbreviation silent :: "('x, 'a) cmd \<Rightarrow> bool" where
  "silent \<equiv> prints {0}"

lemma printsE:
  assumes "prints N c" "c s = (r, s')"
  obtains (failed) e where "r = Inl e" "sh_out s' = sh_out s"
    | (printed) a ds where "r = Inr a" "length ds \<in> N" "sh_out s' = sh_out s @ ds"
  using assms by (cases r) (auto simp: prints_def dest!: spec [where x = s])

lemma quiet_silent: "quiet c \<Longrightarrow> silent c"
  unfolding prints_def
proof
  fix s assume "quiet c"
  then obtain a s' where "c s = (Inr a, s')" "sh_out s' = sh_out s" unfolding quiet_def by blast
  then show "case c s of (Inl e, s') \<Rightarrow> sh_out s' = sh_out s
     | (Inr a, s') \<Rightarrow> (\<exists>ds. length ds \<in> {0} \<and> sh_out s' = sh_out s @ ds)" by simp
qed

lemma prints_mono:
  assumes "prints N c" "N \<subseteq> M"
  shows "prints M c"
  unfolding prints_def
proof
  fix s
  obtain r t where c: "c s = (r, t)" by fastforce
  show "case c s of (Inl e, s') \<Rightarrow> sh_out s' = sh_out s
     | (Inr a, s') \<Rightarrow> (\<exists>ds. length ds \<in> M \<and> sh_out s' = sh_out s @ ds)"
    by (rule printsE [OF assms(1) c]) (use c assms(2) in auto)
qed

lemma prints_ret [prints_rules]: "0 \<in> N \<Longrightarrow> prints N (ret x)"
  by (simp add: prints_def ret_def)

lemma prints_throw [prints_rules]: "prints N (throw e)"
  by (simp add: prints_def throw_def)

lemma prints_inWorld [prints_rules]: "0 \<in> N \<Longrightarrow> prints N (inWorld m)"
  by (auto simp: prints_def inWorld_def split: prod.splits sum.splits)

lemma prints_seq:
  assumes "silent m" "\<And>x. prints N (f x)"
  shows "prints N (andThen m f)"
  unfolding prints_def
proof
  fix s
  obtain r t where m: "m s = (r, t)" by fastforce
  show "case andThen m f s of (Inl e, s') \<Rightarrow> sh_out s' = sh_out s
     | (Inr a, s') \<Rightarrow> (\<exists>ds. length ds \<in> N \<and> sh_out s' = sh_out s @ ds)"
  proof (rule printsE [OF assms(1) m])
    fix e assume "r = Inl e" "sh_out t = sh_out s"
    then show ?thesis using m by (simp add: andThen_Inl)
  next
    fix a ds assume a: "r = Inr a" "length ds \<in> {0}" "sh_out t = sh_out s @ ds"
    obtain r2 u where f: "f a t = (r2, u)" by fastforce
    show ?thesis by (rule printsE [OF assms(2) f]) (use a m f in \<open>simp_all add: andThen_Inr\<close>)
  qed
qed

lemma prints_then:
  assumes "prints N m" "\<And>x. quiet (f x)"
  shows "prints N (andThen m f)"
  unfolding prints_def
proof
  fix s
  obtain r t where m: "m s = (r, t)" by fastforce
  show "case andThen m f s of (Inl e, s') \<Rightarrow> sh_out s' = sh_out s
     | (Inr a, s') \<Rightarrow> (\<exists>ds. length ds \<in> N \<and> sh_out s' = sh_out s @ ds)"
  proof (rule printsE [OF assms(1) m])
    fix e assume "r = Inl e" "sh_out t = sh_out s"
    then show ?thesis using m by (simp add: andThen_Inl)
  next
    fix a ds assume a: "r = Inr a" "length ds \<in> N" "sh_out t = sh_out s @ ds"
    obtain b u where f: "f a t = (Inr b, u)" "sh_out u = sh_out t" using assms(2) unfolding quiet_def by blast
    then show ?thesis using a m by (auto simp: andThen_Inr)
  qed
qed

lemma quiet_steps [prints_rules]:
  "quiet (ret x)" "quiet (say n)" "quiet (setCode k)" "quiet (nextStep t)"
  by (simp_all add: quiet_def eff_simps nextStep_def)

lemma quiet_andThen [prints_rules]:
  assumes "quiet m" "\<And>x. quiet (f x)"
  shows "quiet (andThen m f)"
  unfolding quiet_def
proof
  fix s
  obtain a t where m: "m s = (Inr a, t)" "sh_out t = sh_out s" using assms(1) unfolding quiet_def by blast
  obtain b u where f: "f a t = (Inr b, u)" "sh_out u = sh_out t" using assms(2) unfolding quiet_def by blast
  show "\<exists>b u. andThen m f s = (Inr b, u) \<and> sh_out u = sh_out s" using m f by (auto simp: andThen_Inr)
qed

lemma prints_emits [prints_rules]:
  "prints {1} (printDoc d)" "prints {1} (emitDoc f t j)" "prints {1} (emits C fs j)"
  "prints {1} (emitsList C nm items ks summary j)"
  by (simp_all add: prints_def emits_def emitsList_def emitDoc_def eff_simps)

lemma prints_cases [prints_rules]:
  "prints N m \<Longrightarrow> prints N n \<Longrightarrow> prints N (if b then m else n)"
  "prints N m \<Longrightarrow> (\<And>x. prints N (g x)) \<Longrightarrow> prints N (case a of None \<Rightarrow> m | Some x \<Rightarrow> g x)"
  "prints N m \<Longrightarrow> (\<And>x xs. prints N (g2 x xs)) \<Longrightarrow> prints N (case l of [] \<Rightarrow> m | x # xs \<Rightarrow> g2 x xs)"
  "(\<And>x y. prints N (h x y)) \<Longrightarrow> prints N (case p of (x, y) \<Rightarrow> h x y)"
  "quiet q \<Longrightarrow> quiet r \<Longrightarrow> quiet (if b then q else r)"
  "quiet q \<Longrightarrow> (\<And>x. quiet (k x)) \<Longrightarrow> quiet (case a of None \<Rightarrow> q | Some x \<Rightarrow> k x)"
  "quiet q \<Longrightarrow> (\<And>x xs. quiet (k2 x xs)) \<Longrightarrow> quiet (case l of [] \<Rightarrow> q | x # xs \<Rightarrow> k2 x xs)"
  by (simp_all split: option.split list.split prod.split)

lemma prints_result [prints_rules]:
  assumes "\<And>x. quiet (f x)"
  shows "prints {1} (andThen (emitDoc t d j) f)" "prints {1} (andThen (emits C fs j) f)"
    "prints {1} (andThen (emitsList C nm items ks summary j) f)"
  by (rule prints_then [OF _ assms], rule prints_emits)+

text \<open>A result that may be missing.\<close>

lemma prints_maybe [prints_rules]:
  "prints {0, 1} (printDoc d)" "prints {0, 1} (emits C fs j)" "prints {0, 1} (say n)"
  by (rule prints_mono [OF prints_emits(1)] prints_mono [OF prints_emits(3)] prints_mono [OF quiet_silent [OF quiet_steps(2)]], simp)+

lemma silent_tryE [prints_rules]: "silent (tryE (inWorld m))"
  by (auto simp: prints_def tryE_def inWorld_def split: prod.splits)

lemma silent_steps [prints_rules]:
  "silent (say n)" "silent (setCode k)" "silent (nextStep t)" "silent (requireSelf C)" "silent (touchSelf C)"
proof -
  show "silent (say n)" "silent (setCode k)" "silent (nextStep t)"
    by (rule quiet_silent, rule quiet_steps)+
  show "silent (touchSelf C)" unfolding touchSelf_def by (intro prints_rules) simp
  show "silent (requireSelf C)" unfolding requireSelf_def
    by (intro prints_seq) (auto intro!: prints_rules prints_seq split: option.splits)
qed

subsection \<open>A command line for concrete runs\<close>

definition demo_cli :: "nat cli" where
  "demo_cli = \<lparr>cl_host = demo_host, cl_lib = slot_lib, cl_load = throw (HostError ''not installed''), cl_stripVT = (\<lambda>t. t),
     cl_iso = nat_str, cl_sessionId = (\<lambda>t. None), cl_tty = True, cl_hubAt = empty_hub, cl_format = FToon\<rparr>"

lemma demo_cli_simps [simp]:
  "cl_host demo_cli = demo_host" "cl_lib demo_cli = slot_lib" "cl_load demo_cli = throw (HostError ''not installed'')"
  "cl_tty demo_cli = True" "cl_format demo_cli = FToon" "cl_hubAt demo_cli = empty_hub"
  by (simp_all add: demo_cli_def)

definition shell_at :: "'x world \<Rightarrow> 'x shell" where
  "shell_at w = \<lparr>sh_world = w, sh_out = [], sh_err = [], sh_code = 0\<rparr>"

lemma shell_at_simps [simp]: "sh_world (shell_at w) = w" "sh_out (shell_at w) = []" "sh_code (shell_at w) = 0"
  by (simp_all add: shell_at_def)

end
