(* ===== verification/HubClients.thy ===== *)
theory HubClients
  imports Cli PresenceSpawn Service InjectInbox
begin

text \<open>
  What the components rely on when they share a hub: a fact that one of them needs is kept by all the
  others. The contract is stated once per kind of fact, over the store operations, and the
  operations of the program are shown to honour it inside the locale. It is interpreted for facts about the mailboxes
  and for the fence of a project service.
\<close>

subsection \<open>The contract\<close>

named_theorems stays \<open>an operation keeps what a bystander relies on\<close>

abbreviation hub_cmd :: "(hub \<Rightarrow> bool) \<Rightarrow> ('x, 'a) cmd \<Rightarrow> bool" where
  "hub_cmd P c \<equiv> preserves (\<lambda>s. P (hub (sh_world s))) c"

text \<open>A fact that neither mail nor leases are part of.\<close>

locale bystander =
  fixes Q :: "hub \<Rightarrow> bool"
  assumes agents: "Q h \<Longrightarrow> putAgent r h = Inr h' \<Longrightarrow> Q h'"
    and projects: "Q h \<Longrightarrow> putProject p h = Inr h' \<Longrightarrow> Q h'"
    and briefs: "Q h \<Longrightarrow> writeBrief i t h = Inr h' \<Longrightarrow> Q h'"
    and shims: "Q h \<Longrightarrow> Q (h\<lparr>h_data := dput i d (h_data h)\<rparr>)"
    and markers: "Q h \<Longrightarrow> Q (ensureMarker h)"
    and panes: "Q h \<Longrightarrow> Q (putPaneIndex pane i h)" "Q h \<Longrightarrow> Q (removePaneIndex pane h)"
    and locks: "Q h \<Longrightarrow> (dir_wf (h_locks h) \<longrightarrow> dir_wf ls) \<Longrightarrow> Q (h\<lparr>h_locks := ls\<rparr>)"
    and mainPane: "Q h \<Longrightarrow> Q (h\<lparr>h_mainPane := front\<rparr>)"

text \<open>A fact about mail, which leases are no part of; and one about leases, which mail is no part of.\<close>

locale lease_bystander = bystander +
  assumes leases: "Q h \<Longrightarrow> putServiceLease l h = Inr h' \<Longrightarrow> Q h'"

locale mail_bystander = bystander +
  assumes posts: "Q h \<Longrightarrow> putMessage i m h = Inr h' \<Longrightarrow> Q h'"
    and acks: "Q h \<Longrightarrow> ackMessage i mid h = Inr (m, h') \<Longrightarrow> Q h'"
    and deletes: "Q h \<Longrightarrow> removeMessage i mid h = Inr h' \<Longrightarrow> Q h'"
    and reaps: "Q h \<Longrightarrow> removeAgent i h = Inr h' \<Longrightarrow> Q h'" "Q h \<Longrightarrow> removeAgentData i h = Inr h' \<Longrightarrow> Q h'"
      "Q h \<Longrightarrow> removeMailbox i h = Inr h' \<Longrightarrow> Q h'"

subsection \<open>Operations that touch neither mail nor leases\<close>

context bystander
begin

lemma writes [stays]:
  "hub_op Q (hubWrite (putAgent r))" "hub_op Q (hubWrite (putProject p))" "hub_op Q (hubWrite (writeBrief i t))"
  "hub_op Q (hubSet ensureMarker)" "hub_op Q (hubSet (putPaneIndex pane i))" "hub_op Q (hubSet (removePaneIndex pane))"
  by (rule pres_hubWrite pres_hubSet; erule agents projects briefs markers panes; assumption?)+

lemma shim_closed: "shim_closed Q i"
  by (simp add: shim_closed_def shims)

lemma locked [stays]: "sleep_keeps H Q \<Longrightarrow> hub_op Q fn \<Longrightarrow> hub_op Q (withLock H name fn)"
  by (rule pres_withLock) (auto simp: sleep_keeps_def locks)

lemma only_projects: "only_projects Q"
  by (auto simp: only_projects_def intro: markers projects)

lemmas resolving [stays] = pres_registerProject [OF only_projects] pres_resolveProject [OF only_projects]

lemma identity [stays]:
  "hub_op Q (bumpLastSeen H i)" "hub_op Q (touch H)" "hub_op Q (register H handle harness)"
  "sleep_keeps H Q \<Longrightarrow> hub_op Q (registerStanding H name home)"
  "sleep_keeps H Q \<Longrightarrow> hub_op Q (claimPresence H name)" "sleep_keeps H Q \<Longrightarrow> hub_op Q (clearPresence H name)"
  unfolding bumpLastSeen_def touch_def register_def registerStanding_def writeStanding_def claimPresence_def clearPresence_def
    detectHarness_def gitWorktree_def keptWorktree_def paneLocator_def randomId_def Let_def
  by (intro stays pres; assumption?)+

lemma pruning [stays]: "hub_op Q (reconcile H b)" "hub_op Q (prune H)"
  unfolding prune_def reconcile_def adopt_def adoptPane_def reconcileOne_def pruneOne_def randomId_def Let_def
  by (intro stays pres)+

lemma launch_line [stays]: "hub_op Q (composeLaunchLine H muxName i launch opts)"
  unfolding composeLaunchLine_def writeSelfShim_def by (intro pres) (simp add: shims)

lemma runtime [stays]:
  "hub_op Q (stopUnit H given ref)" "hub_op Q (rebindUnit H given ref)"
  "sleep_keeps H Q \<Longrightarrow> hub_op Q (restartUnit H given ref opts)" "hub_op Q (recordConversation H parsed)"
  unfolding stopUnit_def stopRuntime_def markStopped_def rebindUnit_def rebindTo_def rebindWrite_def restartUnit_def
    startAgain_def openAgain_def bindRuntime_def recordConversation_def adapterOr_def Let_def
  by (intro stays pres; assumption?)+

lemma participants [stays]:
  "sleep_keeps H Q \<Longrightarrow> hub_op Q (syncCynapse H load)" "hub_op Q (projectAddress H load p)"
  unfolding syncCynapse_def projectAddress_def withCynapse_def openCynapse_def repoSubject_def syncParticipants_def
    syncUnit_def retireOne_def Let_def
  by (intro stays pres; assumption?)+

lemma main_pane [stays]: "sleep_keeps H Q \<Longrightarrow> hub_op Q (setMainPane H pane)"
  unfolding setMainPane_def by (intro stays pres) (simp_all add: mainPane)

lemma spawning [stays]:
  assumes "lib_hub L Q"
  shows "hub_op Q (spawn H L inp)" "sleep_keeps H Q \<Longrightarrow> hub_op Q (spawnAndWake H L inp noWake nudge opts)"
proof -
  show one: "hub_op Q (spawn H L inp)" for H :: "'a host" and inp
    unfolding spawn_def randomId_def registerUnit_def Let_def by (intro stays pres shim_closed) (simp_all add: assms)
  show "sleep_keeps H Q \<Longrightarrow> hub_op Q (spawnAndWake H L inp noWake nudge opts)"
    unfolding spawnAndWake_def by (intro pres one)
qed

lemma presence [stays]:
  assumes "lib_hub L Q" "sleep_keeps H Q"
  shows "hub_op Q (spawnPresence H L nudge opts owner)"
proof (cases "a_home owner")
  case None
  show ?thesis unfolding spawnPresence_def None option.case by (intro pres)
next
  case (Some home)
  have "hub_op Q (spawnInHome H L owner current home opts)" for current
    unfolding spawnInHome_def settlePresence_def unbind_def setPresence_def
    by (intro stays pres assms)
  then have "hub_op Q (presenceOrSpawn H L owner home opts)" unfolding presenceOrSpawn_def by (intro pres)
  then show ?thesis unfolding spawnPresence_def ringPresence_def Some option.case
    by (intro stays pres pres_ringSpawnFirstTurn assms)
qed

lemma service_reads [stays]:
  "hub_op Q (loadService H ref name create)" "hub_op Q (resolveService H c ref name)"
  "hub_op Q (verifyOwnership H c ref name unit g)"
  unfolding loadService_def ensureEndpoint_def resolveService_def verifyOwnership_def Let_def by (intro stays pres)+

end

subsection \<open>Leases, for a fact about mail\<close>

context lease_bystander
begin

lemma lease_write [stays]: "hub_op Q (writeLease H l)"
  unfolding writeLease_def Let_def by (intro pres) (erule leases, assumption)

lemma service_bodies [stays]:
  "hub_op Q (acquireBody H c name inp s)" "hub_op Q (bindBody H c g token unit s)"
  "hub_op Q (releaseBody H c g token' unit' s)" "hub_op Q (handoffBody H c g from to s)"
  unfolding acquireBody_def bindBody_def releaseBody_def handoffBody_def Let_def by (intro stays pres)+

lemma transitions [stays]:
  assumes "sleep_keeps H Q"
  shows "hub_op Q (acquireService H c ref name inp)" "hub_op Q (bindService H c ref name g token unit)"
    "hub_op Q (releaseService H c ref name g token' unit')" "hub_op Q (handoffService H c ref name g from to)"
  unfolding acquireService_def bindService_def releaseService_def handoffService_def transition_def
  by (intro stays pres assms)+

end

subsection \<open>Mail, for a fact about leases\<close>

lemma hub_awaitReply:
  assumes "sleep_keeps H Q" "\<And>h mid m h'. Q h \<Longrightarrow> ackMessage (aw_me inp) mid h = Inr (m, h') \<Longrightarrow> Q h'"
  shows "hub_op Q (awaitReply H inp)"
proof -
  have "hub_op Q (hubStep (ack (aw_me inp) mid))" for mid
    by (auto simp: preserves_def hubStep_def ack_def split: sum.splits intro: assms(2))
  note step = this
  have "hub_op Q (await_loop H inp start timeout deadline n)" for start timeout deadline n
    by (induction n) (simp_all only: await_loop.simps, (intro pres step assms(1); assumption?)+)
  then show ?thesis unfolding awaitReply_def Let_def by (intro pres)
qed

context mail_bystander
begin

lemma mail_writes [stays]:
  "hub_op Q (hubWrite (putMessage i m))" "hub_op Q (hubWrite (deleteMessage i mid))" "hub_op Q (hubWrite (deleteMailbox i))"
  "hub_op Q (hubWrite (removeAgent i))" "hub_op Q (hubWrite (removeAgentData i))"
  unfolding deleteMessage_def deleteMailbox_def
  by (rule pres_hubWrite, erule posts deletes reaps, assumption)+

lemma mail_steps [stays]: "hub_op Q (hubStep (ack me mid))" "hub_op Q (hubStep (readAck me mid))"
  by (auto simp: preserves_def hubStep_def ack_def readAck_def split: sum.splits prod.splits if_splits option.splits intro: acks)

lemma sends [stays]: "hub_op Q (send H inp)"
  unfolding send_def Let_def by (intro stays pres)

lemma awaits [stays]: "sleep_keeps H Q \<Longrightarrow> hub_op Q (awaitReply H inp)"
  by (rule hub_awaitReply) (auto intro: acks)

lemma closing [stays]: "hub_op Q (decommission H L inp)"
  unfolding decommission_def reap_def by (intro stays pres keeps_hub_op [OF hub_teardown])

end

subsection \<open>The mailboxes\<close>

text \<open>A predicate of the hub that depends on the mailboxes alone.\<close>

abbreviation of_mail :: "((string, mailbox) dir \<Rightarrow> string \<Rightarrow> bool) \<Rightarrow> hub \<Rightarrow> bool" where
  "of_mail R \<equiv> \<lambda>h. R (h_inbox h) (h_root h)"

lemma store_inbox:
  "putAgent r h = Inr h' \<Longrightarrow> h_inbox h' = h_inbox h \<and> h_root h' = h_root h"
  "writeBrief i t h = Inr h' \<Longrightarrow> h_inbox h' = h_inbox h \<and> h_root h' = h_root h"
  "putProject p h = Inr h' \<Longrightarrow> h_inbox h' = h_inbox h \<and> h_root h' = h_root h"
  "putServiceLease l h = Inr h' \<Longrightarrow> h_inbox h' = h_inbox h \<and> h_root h' = h_root h"
  by (auto simp: putAgent_simp writeBrief_def putProject_simp putServiceLease_simp Let_def split: sum.splits if_splits)

interpretation mailboxes: lease_bystander "of_mail R" for R
  by unfold_locales
    (drule store_inbox | simp add: ensureMarker_def putPaneIndex_def removePaneIndex_def)+

subsection \<open>The fence of a service\<close>

lemma at_least_cong: "at_least p s F h \<Longrightarrow> hub_wf h' \<Longrightarrow> h_leases h' = h_leases h \<Longrightarrow> at_least p s F h'"
  unfolding at_least_def using fence_cong by metis

lemma store_leases:
  "putAgent r h = Inr h' \<Longrightarrow> h_leases h' = h_leases h" "putProject p h = Inr h' \<Longrightarrow> h_leases h' = h_leases h"
  "writeBrief i t h = Inr h' \<Longrightarrow> h_leases h' = h_leases h" "removeAgent i h = Inr h' \<Longrightarrow> h_leases h' = h_leases h"
  "removeAgentData i h = Inr h' \<Longrightarrow> h_leases h' = h_leases h"
  by (auto simp: putAgent_simp putProject_simp writeBrief_def removeAgent_simp removeAgentData_simp Let_def
      split: sum.splits if_splits)

lemma mail_leases:
  "putMessage i m h = Inr h' \<Longrightarrow> h_leases h' = h_leases h" "removeMailbox i h = Inr h' \<Longrightarrow> h_leases h' = h_leases h"
  "ackMessage i mid h = Inr (m, h') \<Longrightarrow> h_leases h' = h_leases h"
  "removeMessage i mid h = Inr h' \<Longrightarrow> h_leases h' = h_leases h"
  by (auto simp: putMessage_simp removeMailbox_simp ackMessage_Inr split: if_splits)
    (auto simp: removeMessage_def putMailbox_def Let_def split: sum.splits if_splits)

lemma at_least_wf: "at_least p s F h \<Longrightarrow> hub_wf h"
  by (simp add: at_least_def)

lemma hub_wf_shim: "hub_wf h \<Longrightarrow> hub_wf (h\<lparr>h_data := dput i d (h_data h)\<rparr>)"
  using wf_shim_closed by (simp add: shim_closed_def)

lemma at_least_shim: "at_least p s F h \<Longrightarrow> at_least p s F (h\<lparr>h_data := dput i d (h_data h)\<rparr>)"
  by (rule at_least_cong) (simp_all add: hub_wf_shim at_least_wf)

interpretation fence: mail_bystander "at_least p s F" for p s F
  by unfold_locales
    (erule at_least_shim at_least_locks, assumption?
     | (rule at_least_cong, assumption, drule at_least_wf,
        (erule (1) store_wf | simp),
        (erule store_leases mail_leases | simp add: ensureMarker_def putPaneIndex_def removePaneIndex_def)))+

end
