(* ===== verification/CliMail.thy ===== *)
theory CliMail
  imports HubClients UnitRuntime
begin

text \<open>
  The \<open>mail\<close> commands of \<open>cli.ts\<close>.
\<close>

subsection \<open>Send\<close>

record send_options =
  mo_to :: string
  mo_from :: "string option"
  mo_subject :: "string option"
  mo_body :: "string option"
  mo_bodyFile :: "string option"
  mo_thread :: "string option"
  mo_replyTo :: "string option"
  mo_nudge :: "bool option"

definition wakeFor :: "'x cli \<Rightarrow> send_options \<Rightarrow> string \<Rightarrow> string \<Rightarrow> ('x, wake_result) op" where
  "wakeFor C opts toId fromId =
     wakeRecipient (cl_host C) (sessionAdapter (cl_host C))
       (Some (spawnPresence (cl_host C) (cl_lib C) SPAWN_NUDGE_OPTS no_trust_opts))
       \<lparr>wk_toId = toId, wk_fromId = fromId, wk_noNudge = (mo_nudge opts = Some False)\<rparr> NUDGE_OPTS default_guard"

text \<open>The delivery: everything the command does before it wakes the recipient.\<close>

definition deliver :: "'x cli \<Rightarrow> send_options \<Rightarrow> ('x, string \<times> message) cmd" where
  "deliver C opts =
     andThen (case mo_from opts of Some i \<Rightarrow> ret i | None \<Rightarrow> requireSelf C) (\<lambda>fromId.
     andThen (inWorld (reads (\<lambda>w. resolveBody (cl_host C) (os_stdin (cl_host C)) (mo_body opts) (mo_bodyFile opts) (ext w)))) (\<lambda>body.
     andThen (inWorld (send (cl_host C) \<lparr>si_from = fromId, si_to = mo_to opts, si_subject = mo_subject opts, si_body = body,
         si_thread = mo_thread opts, si_replyTo = mo_replyTo opts\<rparr>)) (\<lambda>msg.
     ret (fromId, msg))))"

definition spawned_field :: "string option \<Rightarrow> (string \<times> string option) list" where
  "spawned_field u = (case truthy u of None \<Rightarrow> [] | Some i \<Rightarrow> [(''spawned'', Some i)])"

definition mailSend :: "'x cli \<Rightarrow> send_options \<Rightarrow> ('x, unit) cmd" where
  "mailSend C opts =
     andThen (deliver C opts) (\<lambda>(fromId, msg).
     andThen (inWorld (wakeFor C opts (m_to msg) fromId)) (\<lambda>wake.
     andThen (case wr_warning wake of None \<Rightarrow> ret () | Some x \<Rightarrow> say (DoorbellUnconfirmed x)) (\<lambda>_.
     emits C ([(''sent'', Some (m_id msg)), (''to'', Some (mo_to opts)), (''subject'', m_subject msg),
         (''rung'', Some (bool_text (wr_rung wake)))] @ spawned_field (wr_spawned wake))
       (SentJson msg (wr_rung wake) (truthy (wr_spawned wake))))))"

subsection \<open>Read\<close>

text \<open>The mailbox a command works on: a standing owner's, or the caller's own.\<close>

definition mailboxFor :: "'x cli \<Rightarrow> string option \<Rightarrow> ('x, string) cmd" where
  "mailboxFor C owner = (case truthy owner of
       Some handle \<Rightarrow> inWorld (hubRead (resolveOwnerMailbox handle))
     | None \<Rightarrow> requireSelf C)"

record inbox_options =
  io_unread :: bool
  io_from :: "string option"
  io_thread :: "string option"
  io_owner :: "string option"

definition emitInbox :: "'x cli \<Rightarrow> inbox_options \<Rightarrow> string \<Rightarrow> string \<Rightarrow> ('x, unit) cmd" where
  "emitInbox C opts meId readCmd =
     andThen (inWorld (hubRead (inbox \<lparr>iq_me = meId, iq_unread = io_unread opts, iq_from = io_from opts, iq_thread = io_thread opts\<rparr>)))
       (\<lambda>items.
     let unread = filter (\<lambda>i. \<not> snd i) items
     in andThen (emitsList C ''messages'' items
         [(''id'', \<lambda>i. Some (m_id (fst i))), (''from'', \<lambda>i. Some (m_fromHandle (fst i))),
          (''subject'', \<lambda>i. Some (defaultTo (m_subject (fst i)) [])), (''read'', \<lambda>i. Some (bool_text (snd i)))]
         (counted items ''messages ('' @ counted unread ''unread)'') (InboxJson items)) (\<lambda>_.
        case unread of [] \<Rightarrow> ret () | i # is \<Rightarrow> nextStep (readCmd @ '' '' @ m_id (fst i))))"

definition runInbox :: "'x cli \<Rightarrow> inbox_options \<Rightarrow> ('x, unit) cmd" where
  "runInbox C opts =
     andThen (touchSelf C) (\<lambda>_.
     andThen (mailboxFor C (io_owner opts)) (\<lambda>meId. emitInbox C opts meId ''cyberlegion mail read''))"

definition message_fields :: "message \<Rightarrow> (string \<times> string option) list" where
  "message_fields m = [(''id'', Some (m_id m)), (''from'', Some (m_fromHandle m)), (''subject'', m_subject m), (''body'', Some (m_body m))]"

definition mailRead :: "'x cli \<Rightarrow> string \<Rightarrow> bool \<Rightarrow> string option \<Rightarrow> ('x, unit) cmd" where
  "mailRead C msgId acks owner =
     andThen (mailboxFor C owner) (\<lambda>meId.
     if acks
     then andThen (inWorld (hubStep (readAck meId msgId))) (\<lambda>(msg, acked).
          emits C (message_fields msg @ [(''acked'', Some (bool_text acked))]) (AckedJson msg acked))
     else andThen (inWorld (hubRead (peek meId msgId))) (\<lambda>found.
          case found of
            None \<Rightarrow> throw (CliE (MessageNotHere msgId))
          | Some msg \<Rightarrow>
              andThen (emits C (message_fields msg) (MessageJson msg)) (\<lambda>_.
              nextStep (''cyberlegion mail ack '' @ m_id msg @
                (case truthy owner of None \<Rightarrow> [] | Some handle \<Rightarrow> '' --owner '' @ handle)))))"

definition mailAck :: "'x cli \<Rightarrow> string \<Rightarrow> string option \<Rightarrow> ('x, unit) cmd" where
  "mailAck C msgId owner =
     andThen (mailboxFor C owner) (\<lambda>meId.
     andThen (inWorld (hubStep (ack meId msgId))) (\<lambda>msg.
     emits C [(''acked'', Some (m_id msg)), (''from'', Some (m_fromHandle msg)), (''subject'', m_subject msg)] (MessageJson msg)))"

definition mailDelete :: "'x cli \<Rightarrow> string \<Rightarrow> ('x, unit) cmd" where
  "mailDelete C msgId =
     andThen (requireSelf C) (\<lambda>meId.
     andThen (inWorld (hubWrite (deleteMessage meId msgId))) (\<lambda>_.
     emits C [(''deleted'', Some msgId)] (FieldsJson [(''deleted'', Some (JStr msgId))])))"

subsection \<open>Wait\<close>

definition mailAwait :: "'x cli \<Rightarrow> string \<Rightarrow> string option \<Rightarrow> nat \<Rightarrow> nat \<Rightarrow> ('x, unit) cmd" where
  "mailAwait C thread from timeout maxWait =
     andThen (requireSelf C) (\<lambda>meId.
     andThen (inWorld (awaitReply (cl_host C) \<lparr>aw_me = meId, aw_thread = thread, aw_from = from,
         aw_timeoutMs = Some timeout, aw_maxWaitS = Some maxWait\<rparr>)) (\<lambda>outcome.
     case outcome of
       Matched item \<Rightarrow> emits C (message_fields (fst item)) (ItemJson item)
     | Waiting \<Rightarrow> say (StillWaiting thread maxWait)
     | TimedOut \<Rightarrow> throw (CliE (NoReply thread timeout))))"

text \<open>The harness hook: what it reads on standard input is recorded, a failure there is not an error.\<close>

definition mailHook :: "'x cli \<Rightarrow> string \<Rightarrow> ('x, unit) cmd" where
  "mailHook C event =
     andThen (touchSelf C) (\<lambda>_.
     andThen (if cl_tty C then ret ()
              else andThen (tryE (inWorld (recordConversation (cl_host C) (cl_sessionId C (os_stdin (cl_host C)))))) (\<lambda>_. ret ())) (\<lambda>_.
     andThen (inWorld (injectInbox (cl_host C) event)) (\<lambda>payload.
     case payload of None \<Rightarrow> ret () | Some (ev, ctx) \<Rightarrow> printDoc (Doc (JsonDoc (HookJson ev ctx))))))"

text \<open>
  \<open>mail watch\<close> prints each message as it comes, for that many rounds or until the process is interrupted
  after them.
\<close>

definition watch_doc :: "'x cli \<Rightarrow> inbox_item \<Rightarrow> cli_out" where
  "watch_doc C i = Doc (emit (cl_format C) \<lparr>ep_toon = toonObject (message_fields (fst i)), ep_json = ItemJson i\<rparr>)"

fun watchRounds :: "'x cli \<Rightarrow> watch_input \<Rightarrow> nat \<Rightarrow> string list \<Rightarrow> ('x, unit) cmd" where
  "watchRounds C inp 0 seen = ret ()"
| "watchRounds C inp (Suc n) seen =
     andThen (inWorld (hubRead (inbox (watchQuery inp)))) (\<lambda>items.
     case watch_round seen items of (new, seen') \<Rightarrow>
       andThen (forEach new (\<lambda>i. printDoc (watch_doc C i))) (\<lambda>_.
       if n = 0 then ret ()
       else andThen (inWorld (sleep (cl_host C) POLL_MS)) (\<lambda>_. watchRounds C inp n seen')))"

definition mailWatch :: "'x cli \<Rightarrow> string option \<Rightarrow> string option \<Rightarrow> nat \<Rightarrow> ('x, unit) cmd" where
  "mailWatch C thread from rounds =
     andThen (requireSelf C) (\<lambda>meId.
     let inp = \<lparr>wi_me = meId, wi_thread = thread, wi_from = from\<rparr>
     in andThen (inWorld (hubRead (inbox (watchQuery inp)))) (\<lambda>items.
        watchRounds C inp (max 1 rounds) (map (\<lambda>i. m_id (fst i)) items)))"

subsection \<open>The hub stays well formed\<close>

lemma wf_deliver [pres]: "wf_cmd (deliver C opts)"
  unfolding deliver_def by (intro pres)

lemma wf_mailboxFor [pres]: "wf_cmd (mailboxFor C owner)"
  unfolding mailboxFor_def by (intro pres)

lemma wf_ack [pres]: "wf_op (hubStep (ack me mid))" "wf_op (hubStep (readAck me mid))"
  by (rule wf_hubStep, auto simp: ack_def dest: ackMessage_wf readAck_wf)+

lemma wf_deleteMessage [pres]: "wf_op (hubWrite (deleteMessage me mid))"
  by (intro pres) (auto simp: deleteMessage_def dest: store_wf)

lemma wf_mailSend [pres]: "others_wf (cl_host C) \<Longrightarrow> lib_hub (cl_lib C) hub_wf \<Longrightarrow> wf_cmd (mailSend C opts)"
  unfolding mailSend_def wakeFor_def by (intro pres) (auto intro: pres)

lemma wf_emitInbox [pres]: "wf_cmd (emitInbox C io me readCmd)"
  unfolding emitInbox_def Let_def by (intro pres)

lemma wf_runInbox [pres]: "wf_cmd (runInbox C io)"
  unfolding runInbox_def by (intro pres)

lemma wf_mailRead [pres]: "wf_cmd (mailRead C mid acks owner)"
  unfolding mailRead_def by (intro pres)

lemma wf_mailAck [pres]: "wf_cmd (mailAck C mid owner)"
  unfolding mailAck_def by (intro pres)

lemma wf_mailDelete [pres]: "wf_cmd (mailDelete C mid)"
  unfolding mailDelete_def by (intro pres) (auto simp: deleteMessage_def dest: store_wf)

lemma wf_mailAwait [pres]: "others_wf (cl_host C) \<Longrightarrow> wf_cmd (mailAwait C thread from timeout maxWait)"
  unfolding mailAwait_def by (intro pres) (auto split: await_outcome.split intro: pres)

lemma wf_mailHook [pres]: "wf_cmd (mailHook C event)"
  unfolding mailHook_def by (intro pres)

lemma wf_watchRounds [pres]: "others_wf (cl_host C) \<Longrightarrow> wf_cmd (watchRounds C inp n seen)"
proof (induction n arbitrary: seen)
  case 0
  show ?case by (simp add: pres_ret)
next
  case (Suc n)
  then show ?case by (simp only: watchRounds.simps) (intro pres; simp)
qed

lemma wf_mailWatch [pres]: "others_wf (cl_host C) \<Longrightarrow> wf_cmd (mailWatch C thread from rounds)"
  unfolding mailWatch_def Let_def by (intro pres)

subsection \<open>What the commands print\<close>

lemma prints_mailbox [prints_rules]: "silent (mailboxFor C owner)" "silent (deliver C opts)"
  unfolding mailboxFor_def deliver_def by (intro prints_rules prints_seq; simp)+

lemma prints_mail:
  "prints {1} (mailSend C opts)" "prints {1} (runInbox C io)" "prints {1} (mailRead C mid acks owner)"
  "prints {1} (mailAck C mid owner)" "prints {1} (mailDelete C mid)"
  unfolding mailSend_def runInbox_def emitInbox_def mailRead_def mailAck_def mailDelete_def Let_def
  by (intro prints_rules prints_seq; simp)+

lemma prints_await_case:
  "(\<And>i. prints N (f i)) \<Longrightarrow> prints N g \<Longrightarrow> prints N k \<Longrightarrow>
     prints N (case outcome of Matched i \<Rightarrow> f i | Waiting \<Rightarrow> g | TimedOut \<Rightarrow> k)"
  by (simp split: await_outcome.split)

lemma prints_mailAwait: "prints {0, 1} (mailAwait C thread from timeout maxWait)"
  unfolding mailAwait_def by (intro prints_rules prints_await_case prints_seq; simp)

lemma prints_mailHook: "prints {0, 1} (mailHook C event)"
  unfolding mailHook_def by (intro prints_rules prints_seq; simp)

lemma forEach_print: "forEach ds (\<lambda>i. printDoc (f i)) s = (Inr (), s\<lparr>sh_out := sh_out s @ map f ds\<rparr>)"
  by (induction ds arbitrary: s) (simp_all add: ret_def andThen_Inr eff_simps)

text \<open>
  Watching prints each new message once, however it ends, and acts on the world as \<open>watch_loop\<close> does; a
  watch that ends normally has printed every message that its last look at the inbox found.
\<close>

definition passes :: "watch_input \<Rightarrow> inbox_item \<Rightarrow> bool" where
  "passes inp i \<longleftrightarrow> matches_from (wi_from inp) (fst i) \<and> matches_thread (wi_thread inp) (fst i)"

lemma inbox_passes: "inbox (watchQuery inp) h = Inr items \<Longrightarrow> i \<in> set items \<Longrightarrow> passes inp i"
  by (auto simp: inbox_def watchQuery_def passes_def Let_def split: sum.splits prod.splits)

lemma watchRounds_prints:
  "watchRounds C inp n seen s = (r, t) \<Longrightarrow>
   \<exists>new. sh_out t = sh_out s @ map (watch_doc C) new \<and> distinct (map (\<lambda>i. m_id (fst i)) new) \<and>
     set (map (\<lambda>i. m_id (fst i)) new) \<inter> set seen = {} \<and> (\<forall>i\<in>set new. passes inp i) \<and>
     watch_loop (cl_host C) inp n seen (sh_world s) = (map_sum id (\<lambda>_. new) r, sh_world t) \<and>
     (0 < n \<and> r = Inr () \<longrightarrow> (\<exists>items. inbox (watchQuery inp) (hub (sh_world t)) = Inr items \<and>
        set (map (\<lambda>i. m_id (fst i)) items) \<subseteq> set seen \<union> set (map (\<lambda>i. m_id (fst i)) new)))"
proof (induction n arbitrary: seen s)
  case 0
  then show ?case by (intro exI [of _ "[]"]) (auto simp: ret_def)
next
  case (Suc n)
  show ?case
  proof (cases "inbox (watchQuery inp) (hub (sh_world s))")
    case (Inl e)
    then show ?thesis using Suc.prems
      by (intro exI [of _ "[]"]) (auto simp: inWorld_def eff_simps andThen_def)
  next
    case (Inr items)
    obtain new seen' where round: "watch_round seen items = (new, seen')" by fastforce
    note spec = watch_round_spec [OF round]
    let ?s1 = "s\<lparr>sh_out := sh_out s @ map (watch_doc C) new\<rparr>"
    let ?s2 = "?s1\<lparr>sh_world := os_sleep (cl_host C) POLL_MS (sh_world s)\<rparr>"
    show ?thesis
    proof (cases "n = 0")
      case True
      then show ?thesis using Suc.prems Inr round spec inbox_passes [OF Inr]
        by (intro exI [of _ new]) (auto simp: inWorld_def eff_simps andThen_def forEach_print)
    next
      case False
      then have "watchRounds C inp n seen' ?s2 = (r, t)"
        using Suc.prems Inr round by (simp add: inWorld_def eff_simps andThen_def forEach_print)
      from Suc.IH [OF this] obtain later where later:
        "sh_out t = sh_out ?s2 @ map (watch_doc C) later" "distinct (map (\<lambda>i. m_id (fst i)) later)"
        "set (map (\<lambda>i. m_id (fst i)) later) \<inter> set seen' = {}" "\<forall>i\<in>set later. passes inp i"
        "watch_loop (cl_host C) inp n seen' (sh_world ?s2) = (map_sum id (\<lambda>_. later) r, sh_world t)"
        "0 < n \<and> r = Inr () \<longrightarrow> (\<exists>items. inbox (watchQuery inp) (hub (sh_world t)) = Inr items \<and>
          set (map (\<lambda>i. m_id (fst i)) items) \<subseteq> set seen' \<union> set (map (\<lambda>i. m_id (fst i)) later))"
        by blast
      have loop: "watch_loop (cl_host C) inp (Suc n) seen (sh_world s) = (map_sum id (\<lambda>_. new @ later) r, sh_world t)"
        using Inr round later(5) False by (cases r) (simp_all add: eff_simps andThen_def)
      have seen': "set seen' = set seen \<union> set (map (\<lambda>i. m_id (fst i)) new)" using spec by auto
      show ?thesis
      proof (intro exI [of _ "new @ later"] conjI)
        show "sh_out t = sh_out s @ map (watch_doc C) (new @ later)" using later(1) by simp
        show "distinct (map (\<lambda>i. m_id (fst i)) (new @ later))" using spec later(2,3) seen' by auto
        show "set (map (\<lambda>i. m_id (fst i)) (new @ later)) \<inter> set seen = {}" using spec later(3) seen' by auto
        show "\<forall>i\<in>set (new @ later). passes inp i" using spec later(4) inbox_passes [OF Inr] by auto
        show "0 < Suc n \<and> r = Inr () \<longrightarrow> (\<exists>items. inbox (watchQuery inp) (hub (sh_world t)) = Inr items \<and>
            set (map (\<lambda>i. m_id (fst i)) items) \<subseteq> set seen \<union> set (map (\<lambda>i. m_id (fst i)) (new @ later)))"
          using later(6) False unfolding seen' by (simp add: Un_assoc)
      qed (rule loop)
    qed
  qed
qed

lemma hub_watchRounds:
  assumes "sleep_keeps (cl_host C) Q"
  shows "hub_cmd Q (watchRounds C inp n seen)"
proof (induction n arbitrary: seen)
  case 0
  show ?case by (simp add: pres_ret)
next
  case (Suc n)
  with assms show ?case by (simp only: watchRounds.simps) (intro pres; simp)
qed

text \<open>
  C15. Watching the mail is complete, prints nothing twice and only observes. Once the caller is known and
  its inbox has been read, every message printed passes the filters and was not there at the start, none
  is printed twice, also when the watch ends in an error; a watch of any number of rounds that ends
  normally has printed every message of the inbox as it last stood; and nothing about the hub that the
  other processes leave true is changed by it, so that it acknowledges nothing.
\<close>

theorem mail_watch_once:
  assumes "requireSelf C s = (Inr me, s1)" and q: "q = watchQuery \<lparr>wi_me = me, wi_thread = thread, wi_from = from\<rparr>"
    and "inbox q (hub (sh_world s1)) = Inr seed" and "mailWatch C thread from n s = (r, t)"
  shows "(\<exists>new. sh_out t = sh_out s1 @ map (watch_doc C) new \<and> distinct (map (\<lambda>i. m_id (fst i)) new) \<and>
       set (map (\<lambda>i. m_id (fst i)) new) \<inter> set (map (\<lambda>i. m_id (fst i)) seed) = {} \<and>
       (\<forall>i\<in>set new. matches_from from (fst i) \<and> matches_thread thread (fst i)) \<and>
       (r = Inr () \<longrightarrow> (\<exists>items. inbox q (hub (sh_world t)) = Inr items \<and>
          set (map (\<lambda>i. m_id (fst i)) items) \<subseteq> set (map (\<lambda>i. m_id (fst i)) seed) \<union> set (map (\<lambda>i. m_id (fst i)) new)))) \<and>
     (\<forall>Q. sleep_keeps (cl_host C) Q \<longrightarrow> Q (hub (sh_world s1)) \<longrightarrow> Q (hub (sh_world t)))"
proof -
  let ?inp = "\<lparr>wi_me = me, wi_thread = thread, wi_from = from\<rparr>"
  have run: "watchRounds C ?inp (max 1 n) (map (\<lambda>i. m_id (fst i)) seed) s1 = (r, t)"
    using assms by (simp add: mailWatch_def andThen_Inr inWorld_def eff_simps Let_def)
  from watchRounds_prints [OF run] show ?thesis
    using preservesD [OF hub_watchRounds _ run] unfolding q by (auto simp: less_max_iff_disj passes_def)
qed

text \<open>A session of the unit \<open>b\<close>, for which one message arrives during the first sleep.\<close>

definition watch_cli :: "nat cli" where
  "watch_cli = demo_cli\<lparr>cl_host := mail_host\<lparr>os_env := [(''CYBERLEGION_AGENT_ID'', ''b'')]\<rparr>\<rparr>"

theorem mail_watch_once_witness:
  "\<exists>t. mailWatch watch_cli None None 3 (shell_at demo_world) = (Inr (), t) \<and>
     sh_out t = [watch_doc watch_cli (demo_message ''m1'', False)] \<and>
     (\<exists>new. sh_out t = map (watch_doc watch_cli) new \<and> distinct (map (\<lambda>i. m_id (fst i)) new))"
proof -
  let ?i = "\<lparr>wi_me = ''b'', wi_thread = None, wi_from = None\<rparr>"
  let ?s = "shell_at demo_world :: nat shell"
  have seed: "inbox (watchQuery ?i) (hub demo_world) = Inr []"
    by (simp add: watchQuery_def inbox_def listInbox_def path_defs demo_world_def empty_hub_def mailboxOf_def
        empty_mailbox_def readAll_def safe_id_def unsafe_char_def slash_def)
  have i2: "inbox (watchQuery ?i) hub2 = Inr [(demo_message ''m1'', False)]"
    by (simp add: watchQuery_def inbox_def listInbox_hub2 matches_from_def matches_thread_def)
  have z: "hub (os_sleep (cl_host watch_cli) ms w) = hub2" for ms w by (simp add: watch_cli_def mail_host_def)
  have me: "resolveSelfId (cl_host watch_cli) h = Some ''b''" for h
    by (simp add: watch_cli_def mail_host_def resolveSelfId_def currentPane_def env_get_def)
  have none: "getAgent ''b'' (hub demo_world) = Inr None"
    by (simp add: getAgent_simp demo_world_def empty_hub_def dget_def safe_id_def unsafe_char_def slash_def)
  have self: "requireSelf watch_cli ?s = (Inr ''b'', ?s)"
    by (simp add: requireSelf_def inWorld_def eff_simps andThen_def me bumpLastSeen_def none)
  have "\<exists>t. mailWatch watch_cli None None 3 ?s = (Inr (), t) \<and> sh_out t = [watch_doc watch_cli (demo_message ''m1'', False)]"
    by (simp add: mailWatch_def self Let_def andThen_def inWorld_def eff_simps seed i2 z eval_nat_numeral forEach_print)
  then obtain t where run: "mailWatch watch_cli None None 3 ?s = (Inr (), t)"
    and out: "sh_out t = [watch_doc watch_cli (demo_message ''m1'', False)]" by blast
  have seed': "inbox (watchQuery ?i) (hub (sh_world ?s)) = Inr []" using seed by simp
  from conjunct1 [OF mail_watch_once [OF self refl seed' run]]
  obtain new where "sh_out t = sh_out ?s @ map (watch_doc watch_cli) new" "distinct (map (\<lambda>i. m_id (fst i)) new)"
    by blast
  then have "\<exists>new. sh_out t = map (watch_doc watch_cli) new \<and> distinct (map (\<lambda>i. m_id (fst i)) new)" by auto
  with run out show ?thesis by blast
qed

subsection \<open>A sent message is there\<close>

context bystander
begin

lemma waking [stays]:
  assumes "lib_hub (cl_lib C) Q" "sleep_keeps (cl_host C) Q"
  shows "hub_op Q (wakeFor C opts toId fromId)"
  unfolding wakeFor_def
  by (intro pres_wakeRecipient) (use assms in \<open>auto intro: pres presence\<close>)

end

lemma wakeFor_returns:
  assumes "hub_wf (hub w)" "others_wf (cl_host C)" "lib_hub (cl_lib C) hub_wf"
  obtains k w' where "wakeFor C opts toId fromId w = (Inr k, w')"
proof -
  have "total_op (wakeFor C opts toId fromId)"
    unfolding wakeFor_def wakeRecipient_def option.case
    by (intro total wf_spawnPresence assms pres)
  then show thesis using assms(1) that by (rule total_opD) blast
qed

text \<open>A mailbox as it would be read in a hub of that root.\<close>

definition unread_in :: "message \<Rightarrow> (string, mailbox) dir \<Rightarrow> string \<Rightarrow> bool" where
  "unread_in m boxes root \<longleftrightarrow> m \<in> set (unreadOf (m_to m) ((empty_hub root)\<lparr>h_inbox := boxes\<rparr>))"

lemma unread_in_hub: "of_mail (unread_in m) h \<longleftrightarrow> m \<in> set (unreadOf (m_to m) h)"
proof -
  have "listInbox (m_to m) ((empty_hub (h_root h))\<lparr>h_inbox := h_inbox h\<rparr>) = listInbox (m_to m) h"
    by (rule listInbox_cong) (simp_all add: mailboxOf_def empty_hub_def)
  then show ?thesis by (simp add: unread_in_def unreadOf_def)
qed

lemma mail_requireSelf: "preserves (\<lambda>s. of_mail R (hub (sh_world s))) (requireSelf C)"
  unfolding requireSelf_def by (intro mailboxes.identity pres)

lemma deliver_keeps: "keeps sh_code (deliver C opts)" "keeps sh_err (deliver C opts)" "keeps sh_out (deliver C opts)"
proof -
  have w: "keeps sh_code (inWorld m)" "keeps sh_err (inWorld m)" "keeps sh_out (inWorld m)" for m :: "('x, 'b) op"
    by (auto simp: keeps_def inWorld_def split: prod.splits)
  show "keeps sh_code (deliver C opts)" "keeps sh_err (deliver C opts)" "keeps sh_out (deliver C opts)"
    unfolding deliver_def requireSelf_def by (intro frame w)+
qed

text \<open>What the delivery part leaves.\<close>

lemma deliver_outcome:
  assumes "hub_wf (hub (sh_world s))" "deliver C opts s = (r, t)"
  shows "case r of
      Inl e \<Rightarrow> \<forall>i. listInbox i (hub (sh_world t)) = listInbox i (hub (sh_world s))
    | Inr (fromId, m) \<Rightarrow> m_from m = fromId \<and> m \<in> set (unreadOf (m_to m) (hub (sh_world t))) \<and>
        (\<forall>j. j \<noteq> m_to m \<longrightarrow> listInbox j (hub (sh_world t)) = listInbox j (hub (sh_world s)))"
proof -
  let ?who = "case mo_from opts of Some i \<Rightarrow> ret i | None \<Rightarrow> requireSelf C"
  obtain r1 s1 where who: "?who s = (r1, s1)" by fastforce
  let ?same = "\<lambda>h. \<forall>i. listInbox i h = listInbox i (hub (sh_world s))"
  have same1: "?same (hub (sh_world s1))"
  proof
    fix i
    have "h_inbox (hub (sh_world s1)) = h_inbox (hub (sh_world s)) \<and> h_root (hub (sh_world s1)) = h_root (hub (sh_world s))"
    proof (cases "mo_from opts")
      case None
      then have "requireSelf C s = (r1, s1)" using who by simp
      then show ?thesis
        by (rule preservesD [OF mail_requireSelf [of "\<lambda>b r. b = h_inbox (hub (sh_world s)) \<and> r = h_root (hub (sh_world s))"], rotated]) simp
    qed (use who in \<open>simp add: ret_def\<close>)
    then show "listInbox i (hub (sh_world s1)) = listInbox i (hub (sh_world s))"
      by (intro listInbox_cong) (simp_all add: mailboxOf_def)
  qed
  have wf1: "hub_wf (hub (sh_world s1))"
  proof (cases "mo_from opts")
    case None
    then have "requireSelf C s = (r1, s1)" using who by simp
    then show ?thesis by (rule preservesD [OF wf_requireSelf, rotated]) (rule assms(1))
  qed (use who assms(1) in \<open>simp add: ret_def\<close>)
  show ?thesis
  proof (cases r1)
    case (Inl e)
    then have "r = Inl e" "t = s1" using assms(2) who by (simp_all add: deliver_def andThen_Inl)
    then show ?thesis using same1 by simp
  next
    case (Inr fromId)
    let ?body = "resolveBody (cl_host C) (os_stdin (cl_host C)) (mo_body opts) (mo_bodyFile opts) (ext (sh_world s1))"
    show ?thesis
    proof (cases ?body)
      case (Inl e)
      then have "r = Inl e" "t = s1" using assms(2) who \<open>r1 = Inr fromId\<close>
        by (simp_all add: deliver_def andThen_Inr andThen_Inl inWorld_def reads_def)
      then show ?thesis using same1 by simp
    next
      case (Inr body)
      let ?inp = "\<lparr>si_from = fromId, si_to = mo_to opts, si_subject = mo_subject opts, si_body = body,
          si_thread = mo_thread opts, si_replyTo = mo_replyTo opts\<rparr>"
      obtain q w where run: "send (cl_host C) ?inp (sh_world s1) = (q, w)" by fastforce
      have t: "r = map_sum id (Pair fromId) q" "t = s1\<lparr>sh_world := w\<rparr>"
        using assms(2) who Inr \<open>r1 = Inr fromId\<close> run
        by (cases q; simp add: deliver_def andThen_Inr andThen_Inl inWorld_def reads_def ret_def)+
      show ?thesis
        using send_outcome [OF wf1 run] t same1 by (cases q) (auto simp: unreadOf_def)
    qed
  qed
qed

text \<open>
  C30. Sending mail from the command line. When the delivery fails, the command fails with that error,
  prints nothing on standard output and leaves every mailbox as it was. When it succeeds, the message
  is unread in the recipient's mailbox and no other mailbox changed, and nothing that happens while the
  recipient is woken turns the command into a failure: it prints exactly one document, leaves the exit
  code alone, and the message is still unread unless another process took it, even when a presence is
  spawned into a standing owner's home.
\<close>

theorem mail_send_lands:
  assumes "hub_wf (hub (sh_world s))" "others_wf (cl_host C)" "\<And>P. lib_hub (cl_lib C) P"
    and "deliver C opts s = (r, t)"
  shows "case r of
      Inl e \<Rightarrow> mailSend C opts s = (Inl e, t) \<and> sh_out t = sh_out s \<and>
        (\<forall>i. listInbox i (hub (sh_world t)) = listInbox i (hub (sh_world s)))
    | Inr (fromId, m) \<Rightarrow>
        m_from m = fromId \<and> m \<in> set (unreadOf (m_to m) (hub (sh_world t))) \<and>
        (\<forall>j. j \<noteq> m_to m \<longrightarrow> listInbox j (hub (sh_world t)) = listInbox j (hub (sh_world s))) \<and>
        (\<exists>u d. mailSend C opts s = (Inr (), u) \<and> sh_out u = sh_out s @ [d] \<and> sh_code u = sh_code s \<and>
           (sleep_keeps (cl_host C) (\<lambda>h. m \<in> set (unreadOf (m_to m) h)) \<longrightarrow>
              m \<in> set (unreadOf (m_to m) (hub (sh_world u)))))"
proof (cases r)
  case (Inl e)
  then show ?thesis using deliver_outcome [OF assms(1,4)] keepsD [OF deliver_keeps(3) assms(4)] assms(4)
    by (simp add: mailSend_def andThen_Inl)
next
  case (Inr p)
  obtain fromId m where p: "p = (fromId, m)" by (cases p)
  have del: "deliver C opts s = (Inr (fromId, m), t)" using assms(4) Inr p by simp
  have wf: "hub_wf (hub (sh_world t))" using preservesD [OF wf_deliver assms(1) del] .
  obtain k w where wake: "wakeFor C opts (m_to m) fromId (sh_world t) = (Inr k, w)"
    using wakeFor_returns [OF wf assms(2) assms(3)] by metis
  define u where "u = snd (mailSend C opts s)"
  obtain d where u: "mailSend C opts s = (Inr (), u)" "sh_out u = sh_out t @ [d]" "sh_code u = sh_code t" "sh_world u = w"
    using del wake
    by (cases "wr_warning k")
      (simp_all add: u_def mailSend_def andThen_Inr inWorld_def emits_def emitDoc_def eff_simps)
  have kept: "m \<in> set (unreadOf (m_to m) (hub w))"
    if sleeps: "sleep_keeps (cl_host C) (\<lambda>h. m \<in> set (unreadOf (m_to m) h))" "m \<in> set (unreadOf (m_to m) (hub (sh_world t)))"
  proof -
    have "sleep_keeps (cl_host C) (of_mail (unread_in m))" using sleeps(1) by (simp add: unread_in_hub)
    from preservesD [OF mailboxes.waking [OF assms(3) this] _ wake] sleeps(2) show ?thesis by (simp add: unread_in_hub)
  qed
  show ?thesis using deliver_outcome [OF assms(1,4)] Inr p kept u keepsD [OF deliver_keeps(1) assms(4)]
      keepsD [OF deliver_keeps(3) assms(4)] by auto
qed

definition demo_mail :: send_options where
  "demo_mail = \<lparr>mo_to = ''a'', mo_from = Some ''zz'', mo_subject = None, mo_body = Some ''hi'', mo_bodyFile = None,
     mo_thread = Some ''t'', mo_replyTo = None, mo_nudge = Some False\<rparr>"

lemma demo_deliver:
  obtains m t where "deliver demo_cli demo_mail (shell_at (demo_world\<lparr>hub := hub1\<rparr>)) = (Inr (''zz'', m), t)"
proof -
  have z: "getAgent ''zz'' hub1 = Inr None"
    by (simp add: getAgent_simp hub1_def dget_def json_def safe_id_def unsafe_char_def slash_def)
  have "\<exists>m w'. send demo_host \<lparr>si_from = ''zz'', si_to = ''a'', si_subject = None, si_body = ''hi'', si_thread = Some ''t'',
      si_replyTo = None\<rparr> (demo_world\<lparr>hub := hub1\<rparr>) = (Inr m, w')"
    by (simp add: send_def resolveRecipient_def getAgent_hub1 z eff_simps andThen_def Let_def
        putMessage_simp safe_messageId unsafe_char_def slash_def safe_id_def [of "''a''"])
  then have "\<exists>m t. deliver demo_cli demo_mail (shell_at (demo_world\<lparr>hub := hub1\<rparr>)) = (Inr (''zz'', m), t)"
    by (auto simp: deliver_def demo_mail_def resolveBody_def andThen_def inWorld_def eff_simps)
  with that show thesis by blast
qed

theorem mail_send_lands_witness:
  "\<exists>u m. mailSend demo_cli demo_mail (shell_at (demo_world\<lparr>hub := hub1\<rparr>)) = (Inr (), u) \<and> length (sh_out u) = 1 \<and>
     sh_code u = 0 \<and> m_from m = ''zz'' \<and> m \<in> set (unreadOf (m_to m) (hub (sh_world u)))"
proof -
  let ?s = "shell_at (demo_world\<lparr>hub := hub1\<rparr>)"
  have wf: "hub_wf (hub (sh_world ?s))" by (simp add: hub1_wf)
  have others: "others_wf (cl_host demo_cli)" by (simp add: demo_host_good)
  have lib: "lib_hub (cl_lib demo_cli) P" for P by (simp add: lib_hub_slot)
  obtain m t where del: "deliver demo_cli demo_mail ?s = (Inr (''zz'', m), t)" by (rule demo_deliver)
  have calm: "sleep_keeps demo_host P" for P by (simp add: sleep_keeps_def)
  from mail_send_lands [OF wf others lib del] show ?thesis by (auto simp: calm)
qed

end
