(* ===== verification/CliUnit.thy ===== *)
theory CliUnit
  imports Cli StandingHome
begin

text \<open>
  The \<open>unit\<close> commands of \<open>cli.ts\<close>, and the top-level aliases \<open>spawn\<close> and \<open>who\<close>. The commands that change
  the set of units sync the participants of \<open>cynapse\<close> afterwards.
\<close>

subsection \<open>Register and claim\<close>

definition isStanding :: "agent \<Rightarrow> bool" where
  "isStanding a \<longleftrightarrow> a_kind a = Some StandingKind"

definition launch_text :: "home_launch \<Rightarrow> string" where
  "launch_text l = (case l of HomeAgent a \<Rightarrow> ''agent '' @ a | HomeHarness h \<Rightarrow> ''harness '' @ harness_name h)"

definition identity_fields :: "agent \<Rightarrow> (string \<times> string option) list" where
  "identity_fields a = [(''id'', Some (a_id a)), (''handle'', Some (a_handle a)), (''harness'', Some (harness_or ''-'' (a_harness a))),
     (''status'', Some (status_name (a_status a)))]"

definition runStanding :: "'x cli \<Rightarrow> string option \<Rightarrow> standing_home option option \<Rightarrow> ('x, unit) cmd" where
  "runStanding C handle home = (case truthy handle of
       None \<Rightarrow>
         andThen (inWorld (hubRead listAgents)) (\<lambda>agents.
         let standing = filter isStanding agents
         in emitsList C ''agents'' standing
              [(''id'', \<lambda>a. Some (a_id a)), (''handle'', \<lambda>a. Some (a_handle a)),
               (''harness'', \<lambda>a. Some (harness_or ''-'' (a_harness a))), (''status'', \<lambda>a. Some (status_name (a_status a)))]
              (counted standing ''standing'') (AgentsJson standing))
     | Some name \<Rightarrow>
         andThen (inWorld (hubRead listAgents)) (\<lambda>agents.
         let claimed = (\<exists>a\<in>set agents. a_handle a = name \<and> \<not> isStanding a \<and> a_status a \<noteq> Exited)
         in andThen (inWorld (registerStanding (cl_host C) name home)) (\<lambda>rec.
            andThen (if claimed then say (Said (''a live session already claims handle '' @ dquote @ name @ dquote)) else ret ()) (\<lambda>_.
            emits C ([(''id'', Some (a_id rec)), (''handle'', Some (a_handle rec)), (''kind'', map_option kind_name (a_kind rec)),
                (''status'', Some (status_name (a_status rec))),
                (''home'', Some (case a_home rec of None \<Rightarrow> ''none'' | Some h \<Rightarrow> sh_dir h))] @
                (case a_home rec of None \<Rightarrow> [] | Some h \<Rightarrow> [(''launch'', Some (launch_text (sh_launch h)))]))
              (AgentJson rec)))))"

definition unitRegister :: "'x cli \<Rightarrow> home_flags \<Rightarrow> ('x, unit) cmd" where
  "unitRegister C fl =
     syncsUnits C (andThen (inWorld (reads (\<lambda>w. resolveHomeFlags (cl_host C) (ext w) fl))) (\<lambda>home.
       if hf_standing fl then runStanding C (hf_handle fl) home
       else andThen (inWorld (register (cl_host C) (hf_handle fl) (hf_harness fl))) (\<lambda>rec.
            emits C (identity_fields rec) (AgentJson rec))))"

definition unitClaim :: "'x cli \<Rightarrow> string \<Rightarrow> bool \<Rightarrow> bool \<Rightarrow> ('x, unit) cmd" where
  "unitClaim C handle shows clears =
     (if shows
      then andThen (inWorld (hubRead (resolvePresence handle))) (\<lambda>presence.
           emits C [(''presence'', Some (case presence of None \<Rightarrow> ''none'' | Some u \<Rightarrow> a_id u))]
             (FieldsJson [(''presence'', jnull (map_option a_id presence))]))
      else if clears
      then andThen (inWorld (clearPresence (cl_host C) handle)) (\<lambda>_.
           emits C [(''presence'', Some ''none'')] (FieldsJson [(''presence'', Some JNull)]))
      else andThen (inWorld (claimPresence (cl_host C) handle)) (\<lambda>rec.
           emits C [(''owner'', Some (a_handle rec)), (''presence'', a_presence rec)]
             (FieldsJson [(''owner'', Some (JStr (a_handle rec))), (''presence'', map_option JStr (a_presence rec))])))"

definition unitWhoami :: "'x cli \<Rightarrow> ('x, unit) cmd" where
  "unitWhoami C =
     andThen (inWorld (hubGet (resolveSelfId (cl_host C)))) (\<lambda>me.
     case truthy me of
       None \<Rightarrow> throw (CliE NotRegistered)
     | Some i \<Rightarrow>
         andThen (inWorld (hubRead (getAgent i))) (\<lambda>found.
         case found of
           None \<Rightarrow> throw (CliE (NoAgentRecord i))
         | Some rec \<Rightarrow> emits C (identity_fields rec) (AgentJson rec)))"

subsection \<open>The roster\<close>

definition listWho :: "'x cli \<Rightarrow> bool \<Rightarrow> bool \<Rightarrow> ('x, unit) cmd" where
  "listWho C everyone recon =
     andThen (touchSelf C) (\<lambda>_.
     andThen (if recon then andThen (inWorld (reconcile (cl_host C) True)) (\<lambda>_. ret ()) else ret ()) (\<lambda>_.
     andThen (inWorld (hubRead listAgents)) (\<lambda>found.
     let agents = filter (\<lambda>a. everyone \<or> a_status a \<noteq> Exited) found
     in andThen (emitsList C ''units'' agents
          [(''id'', \<lambda>a. Some (a_id a)), (''handle'', \<lambda>a. Some (a_handle a)),
           (''harness'', \<lambda>a. Some (harness_or ''-'' (a_harness a))), (''status'', \<lambda>a. Some (status_name (a_status a))),
           (''pane'', \<lambda>a. Some (case a_pane a of None \<Rightarrow> ''-'' | Some p \<Rightarrow> pn_id p))]
          (counted agents ''units'') (AgentsJson agents)) (\<lambda>_.
        if agents = [] then nextStep ''cyberlegion unit register to join'' else ret ()))))"

definition runWho :: "'x cli \<Rightarrow> bool \<Rightarrow> bool \<Rightarrow> ('x, unit) cmd" where
  "runWho C everyone recon = (if recon then syncsUnits C (listWho C everyone True) else listWho C everyone False)"

definition unitPrune :: "'x cli \<Rightarrow> ('x, unit) cmd" where
  "unitPrune C =
     syncsUnits C (andThen (touchSelf C) (\<lambda>_.
       andThen (inWorld (prune (cl_host C))) (\<lambda>changed.
       emitsList C ''pruned'' changed [(''id'', \<lambda>a. Some (a_id a)), (''handle'', \<lambda>a. Some (a_handle a))]
         (counted changed ''pruned'') (AgentsJson changed))))"

subsection \<open>Spawn\<close>

definition HARNESS_DEFAULT :: string where
  "HARNESS_DEFAULT = ''(harness default)''"

definition reportedEffort :: "launched \<Rightarrow> string" where
  "reportedEffort l = (case truthy (ld_effortNotApplied l) of
       Some e \<Rightarrow> e @ '' (not applied)''
     | None \<Rightarrow> defaultTo (ld_effort l) HARNESS_DEFAULT)"

definition warnEffortNotApplied :: "spawn_input \<Rightarrow> launched \<Rightarrow> ('x, unit) cmd" where
  "warnEffortNotApplied inp l = (case truthy (ld_effortNotApplied l) of
       None \<Rightarrow> ret ()
     | Some level \<Rightarrow> say (EffortDropped (defaultTo (sp_harness inp) []) level (truthy (ld_model l))))"

text \<open>A quote in a word between single quotes.\<close>

definition uescape :: "ustr \<Rightarrow> ustr" where
  "uescape t = concat (map (\<lambda>c. if c = 39 then [39, 92, 39, 39] else [c]) t)"

definition reportTrustBlocked :: "agent \<Rightarrow> first_turn \<Rightarrow> ('x, unit) cmd" where
  "reportTrustBlocked a turn =
     (if \<not> trust_blocked (ft_trust turn) then ret ()
      else andThen (say (TrustStuck (ft_trust turn))) (\<lambda>_.
           andThen (case truthy (a_brief a) of
               None \<Rightarrow> ret ()
             | Some brief \<Rightarrow> say (NudgeTo (a_handle a) (uescape (spawnDoorbell brief)))) (\<lambda>_.
           setCode 1)))"

definition reportBaseFallback :: "spawn_base option \<Rightarrow> ('x, unit) cmd" where
  "reportBaseFallback base = (case Option.bind base sb_fallback of None \<Rightarrow> ret () | Some f \<Rightarrow> say (BaseFallback f))"

text \<open>
  The model listing is probed only for a cursor launch with a model and an effort: with nothing listed,
  such a launch reports the effort as not applied.
\<close>

definition listingNeeded :: "launched \<Rightarrow> spawn_input \<Rightarrow> bool" where
  "listingNeeded l inp \<longleftrightarrow>
     sp_harness inp = Some ''cursor'' \<and> truthy (ld_model l) \<noteq> None \<and> truthy (ld_effortNotApplied l) \<noteq> None"

definition spawnInputOf :: "'x cli \<Rightarrow> spawn_options \<Rightarrow> ('x, spawn_input \<times> bool \<times> launched) op" where
  "spawnInputOf C opts =
     andThen (reads (\<lambda>w. spawnCommandInput (cl_host C) opts [] (ext w))) (\<lambda>(inp, noWake, l).
     if \<not> listingNeeded l inp then ret (inp, noWake, l)
     else andThen (listCursorModels (cl_host C) (cl_stripVT C)) (\<lambda>listed.
          reads (\<lambda>w. spawnCommandInput (cl_host C) opts listed (ext w))))"

text \<open>Spawn and first turn, with what is reported of them on standard error.\<close>

definition spawnReported :: "'x cli \<Rightarrow> spawn_input \<Rightarrow> bool \<Rightarrow> ('x, spawn_result \<times> first_turn) cmd" where
  "spawnReported C inp noWake =
     andThen (inWorld (spawnAndWake (cl_host C) (cl_lib C) inp noWake SPAWN_NUDGE_OPTS no_trust_opts)) (\<lambda>(res, turn).
     andThen (case ft_warning turn of None \<Rightarrow> ret () | Some x \<Rightarrow> say (DoorbellUnconfirmed x)) (\<lambda>_.
     andThen (reportTrustBlocked (sr_agent res) turn) (\<lambda>_.
     andThen (reportBaseFallback (sr_base res)) (\<lambda>_. ret (res, turn)))))"

definition unitSpawn :: "'x cli \<Rightarrow> spawn_options \<Rightarrow> ('x, unit) cmd" where
  "unitSpawn C opts =
     syncsUnits C (andThen (touchSelf C) (\<lambda>_.
       andThen (inWorld (spawnInputOf C opts)) (\<lambda>(inp, noWake, l).
       andThen (warnEffortNotApplied inp l) (\<lambda>_.
       andThen (spawnReported C inp noWake) (\<lambda>(res, turn).
       let a = sr_agent res; model = defaultTo (ld_model l) HARNESS_DEFAULT; effort = reportedEffort l
       in andThen (emits C [(''spawned'', Some (a_id a)), (''handle'', Some (a_handle a)),
              (''harness'', map_option harness_name (a_harness a)), (''model'', Some model), (''effort'', Some effort),
              (''worktree'', map_option wt_root (a_worktree a)),
              (''reused'', Some (case sr_reused res of None \<Rightarrow> ''-'' | Some b \<Rightarrow> bool_text b)),
              (''base'', map_option sb_ref (sr_base res)), (''pane'', Some (sr_pane res)),
              (''rung'', Some (bool_text (ft_rung turn))), (''trust'', Some (trust_name (ft_trust turn)))]
            (SpawnedJson res turn model effort)) (\<lambda>_.
          nextStep (''cyberlegion unit read '' @ a_id a)))))))"

subsection \<open>One unit\<close>

definition unitClose :: "'x cli \<Rightarrow> string \<Rightarrow> bool \<Rightarrow> bool \<Rightarrow> ('x, unit) cmd" where
  "unitClose C ref force keep =
     syncsUnits C (andThen (touchSelf C) (\<lambda>_.
       andThen (inWorld (hubRead (resolveAgent ref))) (\<lambda>a.
       andThen (inWorld (decommission (cl_host C) (cl_lib C) \<lparr>di_id = a_id a, di_force = force, di_keepWorktree = keep\<rparr>)) (\<lambda>res.
       emits C [(''closed'', Some (a_id a)), (''worktree'', Some (defaultTo (dr_worktreeRoot res) ''-'')),
           (''retained'', Some (defaultTo (dr_retainedWorktree res) ''-'')), (''lease'', Some (defaultTo (dr_lease res) ''-'')),
           (''pane'', Some (defaultTo (dr_pane res) ''-''))] (ClosedJson res)))))"

definition unitStop :: "'x cli \<Rightarrow> string \<Rightarrow> ('x, unit) cmd" where
  "unitStop C ref =
     andThen (touchSelf C) (\<lambda>_.
     andThen (inWorld (stopUnit (cl_host C) None ref)) (\<lambda>res.
     andThen (emits C [(''stopped'', Some (a_id (st_agent res))), (''pane'', Some (defaultTo (st_pane res) ''-'')),
         (''verified'', Some (bool_text (st_verified res))), (''already'', Some (bool_text (st_alreadyStopped res)))]
       (FieldsJson [(''stopped'', Some (JStr (a_id (st_agent res)))), (''pane'', jnull (st_pane res)),
          (''verified'', Some (JBool (st_verified res))), (''alreadyStopped'', Some (JBool (st_alreadyStopped res)))])) (\<lambda>_.
     if st_alreadyStopped res then ret () else nextStep (''cyberlegion unit restart '' @ a_handle (st_agent res)))))"

definition unitRestart :: "'x cli \<Rightarrow> string \<Rightarrow> bool option \<Rightarrow> bool \<Rightarrow> ('x, unit) cmd" where
  "unitRestart C ref wake fresh =
     andThen (touchSelf C) (\<lambda>_.
     andThen (inWorld (restartUnit (cl_host C) None ref
         \<lparr>rp_noWake = (wake = Some False), rp_fresh = fresh, rp_nudge = SPAWN_NUDGE_OPTS\<rparr>)) (\<lambda>res.
     andThen (emits C [(''restarted'', Some (a_id (rr_agent res))), (''previous'', Some (defaultTo (rr_previousPane res) ''-'')),
         (''pane'', Some (rr_pane res)), (''resumed'', Some (bool_text (rr_resumed res))), (''rung'', Some (bool_text (rr_rung res)))]
       (RestartJson res)) (\<lambda>_.
     case rr_warning res of None \<Rightarrow> ret () | Some x \<Rightarrow> say (DoorbellUnconfirmed x))))"

definition unitRebind :: "'x cli \<Rightarrow> string \<Rightarrow> ('x, unit) cmd" where
  "unitRebind C ref =
     andThen (inWorld (rebindUnit (cl_host C) None ref)) (\<lambda>rec.
     emits C [(''rebound'', Some (a_id rec)), (''pane'', Some (case a_pane rec of None \<Rightarrow> ''-'' | Some p \<Rightarrow> pn_id p))]
       (PaneJson (a_id rec) (a_pane rec)))"

definition unitShow :: "'x cli \<Rightarrow> string \<Rightarrow> ('x, unit) cmd" where
  "unitShow C ref =
     andThen (touchSelf C) (\<lambda>_.
     andThen (inWorld (showUnit (cl_host C) None ref)) (\<lambda>v.
     emits C [(''id'', Some (rv_id v)), (''handle'', Some (rv_handle v)), (''harness'', Some (harness_or ''-'' (rv_harness v))),
         (''status'', Some (status_name (rv_status v))), (''liveness'', Some (liveness_name (rv_liveness v))),
         (''pane'', Some (case rv_pane v of None \<Rightarrow> ''-'' | Some (m, p) \<Rightarrow> m @ '':'' @ p)), (''cwd'', Some (rv_cwd v)),
         (''worktree'', Some (case rv_worktree v of None \<Rightarrow> ''-'' | Some wt \<Rightarrow> wt_root wt)),
         (''lastSeen'', Some (cl_iso C (rv_lastSeen v))),
         (''controls'', Some (defaultTo (truthy (Some (join_with '','' (map control_name (rv_controls v))))) ''-''))]
       (ViewJson v)))"

definition unitFocus :: "'x cli \<Rightarrow> string option \<Rightarrow> string option \<Rightarrow> string option \<Rightarrow> ('x, unit) cmd" where
  "unitFocus C ref repo branch =
     (if ref \<noteq> None \<and> (repo \<noteq> None \<or> branch \<noteq> None) then throw (CliE RefAndSelector)
      else andThen (touchSelf C) (\<lambda>_.
           andThen (inWorld (focusUnit (cl_host C) (case ref of Some r \<Rightarrow> ByRef r | None \<Rightarrow> BySelector repo branch))) (\<lambda>(a, pane).
           let focused = defaultTo ref (a_id a)
           in emits C [(''focused'', Some focused), (''pane'', Some pane)]
                (FieldsJson [(''ref'', Some (JStr focused)), (''pane'', Some (JStr pane))]))))"

definition unitNudge :: "'x cli \<Rightarrow> string \<Rightarrow> ustr \<Rightarrow> ('x, unit) cmd" where
  "unitNudge C ref message =
     andThen (touchSelf C) (\<lambda>_.
     andThen (inWorld (nudgeUnit (cl_host C) ref (Some message) NUDGE_OPTS default_guard)) (\<lambda>res.
     emits C [(''nudged'', Some ref), (''pane'', Some (ng_pane res))]
       (NudgedJson ref (ng_pane res) (ng_message res) (ng_resubmits res))))"

definition unitRead :: "'x cli \<Rightarrow> string \<Rightarrow> nat option \<Rightarrow> ('x, unit) cmd" where
  "unitRead C ref lines =
     andThen (touchSelf C) (\<lambda>_.
     andThen (inWorld (readUnit (cl_host C) ref lines)) (\<lambda>(a, pane, screen).
     printDoc (readCommandOutput (cl_format C) ref pane screen)))"

definition unitClear :: "'x cli \<Rightarrow> string \<Rightarrow> ('x, unit) cmd" where
  "unitClear C ref =
     andThen (touchSelf C) (\<lambda>_.
     andThen (inWorld (clearUnit (cl_host C) ref default_guard)) (\<lambda>(a, pane, command).
     emits C [(''cleared'', Some ref), (''pane'', Some pane), (''command'', Some command)]
       (FieldsJson [(''cleared'', Some (JStr ref)), (''pane'', Some (JStr pane)), (''command'', Some (JStr command))])))"

subsection \<open>The hub stays well formed\<close>

lemma wf_unitRegister [pres]: "others_wf (cl_host C) \<Longrightarrow> wf_cmd (unitRegister C fl)"
  unfolding unitRegister_def runStanding_def Let_def by (intro pres) auto

lemma wf_unitClaim [pres]: "others_wf (cl_host C) \<Longrightarrow> wf_cmd (unitClaim C handle shows clears)"
  unfolding unitClaim_def by (intro pres)

lemma wf_unitWhoami [pres]: "wf_cmd (unitWhoami C)"
  unfolding unitWhoami_def by (intro pres)

lemma wf_listWho [pres]: "wf_cmd (listWho C everyone recon)"
  unfolding listWho_def Let_def by (intro pres)

lemma wf_runWho [pres]: "others_wf (cl_host C) \<Longrightarrow> wf_cmd (runWho C everyone recon)"
  unfolding runWho_def by (intro pres) auto

lemma wf_unitPrune [pres]: "others_wf (cl_host C) \<Longrightarrow> wf_cmd (unitPrune C)"
  unfolding unitPrune_def by (intro pres) auto

lemma wf_spawnReported [pres]:
  "others_wf (cl_host C) \<Longrightarrow> lib_hub (cl_lib C) hub_wf \<Longrightarrow> wf_cmd (spawnReported C inp noWake)"
  unfolding spawnReported_def reportTrustBlocked_def reportBaseFallback_def by (intro pres) auto

lemma wf_spawnInputOf [pres]: "wf_op (spawnInputOf C opts)"
  unfolding spawnInputOf_def listCursorModels_def by (intro pres)

lemma wf_unitSpawn [pres]:
  "others_wf (cl_host C) \<Longrightarrow> lib_hub (cl_lib C) hub_wf \<Longrightarrow> wf_cmd (unitSpawn C opts)"
  unfolding unitSpawn_def warnEffortNotApplied_def Let_def by (intro pres) auto

lemma wf_unitClose [pres]: "others_wf (cl_host C) \<Longrightarrow> wf_cmd (unitClose C ref force keep)"
  unfolding unitClose_def by (intro pres) auto

lemma wf_unit [pres]:
  "wf_cmd (unitStop C ref)" "wf_cmd (unitShow C ref)" "wf_cmd (unitRebind C ref)"
  unfolding unitStop_def unitShow_def unitRebind_def by (intro pres)+

lemma wf_unitRestart [pres]: "others_wf (cl_host C) \<Longrightarrow> wf_cmd (unitRestart C ref wake fresh)"
  unfolding unitRestart_def by (intro pres) auto

lemma wf_unit_pane [pres]:
  "others_wf (cl_host C) \<Longrightarrow> wf_cmd (unitFocus C ref' repo branch)" "others_wf (cl_host C) \<Longrightarrow> wf_cmd (unitNudge C ref msg)"
  "others_wf (cl_host C) \<Longrightarrow> wf_cmd (unitRead C ref lines)" "others_wf (cl_host C) \<Longrightarrow> wf_cmd (unitClear C ref)"
  unfolding unitFocus_def unitNudge_def unitRead_def unitClear_def Let_def by (intro pres; auto)+

subsection \<open>What the commands print\<close>

lemma prints_sync:
  assumes "prints {1} action"
  shows "prints {1} action \<and> (\<forall>s e t. action s = (Inl e, t) \<longrightarrow> syncsUnits C action s = (Inl e, t))"
  using assms by (auto simp: syncsUnits_def andThen_Inl)

lemma prints_unit:
  "prints {1} (unitClaim C handle shows clears)" "prints {1} (unitWhoami C)" "prints {1} (listWho C everyone recon)"
  "prints {1} (unitStop C ref)" "prints {1} (unitRestart C ref wake fresh)" "prints {1} (unitRebind C ref)"
  "prints {1} (unitShow C ref)" "prints {1} (unitFocus C ref' repo branch)" "prints {1} (unitNudge C ref msg)"
  "prints {1} (unitRead C ref lines)" "prints {1} (unitClear C ref)"
  unfolding unitClaim_def unitWhoami_def listWho_def unitStop_def unitRestart_def unitRebind_def unitShow_def
    unitFocus_def unitNudge_def unitRead_def unitClear_def Let_def
  by (intro prints_rules prints_seq; simp)+

end
