(* ===== verification/CliService.thy ===== *)
theory CliService
  imports CliUnit InjectInbox Service
begin

text \<open>
  The \<open>project\<close> and \<open>service\<close> commands of \<open>cli.ts\<close>. Every refusal of a service operation ends the
  command, with the operation's error on standard error.
\<close>

subsection \<open>Projects\<close>

definition project_toon :: "project \<Rightarrow> (string \<times> string option) list" where
  "project_toon p = [(''id'', Some (p_id p)), (''name'', Some (p_name p)), (''root'', Some (p_root p))]"

definition emitProject :: "'x cli \<Rightarrow> project \<Rightarrow> ('x, unit) cmd" where
  "emitProject C rec =
     andThen (inWorld (projectAddress (cl_host C) (cl_load C) rec)) (\<lambda>address.
     let project = (case address of None \<Rightarrow> rec | Some a \<Rightarrow> rec\<lparr>p_subject := Some (pa_subject a)\<rparr>)
     in emits C (project_toon project @ (case address of None \<Rightarrow> []
            | Some a \<Rightarrow> [(''channel'', Some (case pa_channel a of None \<Rightarrow> ''none'' | Some ch \<Rightarrow> snd ch))]))
          (ProjectJson project address))"

definition projectRegister :: "'x cli \<Rightarrow> string option \<Rightarrow> ('x, unit) cmd" where
  "projectRegister C dir = andThen (inWorld (registerProject (cl_host C) dir)) (emitProject C)"

definition projectList :: "'x cli \<Rightarrow> ('x, unit) cmd" where
  "projectList C =
     andThen (inWorld (hubRead listProjects)) (\<lambda>projects.
     andThen (emitsList C ''projects'' projects
         [(''id'', \<lambda>p. Some (p_id p)), (''name'', \<lambda>p. Some (p_name p)), (''root'', \<lambda>p. Some (p_root p))]
         (counted projects ''projects'') (ProjectsJson projects)) (\<lambda>_.
     if projects = [] then nextStep ''cyberlegion project register to add the current repository'' else ret ()))"

definition projectShow :: "'x cli \<Rightarrow> string \<Rightarrow> ('x, unit) cmd" where
  "projectShow C ref = andThen (inWorld (resolveProject (cl_host C) ref)) (emitProject C)"

subsection \<open>A service, as it is printed\<close>

fun state_name :: "lease_state \<Rightarrow> string" where
  "state_name Vacant = ''vacant''"
| "state_name Reserved = ''reserved''"
| "state_name Owned = ''active''"

fun health_name :: "health \<Rightarrow> string" where
  "health_name HVacant = ''vacant''"
| "health_name HStarting = ''starting''"
| "health_name HExpired = ''expired''"
| "health_name HHealthy = ''healthy''"
| "health_name HUnhealthy = ''unhealthy''"

text \<open>The note of a view follows from the rest of it.\<close>

definition view_note :: "service_view \<Rightarrow> string option" where
  "view_note v = (case sv_health v of
       HVacant \<Rightarrow> None
     | HStarting \<Rightarrow> None
     | HExpired \<Rightarrow> Some ''the reservation expired without a bound owner; the next acquire takes over''
     | HUnhealthy \<Rightarrow> Some (if sv_owner v = None then ''the owner has no unit record'' else ''the owner session is gone'')
     | HHealthy \<Rightarrow>
         if sv_pane v then None
         else Some (''the owner resolves, but its session control is not recoverable from here '' @
           ''(no multiplexer pane'' @ dash @ ''e.g. a native subagent only its parent can drive)''))"

definition serviceFields :: "service_view \<Rightarrow> (string \<times> jvalue) list" where
  "serviceFields v =
     [(''project'', JStr (p_id (sv_project v))), (''service'', JStr (l_service (sv_lease v))),
      (''endpoint'', JStr (a_id (sv_endpoint v))), (''generation'', JNum (int (l_generation (sv_lease v)))),
      (''state'', JStr (state_name (l_state (sv_lease v)))),
      (''holder'', case l_holder (sv_lease v) of None \<Rightarrow> JNull | Some i \<Rightarrow> JStr i),
      (''health'', JStr (health_name (sv_health v))),
      (''control'', JStr (if sv_pane v then ''pane'' else ''none''))] @
     (case view_note v of None \<Rightarrow> [] | Some t \<Rightarrow> [(''note'', JStr t)])"

text \<open>\<open>String\<close> of a field, a missing one as a dash. The fields of a service are texts, numbers and null.\<close>

definition toonFields :: "(string \<times> jvalue) list \<Rightarrow> (string \<times> string option) list" where
  "toonFields fs = map (\<lambda>(k, v). (k, Some (case v of
       JStr t \<Rightarrow> t | JNum n \<Rightarrow> nat_str (nat n) | JBool b \<Rightarrow> bool_text b | _ \<Rightarrow> ''-''))) fs"

definition emitService :: "'x cli \<Rightarrow> (string \<times> jvalue) list \<Rightarrow> ('x, unit) cmd" where
  "emitService C fs = emits C (toonFields fs) (FieldsJson (map (\<lambda>(k, v). (k, Some v)) fs))"

text \<open>With one argument it is the service's name, and the project is the one of the current directory.\<close>

definition serviceTarget :: "string \<Rightarrow> string option \<Rightarrow> string \<times> string" where
  "serviceTarget one two = (case two of None \<Rightarrow> (''.'', one) | Some name \<Rightarrow> (one, name))"

definition unitOrSelf :: "'x cli \<Rightarrow> string option \<Rightarrow> ('x, string) cmd" where
  "unitOrSelf C ref = (case truthy ref of
       Some r \<Rightarrow> andThen (inWorld (hubRead (resolveAgent r))) (\<lambda>a. ret (a_id a))
     | None \<Rightarrow> requireSelf C)"

subsection \<open>The service commands\<close>

definition serviceResolve :: "'x cli \<Rightarrow> string \<Rightarrow> string option \<Rightarrow> ('x, unit) cmd" where
  "serviceResolve C one two = (case serviceTarget one two of (project, name) \<Rightarrow>
     andThen (inWorld (resolveService (cl_host C) None project name)) (\<lambda>v. emitService C (serviceFields v)))"

definition serviceAcquire :: "'x cli \<Rightarrow> string \<Rightarrow> string option \<Rightarrow> nat option \<Rightarrow> nat option \<Rightarrow> ('x, unit) cmd" where
  "serviceAcquire C one two ttl force = (case serviceTarget one two of (project, name) \<Rightarrow>
     andThen (inWorld (hubGet (resolveSelfId (cl_host C)))) (\<lambda>me.
     andThen (inWorld (acquireService (cl_host C) None project name \<lparr>ai_by = me, ai_ttlMs = ttl, ai_force = force\<rparr>)) (\<lambda>res.
     case res of
       AcqResolved l v \<Rightarrow> emitService C ((''outcome'', JStr ''resolved'') # serviceFields v)
     | AcqStarting l v \<Rightarrow>
         andThen (emitService C ((''outcome'', JStr ''starting'') # serviceFields v)) (\<lambda>_.
         say (ServiceStarting project name))
     | AcqReserved l v token \<Rightarrow>
         andThen (emitService C ((''outcome'', JStr ''reserved'') # serviceFields v @ (''token'', JStr token) #
             (case l_reservation l of None \<Rightarrow> [] | Some r \<Rightarrow> [(''expiresAt'', JStr (cl_iso C (rs_expiresAt r)))]))) (\<lambda>_.
         nextStep (''start the runtime, then: cyberlegion service bind '' @ project @ '' '' @ name @
           '' --generation '' @ nat_str (l_generation l) @ '' --token '' @ token)))))"

definition serviceBind :: "'x cli \<Rightarrow> string \<Rightarrow> string option \<Rightarrow> nat \<Rightarrow> string \<Rightarrow> string option \<Rightarrow> ('x, unit) cmd" where
  "serviceBind C one two g token ref = (case serviceTarget one two of (project, name) \<Rightarrow>
     andThen (unitOrSelf C ref) (\<lambda>unit.
     andThen (inWorld (bindService (cl_host C) None project name g token unit)) (\<lambda>v. emitService C (serviceFields v))))"

definition serviceRelease ::
    "'x cli \<Rightarrow> string \<Rightarrow> string option \<Rightarrow> nat \<Rightarrow> string option \<Rightarrow> string option \<Rightarrow> ('x, unit) cmd" where
  "serviceRelease C one two g token ref = (case serviceTarget one two of (project, name) \<Rightarrow>
     andThen (case truthy token of
         Some t \<Rightarrow> ret (Some t, None)
       | None \<Rightarrow> andThen (unitOrSelf C ref) (\<lambda>unit. ret (None, Some unit))) (\<lambda>(t, unit).
     andThen (inWorld (releaseService (cl_host C) None project name g t unit)) (\<lambda>v. emitService C (serviceFields v))))"

definition serviceHandoff ::
    "'x cli \<Rightarrow> string \<Rightarrow> string option \<Rightarrow> nat \<Rightarrow> string \<Rightarrow> string option \<Rightarrow> ('x, unit) cmd" where
  "serviceHandoff C one two g to from = (case serviceTarget one two of (project, name) \<Rightarrow>
     andThen (unitOrSelf C from) (\<lambda>owner.
     andThen (inWorld (hubRead (resolveAgent to))) (\<lambda>next.
     andThen (inWorld (handoffService (cl_host C) None project name g owner (a_id next))) (\<lambda>v.
     emitService C (serviceFields v)))))"

definition serviceVerify :: "'x cli \<Rightarrow> string \<Rightarrow> string option \<Rightarrow> nat \<Rightarrow> string option \<Rightarrow> ('x, unit) cmd" where
  "serviceVerify C one two g ref = (case serviceTarget one two of (project, name) \<Rightarrow>
     andThen (unitOrSelf C ref) (\<lambda>unit.
     andThen (inWorld (verifyOwnership (cl_host C) None project name unit g)) (\<lambda>v. emitService C (serviceFields v))))"

subsection \<open>Start\<close>

text \<open>
  \<open>startService\<close> with a launch that also reports on standard error: the same calls in the same order.
\<close>

definition startReported ::
    "'x cli \<Rightarrow> string \<Rightarrow> string \<Rightarrow> acquire_input \<Rightarrow> ('x, string \<times> 'w) cmd \<Rightarrow> ('x, start_result \<times> 'w option) cmd" where
  "startReported C project name inp launch =
     andThen (inWorld (acquireService (cl_host C) None project name inp)) (\<lambda>acquired.
     case acquired of
       AcqResolved l v \<Rightarrow> ret (StartResolved v, None)
     | AcqStarting l v \<Rightarrow> ret (StartStarting v, None)
     | AcqReserved l v token \<Rightarrow>
         andThen (tryE launch) (\<lambda>launched.
         case launched of
           Inl err \<Rightarrow>
             andThen (tryE (inWorld (releaseService (cl_host C) None project name (l_generation l) (Some token) None))) (\<lambda>_.
             throw err)
         | Inr (unit, warning) \<Rightarrow>
             andThen (tryE (inWorld (bindService (cl_host C) None project name (l_generation l) token unit))) (\<lambda>bound.
             case bound of
               Inr v' \<Rightarrow> ret (Started v' unit, Some warning)
             | Inl err \<Rightarrow>
                 if is_ownership_error err then throw (LaunchedNotOwner unit err) else throw err)))"

definition launchPeer :: "'x cli \<Rightarrow> spawn_input \<Rightarrow> bool \<Rightarrow> ('x, string \<times> wake_warning option) cmd" where
  "launchPeer C inp noWake =
     andThen (inWorld (spawnAndWake (cl_host C) (cl_lib C) inp noWake SPAWN_NUDGE_OPTS no_trust_opts)) (\<lambda>(res, turn).
     andThen (reportTrustBlocked (sr_agent res) turn) (\<lambda>_.
     andThen (reportBaseFallback (sr_base res)) (\<lambda>_.
     ret (a_id (sr_agent res), ft_warning turn))))"

definition serviceStart :: "'x cli \<Rightarrow> string \<Rightarrow> string option \<Rightarrow> nat option \<Rightarrow> spawn_options \<Rightarrow> ('x, unit) cmd" where
  "serviceStart C one two ttl opts = (case serviceTarget one two of (project, name) \<Rightarrow>
     syncsUnits C (andThen (touchSelf C) (\<lambda>_.
       andThen (inWorld (spawnInputOf C opts)) (\<lambda>(inp, noWake, l).
       andThen (warnEffortNotApplied inp l) (\<lambda>_.
       andThen (inWorld (hubGet (resolveSelfId (cl_host C)))) (\<lambda>me.
       andThen (startReported C project name \<lparr>ai_by = me, ai_ttlMs = ttl, ai_force = None\<rparr> (launchPeer C inp noWake)) (\<lambda>(res, warning).
       andThen (case Option.bind warning (\<lambda>x. x) of None \<Rightarrow> ret () | Some x \<Rightarrow> say (DoorbellUnconfirmed x)) (\<lambda>_.
       case res of
         StartResolved v \<Rightarrow> emitService C ((''outcome'', JStr ''resolved'') # serviceFields v)
       | Started v unit \<Rightarrow> emitService C ((''outcome'', JStr ''started'') # serviceFields v)
       | StartStarting v \<Rightarrow>
           andThen (emitService C ((''outcome'', JStr ''starting'') # serviceFields v)) (\<lambda>_.
           say (ServiceStarting project name))))))))))"

subsection \<open>The hub stays well formed\<close>

lemma pres_acquire_case [pres]:
  "(\<And>l v. preserves P (f l v)) \<Longrightarrow> (\<And>l v. preserves P (g l v)) \<Longrightarrow> (\<And>l v t. preserves P (k l v t)) \<Longrightarrow>
     preserves P (case r of AcqResolved l v \<Rightarrow> f l v | AcqStarting l v \<Rightarrow> g l v | AcqReserved l v t \<Rightarrow> k l v t)"
  by (simp split: acquire_result.split)

lemma pres_start_case [pres]:
  "(\<And>v. preserves P (f' v)) \<Longrightarrow> (\<And>v. preserves P (g' v)) \<Longrightarrow> (\<And>v u. preserves P (k' v u)) \<Longrightarrow>
     preserves P (case q of StartResolved v \<Rightarrow> f' v | StartStarting v \<Rightarrow> g' v | Started v u \<Rightarrow> k' v u)"
  by (simp split: start_result.split)

lemma wf_writeLease [pres]: "wf_op (writeLease H l)"
  unfolding writeLease_def by (intro pres) (auto dest: store_wf)

lemma wf_loadService [pres]: "wf_op (loadService H ref name create)"
  unfolding loadService_def by (intro pres)

lemma wf_transition: "others_wf H \<Longrightarrow> (\<And>s. wf_op (fn s)) \<Longrightarrow> wf_op (transition H ref name create fn)"
  unfolding transition_def by (intro pres) auto

lemma wf_service [pres]:
  "wf_op (resolveService H c ref name)" "wf_op (verifyOwnership H c ref name unit g)"
  "others_wf H \<Longrightarrow> wf_op (acquireService H c ref name inp)"
  "others_wf H \<Longrightarrow> wf_op (bindService H c ref name g token unit)"
  "others_wf H \<Longrightarrow> wf_op (releaseService H c ref name g token' unit')"
  "others_wf H \<Longrightarrow> wf_op (handoffService H c ref name g from to)"
proof -
  show "wf_op (resolveService H c ref name)" "wf_op (verifyOwnership H c ref name unit g)"
    unfolding resolveService_def verifyOwnership_def by (intro pres)+
  have bodies: "wf_op (acquireBody H c name inp s)" "wf_op (bindBody H c g token unit s)"
    "wf_op (releaseBody H c g token' unit' s)" "wf_op (handoffBody H c g from to s)" for s
    unfolding acquireBody_def bindBody_def releaseBody_def handoffBody_def by (intro pres)+
  show "wf_op (acquireService H c ref name inp)" if "others_wf H"
    unfolding acquireService_def by (rule wf_transition [OF that bodies(1)])
  show "wf_op (bindService H c ref name g token unit)" if "others_wf H"
    unfolding bindService_def by (rule wf_transition [OF that bodies(2)])
  show "wf_op (releaseService H c ref name g token' unit')" if "others_wf H"
    unfolding releaseService_def by (rule wf_transition [OF that bodies(3)])
  show "wf_op (handoffService H c ref name g from to)" if "others_wf H"
    unfolding handoffService_def by (rule wf_transition [OF that bodies(4)])
qed

lemma wf_emitService [pres]: "wf_cmd (emitService C fs)"
  unfolding emitService_def by (intro pres)

lemma wf_unitOrSelf [pres]: "wf_cmd (unitOrSelf C ref)"
  unfolding unitOrSelf_def by (intro pres)

lemma wf_emitProject [pres]: "wf_cmd (emitProject C p)"
  unfolding emitProject_def Let_def by (intro pres)

lemma wf_project_cmd [pres]: "wf_cmd (projectRegister C dir)" "wf_cmd (projectList C)" "wf_cmd (projectShow C ref)"
  unfolding projectRegister_def projectList_def projectShow_def by (intro pres)+

lemma wf_service_cmd [pres]:
  "wf_cmd (serviceResolve C one two)" "wf_cmd (serviceVerify C one two g ref)"
  "others_wf (cl_host C) \<Longrightarrow> wf_cmd (serviceAcquire C one two ttl force)"
  "others_wf (cl_host C) \<Longrightarrow> wf_cmd (serviceBind C one two g token ref)"
  "others_wf (cl_host C) \<Longrightarrow> wf_cmd (serviceRelease C one two g token' ref)"
  "others_wf (cl_host C) \<Longrightarrow> wf_cmd (serviceHandoff C one two g to from)"
  unfolding serviceResolve_def serviceVerify_def serviceAcquire_def serviceBind_def serviceRelease_def serviceHandoff_def
  by (intro pres; auto)+

lemma wf_launchPeer [pres]: "others_wf (cl_host C) \<Longrightarrow> lib_hub (cl_lib C) hub_wf \<Longrightarrow> wf_cmd (launchPeer C inp noWake)"
  unfolding launchPeer_def reportTrustBlocked_def reportBaseFallback_def by (intro pres) auto

lemma wf_startReported [pres]:
  "others_wf (cl_host C) \<Longrightarrow> wf_cmd launch \<Longrightarrow> wf_cmd (startReported C project name inp launch)"
  unfolding startReported_def by (intro pres; assumption?)

lemma wf_serviceStart [pres]:
  "others_wf (cl_host C) \<Longrightarrow> lib_hub (cl_lib C) hub_wf \<Longrightarrow> wf_cmd (serviceStart C one two ttl opts)"
  unfolding serviceStart_def warnEffortNotApplied_def by (intro pres; assumption?)

subsection \<open>What the commands print\<close>

lemma prints_acquire_case [prints_rules]:
  "(\<And>l v. prints N (f l v)) \<Longrightarrow> (\<And>l v. prints N (g l v)) \<Longrightarrow> (\<And>l v t. prints N (k l v t)) \<Longrightarrow>
     prints N (case r of AcqResolved l v \<Rightarrow> f l v | AcqStarting l v \<Rightarrow> g l v | AcqReserved l v t \<Rightarrow> k l v t)"
  by (simp split: acquire_result.split)

lemma prints_emitService [prints_rules]:
  "prints {1} (emitService C fs)" "(\<And>x. quiet (h x)) \<Longrightarrow> prints {1} (andThen (emitService C fs) h)"
  unfolding emitService_def by (rule prints_emits prints_result, assumption?)+

lemma silent_unitOrSelf [prints_rules]: "silent (unitOrSelf C ref)"
  unfolding unitOrSelf_def by (intro prints_rules prints_seq; simp)

lemma prints_emitProject [prints_rules]: "prints {1} (emitProject C p)"
  unfolding emitProject_def Let_def by (intro prints_rules prints_seq; simp)

lemma prints_project_cmd:
  "prints {1} (projectRegister C dir)" "prints {1} (projectList C)" "prints {1} (projectShow C ref)"
  unfolding projectRegister_def projectList_def projectShow_def by (intro prints_rules prints_seq; simp)+

lemma prints_service_cmd:
  "prints {1} (serviceResolve C one two)" "prints {1} (serviceVerify C one two g ref)"
  "prints {1} (serviceAcquire C one two ttl force)" "prints {1} (serviceBind C one two g token ref)"
  "prints {1} (serviceRelease C one two g token' ref)" "prints {1} (serviceHandoff C one two g to from)"
  unfolding serviceResolve_def serviceVerify_def serviceAcquire_def serviceBind_def serviceRelease_def serviceHandoff_def
  by (intro prints_rules prints_seq; simp)+

subsection \<open>Reporting changes nothing\<close>

text \<open>A command acts on the world as an operation does, and answers what it answers up to a projection.\<close>

definition acts_as :: "('a \<Rightarrow> 'b) \<Rightarrow> ('x, 'a) cmd \<Rightarrow> ('x, 'b) op \<Rightarrow> bool" where
  "acts_as f c m \<longleftrightarrow> (\<forall>s. (case c s of (r, t) \<Rightarrow> (map_sum id f r, sh_world t)) = m (sh_world s))"

named_theorems acts \<open>a command acts as an operation\<close>

lemma acts_as_ret [acts]: "f x = y \<Longrightarrow> acts_as f (ret x) (ret y)"
  by (simp add: acts_as_def ret_def)

lemma acts_as_throw [acts]: "acts_as f (throw e) (throw e)"
  by (simp add: acts_as_def throw_def)

lemma acts_as_inWorld [acts]: "acts_as id (inWorld m) m"
  by (auto simp: acts_as_def inWorld_def sum.map_id0 split: prod.splits)

lemma acts_as_run:
  assumes "acts_as f c m" "c s = (r, t)"
  shows "m (sh_world s) = (map_sum id f r, sh_world t)"
  using spec [OF assms(1) [unfolded acts_as_def], of s] assms(2) by simp

lemma acts_as_andThen:
  assumes "acts_as f c m" "\<And>x. acts_as g (d x) (n (f x))"
  shows "acts_as g (andThen c d) (andThen m n)"
  unfolding acts_as_def
proof
  fix s
  obtain r t where c: "c s = (r, t)" by fastforce
  note m = acts_as_run [OF assms(1) c]
  show "(case andThen c d s of (r, t) \<Rightarrow> (map_sum id g r, sh_world t)) = andThen m n (sh_world s)"
  proof (cases r)
    case (Inl e)
    then show ?thesis using c m by (simp add: andThen_Inl)
  next
    case (Inr x)
    obtain r2 t2 where d: "d x t = (r2, t2)" by fastforce
    show ?thesis using c m d acts_as_run [OF assms(2) d] Inr by (simp add: andThen_Inr)
  qed
qed

lemma acts_as_tryE:
  assumes "acts_as f c m"
  shows "acts_as (map_sum id f) (tryE c) (tryE m)"
  unfolding acts_as_def
proof
  fix s
  obtain r t where c: "c s = (r, t)" by fastforce
  show "(case tryE c s of (r, t) \<Rightarrow> (map_sum id (map_sum id f) r, sh_world t)) = tryE m (sh_world s)"
    using c acts_as_run [OF assms c] by (simp add: tryE_def)
qed

text \<open>A command that only reports.\<close>

lemma acts_as_say:
  assumes "\<And>s. \<exists>t. q s = (Inr u, t) \<and> sh_world t = sh_world s" "acts_as f (k u) m"
  shows "acts_as f (andThen q k) m"
  unfolding acts_as_def
proof
  fix s
  obtain t where q: "q s = (Inr u, t)" "sh_world t = sh_world s" using assms(1) by blast
  obtain r t2 where k: "k u t = (r, t2)" by fastforce
  show "(case andThen q k s of (r, t) \<Rightarrow> (map_sum id f r, sh_world t)) = m (sh_world s)"
    using acts_as_run [OF assms(2) k] q k by (simp add: andThen_Inr)
qed

lemma reports_only:
  "\<exists>t. reportTrustBlocked a turn s = (Inr (), t) \<and> sh_world t = sh_world s"
  "\<exists>t. reportBaseFallback base s = (Inr (), t) \<and> sh_world t = sh_world s"
  by (auto simp: reportTrustBlocked_def reportBaseFallback_def eff_simps andThen_def split: option.split)

lemma acts_launchPeer:
  "acts_as fst (launchPeer C inp noWake)
     (andThen (spawnAndWake (cl_host C) (cl_lib C) inp noWake SPAWN_NUDGE_OPTS no_trust_opts)
       (\<lambda>(res, turn). ret (a_id (sr_agent res))))"
  unfolding launchPeer_def
  by (rule acts_as_andThen [OF acts_as_inWorld])
    (auto intro!: acts_as_say [OF reports_only(1)] acts_as_say [OF reports_only(2)] acts_as_ret)

lemma acts_startReported:
  assumes "acts_as fst launch peer"
  shows "acts_as fst (startReported C project name inp launch)
     (startService (cl_host C) None project name inp (\<lambda>g e. peer))"
  unfolding startReported_def startService_def
proof (rule acts_as_andThen [OF acts_as_inWorld], goal_cases)
  case (1 r)
  show ?case
  proof (cases r)
    case (AcqReserved l v token)
    show ?thesis unfolding AcqReserved id_apply acquire_result.case
    proof (rule acts_as_andThen [OF acts_as_tryE [OF assms]], goal_cases)
      case (1 launched)
      show ?case
        by (cases launched) (auto intro!: acts_as_andThen [OF acts_as_tryE [OF acts_as_inWorld]] acts split: sum.split)
    qed
  qed (auto intro: acts)
qed

end
