(* ===== verification/CliAdmin.thy ===== *)
theory CliAdmin
  imports Cli InjectInbox
begin

text \<open>
  The commands \<open>agent\<close>, \<open>mux\<close>, \<open>attach\<close>, \<open>admin migrate\<close>, \<open>init\<close> and the bare invocation of \<open>cli.ts\<close>.
\<close>

subsection \<open>Agent definitions\<close>

definition INSTRUCTIONS_PREVIEW_LEN :: nat where
  "INSTRUCTIONS_PREVIEW_LEN = 200"

text \<open>The ellipsis is written as UTF-8.\<close>

definition truncated :: "string \<Rightarrow> bool \<Rightarrow> string" where
  "truncated t full =
     (if full \<or> length t \<le> INSTRUCTIONS_PREVIEW_LEN then t
      else take INSTRUCTIONS_PREVIEW_LEN t @ [CHR 0xE2, CHR 0x80, CHR 0xA6] @ '' ('' @ nat_str (length t) @ '' chars total, pass --full)'')"

definition DEFAULT_TEXT :: string where
  "DEFAULT_TEXT = ''(harness default)''"

definition agentDefFields :: "agent_def \<Rightarrow> (string \<times> string option) list" where
  "agentDefFields d =
     [(''name'', Some (df_name d)), (''description'', df_description d), (''model'', Some (defaultTo (df_model d) DEFAULT_TEXT)),
      (''effort'', df_effort d), (''harness'', Some (harness_or DEFAULT_TEXT (df_harness d))),
      (''warm'', Some (bool_text (df_warm d = Some True))), (''interactive'', Some (bool_text (df_interactive d = Some True))),
      (''path'', Some (df_path d))]"

definition agentDefOf :: "'x cli \<Rightarrow> string option \<Rightarrow> string option \<Rightarrow> string \<Rightarrow> ('x, agent_def) cmd" where
  "agentDefOf C name path dir =
     inWorld (reads (\<lambda>w. resolveAgentDef (cl_host C) (ext w)
       \<lparr>ri_name = name, ri_file = path, ri_searchRoots = [], ri_cwd = Some dir\<rparr>))"

definition agentList :: "'x cli \<Rightarrow> string \<Rightarrow> ('x, unit) cmd" where
  "agentList C dir =
     andThen (inWorld (reads (\<lambda>w. listAgentDefs (cl_host C) (ext w) (Some dir) []))) (\<lambda>defs.
     andThen (emitsList C ''defs'' defs
         [(''name'', \<lambda>d. Some (df_name d)), (''model'', \<lambda>d. Some (defaultTo (df_model d) ''-'')),
          (''harness'', \<lambda>d. Some (harness_or ''-'' (df_harness d)))]
         (counted defs ''agent definitions'') (DefsJson defs)) (\<lambda>_.
     if defs = [] then nextStep ''add a .md file under .agents/agents/ to define one'' else ret ()))"

definition agentShow :: "'x cli \<Rightarrow> string \<Rightarrow> string \<Rightarrow> bool \<Rightarrow> ('x, unit) cmd" where
  "agentShow C name dir full =
     andThen (agentDefOf C (Some name) None dir) (\<lambda>def.
     emits C (agentDefFields def @ [(''instructions'', Some (truncated (df_instructions def) full))])
       (DefJson (def\<lparr>df_instructions := truncated (df_instructions def) full\<rparr>)))"

definition agentResolve :: "'x cli \<Rightarrow> string option \<Rightarrow> string option \<Rightarrow> string \<Rightarrow> ('x, unit) cmd" where
  "agentResolve C name path dir =
     andThen (agentDefOf C name path dir) (\<lambda>def. emits C (agentDefFields def) (DefJson def))"

definition agentPath :: "'x cli \<Rightarrow> string \<Rightarrow> string \<Rightarrow> ('x, unit) cmd" where
  "agentPath C name dir =
     andThen (agentDefOf C (Some name) None dir) (\<lambda>def.
     emits C [(''path'', Some (df_path def))] (FieldsJson [(''path'', Some (JStr (df_path def)))]))"

subsection \<open>The multiplexer\<close>

text \<open>The probe of \<open>cyber-mux\<close> answers a name, and may answer a pane and how it was found.\<close>

definition muxDoctor ::
    "'x cli \<Rightarrow> (env \<Rightarrow> 'x \<Rightarrow> string option \<times> string option) \<Rightarrow> ('x, unit) cmd" where
  "muxDoctor C found =
     (let H = cl_host C
      in andThen (inWorld (detectHarness H None)) (\<lambda>detected.
         andThen (inWorld (extGet (\<lambda>x. (mx_probe H (normalizeMuxEnv (os_env H)) x, found (normalizeMuxEnv (os_env H)) x)))) (\<lambda>(mux, pane, via).
         andThen (inWorld (hubGet (\<lambda>h. (h_root h, defaultTo (resolveSelfId H h) ''-'')))) (\<lambda>(root, selfId).
         andThen (inWorld (extGet (\<lambda>x. if detected = Some Claude
             then rule_name (permissionRuleState H (claudeUserSettingsFile H (os_env H)) x) else ''n/a''))) (\<lambda>rule.
         let harness = harness_or ''unknown'' detected
         in andThen (emits C [(''harness'', Some harness), (''mux'', Some mux), (''pane'', pane), (''via'', via), (''hubRoot'', Some root),
               (''selfId'', Some selfId), (''permissionRule'', Some rule)]
             (FieldsJson [(''harness'', Some (JStr harness)), (''mux'', Some (JStr mux)), (''pane'', map_option JStr pane),
               (''via'', map_option JStr via), (''hubRoot'', Some (JStr root)), (''selfId'', Some (JStr selfId)),
               (''permissionRule'', Some (JStr rule))])) (\<lambda>_.
            andThen (if rule = ''missing'' then say AllowCliHint else ret ()) (\<lambda>_.
            if mux \<noteq> ''none'' then say (PinMux mux (truthy pane)) else ret ())))))))"

definition muxMode :: "'x cli \<Rightarrow> ('x, unit) cmd" where
  "muxMode C =
     andThen (tryE (inWorld (sessionAdapter (cl_host C)))) (\<lambda>found.
     let mode = (case found of Inl e \<Rightarrow> ''none'' | Inr A \<Rightarrow> ad_name A)
     in emits C [(''mode'', Some mode)] (FieldsJson [(''mode'', Some (JStr mode))]))"

subsection \<open>Attach\<close>

definition emitMainPane :: "'x cli \<Rightarrow> string option \<Rightarrow> ('x, unit) cmd" where
  "emitMainPane C pane = emits C [(''mainPane'', Some (defaultTo pane ''none''))] (FieldsJson [(''mainPane'', jnull pane)])"

definition attach :: "'x cli \<Rightarrow> bool \<Rightarrow> bool \<Rightarrow> ('x, unit) cmd" where
  "attach C shows clears =
     (if shows then andThen (inWorld (hubGet getMainPane)) (emitMainPane C)
      else if clears then andThen (inWorld (setMainPane (cl_host C) None)) (\<lambda>_. emitMainPane C None)
      else (case currentPane (cl_host C) of
          None \<Rightarrow> throw (CliE NoMainPane)
        | Some (m, pane) \<Rightarrow> andThen (inWorld (setMainPane (cl_host C) (Some pane))) (\<lambda>_. emitMainPane C (Some pane))))"

subsection \<open>Migrate\<close>

text \<open>An effect on a hub that may end in the middle.\<close>

definition hubEff :: "(error, hub, 'a) eff \<Rightarrow> ('x, 'a) op" where
  "hubEff m w = (case m (hub w) of (r, h) \<Rightarrow> (r, w\<lparr>hub := h\<rparr>))"

text \<open>The hub of the world is the one at \<open>--to\<close>; the source is another one.\<close>

definition adminMigrate :: "'x cli \<Rightarrow> string \<Rightarrow> ('x, unit) cmd" where
  "adminMigrate C from =
     andThen (inWorld (hubEff (migrateStore (cl_hubAt C (resolve_path (os_cwd (cl_host C)) from))))) (\<lambda>res.
     emits C [(''agents'', Some (nat_str (mg_agents res))), (''messages'', Some (nat_str (mg_messages res))),
         (''briefs'', Some (nat_str (mg_briefs res)))] (MigratedJson res))"

subsection \<open>Init\<close>

definition permissionOf :: "'x cli \<Rightarrow> harness \<Rightarrow> bool \<Rightarrow> ('x, string option) op" where
  "permissionOf C harness allowCli =
     (let H = cl_host C; settings = claudeUserSettingsFile H (os_env H)
      in if harness \<noteq> Claude then ret None
         else if allowCli then andThen (extEff (addPermissionRule H settings)) (\<lambda>a. ret (Some (added_name a)))
         else extGet (\<lambda>x. Some (rule_name (permissionRuleState H settings x))))"

definition initHub :: "'x cli \<Rightarrow> string option \<Rightarrow> string \<Rightarrow> string option \<Rightarrow> bool \<Rightarrow> ('x, unit) cmd" where
  "initHub C agent dir pin allowCli =
     andThen (inWorld (detectHarness (cl_host C) agent)) (\<lambda>detected.
     case detected of None \<Rightarrow> throw (CliE HarnessUndetected) | Some harness \<Rightarrow>
     if allowCli \<and> harness \<noteq> Claude then throw (CliE (AllowCliNotClaude (harness_name harness))) else
     andThen (inWorld (permissionOf C harness allowCli)) (\<lambda>rule.
     andThen (inWorld (extEff (install (cl_host C) harness dir pin))) (\<lambda>results.
     andThen (emitsList C ''hooks'' results
         [(''event'', \<lambda>r. Some (ir_event r)), (''status'', \<lambda>r. Some (status_text (ir_status r))), (''file'', \<lambda>r. Some (ir_file r))]
         (''harness '' @ harness_name harness @ '', '' @ nat_str (length results) @ '' hooks'' @
           (case rule of None \<Rightarrow> [] | Some t \<Rightarrow> '', permission rule '' @ t))
         (HooksJson harness results rule)) (\<lambda>_.
     andThen (if rule = Some ''missing'' then say AllowCliHint else ret ()) (\<lambda>_.
     andThen (inWorld (hubRead listAgents)) (\<lambda>agents.
     if (\<exists>a\<in>set agents. a_kind a = Some StandingKind) then ret ()
     else andThen (nextStep ''cyberlegion unit register --standing --handle <name> to mint the durable owner inbox'') (\<lambda>_.
          nextStep ''cyberlegion attach to bind this pane as the owner live presence'')))))))"

subsection \<open>The bare invocation\<close>

definition bareStatus :: "'x cli \<Rightarrow> ('x, unit) cmd" where
  "bareStatus C =
     andThen (touchSelf C) (\<lambda>_.
     andThen (inWorld (hubGet (resolveSelfId (cl_host C)))) (\<lambda>i.
     andThen (case truthy i of None \<Rightarrow> ret None | Some me \<Rightarrow> inWorld (hubRead (getAgent me))) (\<lambda>rec.
     andThen (case truthy i of None \<Rightarrow> ret []
         | Some me \<Rightarrow> inWorld (hubRead (inbox \<lparr>iq_me = me, iq_unread = True, iq_from = None, iq_thread = None\<rparr>))) (\<lambda>items.
     andThen (inWorld (hubRead listAgents)) (\<lambda>agents.
     let unread = length items; units = length (filter (\<lambda>a. a_status a \<noteq> Exited) agents)
     in andThen (emits C [(''self'', Some (case rec of Some r \<Rightarrow> a_handle r | None \<Rightarrow> defaultTo i ''-'')),
            (''harness'', Some (harness_or ''-'' (Option.bind rec a_harness))), (''unread'', Some (nat_str unread)), (''units'', Some (nat_str units))]
          (StatusJson (map_option (\<lambda>r. (a_id r, a_handle r, a_harness r)) rec) unread units)) (\<lambda>_.
        if truthy i = None then nextStep ''cyberlegion unit register to join''
        else if 0 < unread then nextStep ''cyberlegion mail inbox --unread'' else ret ()))))))"

subsection \<open>The hub stays well formed\<close>

lemma pres_hubEff: "preserves P m \<Longrightarrow> preserves (\<lambda>w. P (hub w)) (hubEff m)"
  by (auto simp: preserves_def hubEff_def split: prod.splits)

lemma pres_writes: "(\<And>h h'. P h \<Longrightarrow> f h = Inr h' \<Longrightarrow> P h') \<Longrightarrow> preserves P (writes f)"
  by (auto simp: preserves_def writes_def split: sum.split)

lemma wf_migrateOne: "preserves hub_wf (migrateOne src rec acc)"
  unfolding migrateOne_def fileAll_def by (intro pres pres_writes) (auto dest: store_wf)

lemma wf_migrateStore [pres]: "wf_op (hubEff (migrateStore src))"
  by (rule pres_hubEff) (unfold migrateStore_def, intro pres wf_migrateOne, simp)

lemma wf_agentDefOf [pres]: "wf_cmd (agentDefOf C name path dir)"
  unfolding agentDefOf_def by (intro pres)

lemma wf_agent_cmd [pres]:
  "wf_cmd (agentList C dir)" "wf_cmd (agentShow C name dir full)" "wf_cmd (agentResolve C name' path dir)"
  "wf_cmd (agentPath C name dir)"
  unfolding agentList_def agentShow_def agentResolve_def agentPath_def by (intro pres)+

lemma wf_mux_cmd [pres]: "wf_cmd (muxDoctor C found)" "wf_cmd (muxMode C)"
  unfolding muxDoctor_def muxMode_def sessionAdapter_def Let_def by (intro pres)+

lemma wf_attach [pres]: "others_wf (cl_host C) \<Longrightarrow> wf_cmd (attach C shows clears)"
  unfolding attach_def emitMainPane_def by (intro pres; assumption?)

lemma wf_adminMigrate [pres]: "wf_cmd (adminMigrate C from)"
  unfolding adminMigrate_def by (intro pres)

lemma wf_initHub [pres]: "wf_cmd (initHub C agent dir pin allowCli)"
  unfolding initHub_def permissionOf_def Let_def by (intro pres)

lemma wf_bareStatus [pres]: "wf_cmd (bareStatus C)"
  unfolding bareStatus_def Let_def by (intro pres)

subsection \<open>What the commands print\<close>

lemma silent_agentDefOf [prints_rules]: "silent (agentDefOf C name path dir)"
  unfolding agentDefOf_def by (intro prints_rules) simp

lemma prints_emitMainPane [prints_rules]: "prints {1} (emitMainPane C pane)"
  unfolding emitMainPane_def by (rule prints_emits)

lemma prints_admin:
  "prints {1} (agentList C dir)" "prints {1} (agentShow C name dir full)" "prints {1} (agentResolve C name' path dir)"
  "prints {1} (agentPath C name dir)" "prints {1} (muxDoctor C found)" "prints {1} (muxMode C)"
  "prints {1} (attach C shows clears)" "prints {1} (adminMigrate C from)" "prints {1} (bareStatus C)"
  unfolding agentList_def agentShow_def agentResolve_def agentPath_def muxDoctor_def muxMode_def attach_def
    adminMigrate_def bareStatus_def Let_def
  by (intro prints_rules prints_seq; simp)+

end
