(* ===== verification/CliCommand.thy ===== *)
theory CliCommand
  imports CliMail CliUnit CliService CliAdmin
begin

text \<open>
  The command line as a whole: every command of \<open>cli.ts\<close> with its arguments and options, what it does on a shell, and the process that runs it. The top-level \<open>spawn\<close>, \<open>send\<close>, \<open>inbox\<close>
  and \<open>who\<close> are the same actions as those of their groups.
\<close>

datatype command =
    CRegister home_flags
  | CClaim string bool bool
  | CWhoami
  | CWho bool bool
  | CPrune
  | CSpawn spawn_options
  | CClose string bool bool
  | CStop string
  | CRestart string "bool option" bool
  | CRebind string
  | CShow string
  | CFocus "string option" "string option" "string option"
  | CNudge string ustr
  | CRead string "nat option"
  | CClear string
  | CProjectRegister "string option"
  | CProjectList
  | CProjectShow string
  | CServiceResolve string "string option"
  | CServiceAcquire string "string option" "nat option" "nat option"
  | CServiceBind string "string option" nat string "string option"
  | CServiceRelease string "string option" nat "string option" "string option"
  | CServiceHandoff string "string option" nat string "string option"
  | CServiceVerify string "string option" nat "string option"
  | CServiceStart string "string option" "nat option" spawn_options
  | CMailSend send_options
  | CMailInbox inbox_options
  | CMailRead string bool "string option"
  | CMailAck string "string option"
  | CMailDelete string
  | CMailAwait string "string option" nat nat
  | CMailWatch "string option" "string option" nat
  | CMailHook string
  | CAgentList string
  | CAgentShow string string bool
  | CAgentResolve "string option" "string option" string
  | CAgentPath string string
  | CMuxDoctor
  | CMuxMode
  | CAttach bool bool
  | CMigrate string
  | CInit "string option" string "string option" bool
  | CBare

text \<open>\<open>found\<close> is what the multiplexer probe adds to its name: a pane, and how it was found.\<close>

fun action :: "'x cli \<Rightarrow> (env \<Rightarrow> 'x \<Rightarrow> string option \<times> string option) \<Rightarrow> command \<Rightarrow> ('x, unit) cmd" where
  "action C found (CRegister fl) = unitRegister C fl"
| "action C found (CClaim handle shows clears) = unitClaim C handle shows clears"
| "action C found CWhoami = unitWhoami C"
| "action C found (CWho everyone recon) = runWho C everyone recon"
| "action C found CPrune = unitPrune C"
| "action C found (CSpawn opts) = unitSpawn C opts"
| "action C found (CClose ref force keep) = unitClose C ref force keep"
| "action C found (CStop ref) = unitStop C ref"
| "action C found (CRestart ref wake fresh) = unitRestart C ref wake fresh"
| "action C found (CRebind ref) = unitRebind C ref"
| "action C found (CShow ref) = unitShow C ref"
| "action C found (CFocus ref' repo branch) = unitFocus C ref' repo branch"
| "action C found (CNudge ref msg) = unitNudge C ref msg"
| "action C found (CRead ref lines) = unitRead C ref lines"
| "action C found (CClear ref) = unitClear C ref"
| "action C found (CProjectRegister dir) = projectRegister C dir"
| "action C found CProjectList = projectList C"
| "action C found (CProjectShow ref) = projectShow C ref"
| "action C found (CServiceResolve one two) = serviceResolve C one two"
| "action C found (CServiceAcquire one two ttl force) = serviceAcquire C one two ttl force"
| "action C found (CServiceBind one two g token ref') = serviceBind C one two g token ref'"
| "action C found (CServiceRelease one two g token' ref') = serviceRelease C one two g token' ref'"
| "action C found (CServiceHandoff one two g to from) = serviceHandoff C one two g to from"
| "action C found (CServiceVerify one two g ref') = serviceVerify C one two g ref'"
| "action C found (CServiceStart one two ttl opts) = serviceStart C one two ttl opts"
| "action C found (CMailSend opts) = mailSend C opts"
| "action C found (CMailInbox opts) = runInbox C opts"
| "action C found (CMailRead mid acks owner) = mailRead C mid acks owner"
| "action C found (CMailAck mid owner) = mailAck C mid owner"
| "action C found (CMailDelete mid) = mailDelete C mid"
| "action C found (CMailAwait thread from timeout maxWait) = mailAwait C thread from timeout maxWait"
| "action C found (CMailWatch thread' from rounds) = mailWatch C thread' from rounds"
| "action C found (CMailHook event) = mailHook C event"
| "action C found (CAgentList dir) = agentList C dir"
| "action C found (CAgentShow name dir full) = agentShow C name dir full"
| "action C found (CAgentResolve name' path dir) = agentResolve C name' path dir"
| "action C found (CAgentPath name dir) = agentPath C name dir"
| "action C found CMuxDoctor = muxDoctor C found"
| "action C found CMuxMode = muxMode C"
| "action C found (CAttach shows clears) = attach C shows clears"
| "action C found (CMigrate from) = adminMigrate C from"
| "action C found (CInit agent dir pin allowCli) = initHub C agent dir pin allowCli"
| "action C found CBare = bareStatus C"

text \<open>Processes one after another on the same machine, each with a fresh standard output.\<close>

definition process :: "'x cli \<Rightarrow> (env \<Rightarrow> 'x \<Rightarrow> string option \<times> string option) \<Rightarrow> command \<Rightarrow> 'x world \<Rightarrow> 'x shell" where
  "process C found c w = runCli (action C found c) (shell_at w)"

subsection \<open>The hub\<close>

lemmas wf_commands =
  wf_unitRegister wf_unitClaim wf_unitWhoami wf_runWho wf_unitPrune wf_unitSpawn wf_unitClose wf_unit wf_unitRestart
  wf_unit_pane wf_project_cmd wf_service_cmd wf_serviceStart wf_mailSend wf_runInbox wf_mailRead wf_mailAck
  wf_mailDelete wf_mailAwait wf_mailWatch wf_mailHook wf_agent_cmd wf_mux_cmd wf_attach wf_adminMigrate wf_initHub wf_bareStatus

lemma wf_action:
  assumes "others_wf (cl_host C)" "lib_hub (cl_lib C) hub_wf"
  shows "wf_cmd (action C found c)"
  by (cases c) (simp_all only: action.simps assms wf_commands)

subsection \<open>Standard output\<close>

text \<open>
  \<open>outputs N M\<close>: \<open>N\<close> is how many documents a success may print and \<open>M\<close> how many a failure may.
\<close>

definition outputs :: "nat set \<Rightarrow> nat set \<Rightarrow> ('x, 'a) cmd \<Rightarrow> bool" where
  "outputs N M c \<longleftrightarrow> (\<forall>s. case c s of (r, t) \<Rightarrow>
     (\<exists>ds. sh_out t = sh_out s @ ds \<and> length ds \<in> (case r of Inl e \<Rightarrow> M | Inr a \<Rightarrow> N)))"

lemma outputsD:
  assumes "outputs N M c" "c s = (r, t)"
  obtains ds where "sh_out t = sh_out s @ ds" "length ds \<in> (case r of Inl e \<Rightarrow> M | Inr a \<Rightarrow> N)"
  using spec [OF assms(1) [unfolded outputs_def], of s] assms(2) by auto

lemma prints_outputs:
  assumes "prints N c"
  shows "outputs N {0} c"
  unfolding outputs_def
proof
  fix s
  obtain r t where c: "c s = (r, t)" by fastforce
  show "case c s of (r, t) \<Rightarrow> \<exists>ds. sh_out t = sh_out s @ ds \<and> length ds \<in> (case r of Inl e \<Rightarrow> {0} | Inr a \<Rightarrow> N)"
    by (rule printsE [OF assms c]) (use c in auto)
qed

lemma outputs_mono:
  assumes "outputs N M c" "N \<subseteq> N'" "M \<subseteq> M'"
  shows "outputs N' M' c"
  unfolding outputs_def
proof
  fix s
  obtain r t where c: "c s = (r, t)" by fastforce
  show "case c s of (r, t) \<Rightarrow>
      \<exists>ds. sh_out t = sh_out s @ ds \<and> length ds \<in> (case r of Inl e \<Rightarrow> M' | Inr a \<Rightarrow> N')"
    by (rule outputsD [OF assms(1) c]) (use assms(2,3) c in \<open>cases r; auto\<close>)
qed

lemma outputs_seq:
  assumes "silent m" "\<And>x. outputs N M (f x)" "0 \<in> M"
  shows "outputs N M (andThen m f)"
  unfolding outputs_def
proof
  fix s
  obtain r t where m: "m s = (r, t)" by fastforce
  show "case andThen m f s of (r, t) \<Rightarrow> \<exists>ds. sh_out t = sh_out s @ ds \<and> length ds \<in> (case r of Inl e \<Rightarrow> M | Inr a \<Rightarrow> N)"
  proof (rule printsE [OF assms(1) m])
    fix e assume "r = Inl e" "sh_out t = sh_out s"
    then show ?thesis using m assms(3) by (simp add: andThen_Inl)
  next
    fix a ds assume a: "r = Inr a" "length ds \<in> {0}" "sh_out t = sh_out s @ ds"
    obtain r2 u where f: "f a t = (r2, u)" by fastforce
    show ?thesis by (rule outputsD [OF assms(2) f]) (use a m f in \<open>simp add: andThen_Inr\<close>)
  qed
qed

lemma outputs_then:
  assumes "prints {1} m" "\<And>x. silent (f x)"
  shows "outputs {1} {0, 1} (andThen m f)"
  unfolding outputs_def
proof
  fix s
  obtain r t where m: "m s = (r, t)" by fastforce
  show "case andThen m f s of (r, t) \<Rightarrow>
      \<exists>ds. sh_out t = sh_out s @ ds \<and> length ds \<in> (case r of Inl e \<Rightarrow> {0, 1} | Inr a \<Rightarrow> {1})"
  proof (rule printsE [OF assms(1) m])
    fix e assume "r = Inl e" "sh_out t = sh_out s"
    then show ?thesis using m by (simp add: andThen_Inl)
  next
    fix a ds assume a: "r = Inr a" "length ds \<in> {1}" "sh_out t = sh_out s @ ds"
    obtain r2 u where f: "f a t = (r2, u)" by fastforce
    show ?thesis by (rule printsE [OF assms(2) f]) (use a m f in \<open>simp_all add: andThen_Inr\<close>)
  qed
qed

lemma outputs_sync: "prints {1} m \<Longrightarrow> outputs {1} {0, 1} (syncsUnits C m)"
  unfolding syncsUnits_def by (rule outputs_then, assumption, intro prints_rules prints_seq; simp)

lemma outputs_cases:
  "outputs N M m \<Longrightarrow> outputs N M n \<Longrightarrow> outputs N M (if b then m else n)"
  "outputs N M m \<Longrightarrow> (\<And>x. outputs N M (g x)) \<Longrightarrow> outputs N M (case a of None \<Rightarrow> m | Some x \<Rightarrow> g x)"
  "(\<And>x y. outputs N M (h x y)) \<Longrightarrow> outputs N M (case p of (x, y) \<Rightarrow> h x y)"
  by (simp_all split: option.split prod.split)

lemma prints_start_case:
  "(\<And>v. prints N (f v)) \<Longrightarrow> (\<And>v. prints N (g v)) \<Longrightarrow> (\<And>v u. prints N (k v u)) \<Longrightarrow>
     prints N (case q of StartResolved v \<Rightarrow> f v | StartStarting v \<Rightarrow> g v | Started v u \<Rightarrow> k v u)"
  by (simp split: start_result.split)

lemma silent_steps_unit [prints_rules]:
  "quiet (warnEffortNotApplied inp l)" "quiet (reportTrustBlocked a turn)" "quiet (reportBaseFallback base)"
  unfolding warnEffortNotApplied_def reportTrustBlocked_def reportBaseFallback_def by (intro prints_rules)+

lemma silent_warn [prints_rules]:
  "silent (warnEffortNotApplied inp l)" "silent (reportTrustBlocked a turn)" "silent (reportBaseFallback base)"
  by (rule quiet_silent, rule silent_steps_unit)+

lemma silent_spawnReported [prints_rules]: "silent (spawnReported C inp noWake)" "silent (launchPeer C inp noWake)"
  unfolding spawnReported_def launchPeer_def by (intro prints_rules prints_seq; simp)+

lemma silent_tryE_silent: "silent m \<Longrightarrow> silent (tryE m)"
  unfolding prints_def
proof (intro allI)
  fix s assume m: "\<forall>s. case m s of (Inl e, s') \<Rightarrow> sh_out s' = sh_out s
      | (Inr a, s') \<Rightarrow> (\<exists>ds. length ds \<in> {0} \<and> sh_out s' = sh_out s @ ds)"
  show "case tryE m s of (Inl e, s') \<Rightarrow> sh_out s' = sh_out s
      | (Inr a, s') \<Rightarrow> (\<exists>ds. length ds \<in> {0} \<and> sh_out s' = sh_out s @ ds)"
    using spec [OF m, of s] by (auto simp: tryE_def split: prod.splits sum.splits)
qed

lemma silent_startReported: "silent launch \<Longrightarrow> silent (startReported C project name inp launch)"
  unfolding startReported_def
  by (intro prints_rules prints_seq silent_tryE_silent; (simp split: sum.split prod.split)?)
    (auto intro!: prints_rules prints_seq split: sum.split)

lemma prints_runStanding: "prints {1} (runStanding C handle home)"
  unfolding runStanding_def Let_def by (intro prints_rules prints_seq; simp)

lemma outputs_unitRegister: "outputs {1} {0, 1} (unitRegister C fl)"
  unfolding unitRegister_def by (rule outputs_sync) (intro prints_rules prints_seq prints_runStanding; simp)

lemma outputs_runWho: "outputs {1} {0, 1} (runWho C everyone recon)"
  unfolding runWho_def
  by (intro outputs_cases outputs_sync prints_unit outputs_mono [OF prints_outputs [OF prints_unit(3)]]) auto

lemma outputs_unitPrune: "outputs {1} {0, 1} (unitPrune C)"
  unfolding unitPrune_def by (rule outputs_sync) (intro prints_rules prints_seq; simp)

lemma outputs_unitSpawn: "outputs {1} {0, 1} (unitSpawn C opts)"
  unfolding unitSpawn_def Let_def by (rule outputs_sync) (intro prints_rules prints_seq; simp)

lemma outputs_unitClose: "outputs {1} {0, 1} (unitClose C ref force keep)"
  unfolding unitClose_def by (rule outputs_sync) (intro prints_rules prints_seq; simp)

lemma outputs_serviceStart: "outputs {1} {0, 1} (serviceStart C one two ttl opts)"
  unfolding serviceStart_def
  by (intro outputs_cases outputs_sync) (intro prints_rules prints_seq prints_start_case silent_startReported; simp)

lemma outputs_initHub: "outputs {1} {0, 1} (initHub C agent dir pin allowCli)"
proof -
  have thrown: "outputs {1} {0, 1} (throw e)" for e :: error
    by (rule outputs_mono [OF prints_outputs [OF prints_throw [of "{1}"]]]) auto
  show ?thesis unfolding initHub_def
    by (intro outputs_seq outputs_cases thrown outputs_then prints_emits
        prints_rules prints_seq) auto
qed

subsection \<open>The exit code\<close>

text \<open>Nothing but a spawn stuck at its trust prompt sets the exit code of a command that succeeds.\<close>

abbreviation code0 :: "('x, 'a) cmd \<Rightarrow> bool" where
  "code0 c \<equiv> preserves (\<lambda>s. sh_code s = 0) c"

lemma code0_steps [pres]:
  "code0 (inWorld m)" "code0 (printDoc d)" "code0 (say n)" "code0 (nextStep t)" "code0 (emitDoc f t j)"
  "code0 (emits C fs j)" "code0 (emitsList C nm items ks summary j)" "code0 (touchSelf C)" "code0 (emitService C fs')"
  by (auto simp: preserves_def inWorld_def eff_simps nextStep_def emits_def emitsList_def emitDoc_def touchSelf_def
      emitService_def split: prod.splits)

lemma code0_shared [pres]:
  "code0 (requireSelf C)" "code0 (mailboxFor C owner)" "code0 (unitOrSelf C ref)" "code0 (agentDefOf C nm path dir)"
  "code0 (deliver C opts)" "code0 (emitProject C p)" "code0 act \<Longrightarrow> code0 (syncsUnits C act)"
  unfolding requireSelf_def mailboxFor_def unitOrSelf_def agentDefOf_def deliver_def emitProject_def syncsUnits_def Let_def
  by (intro pres; assumption?)+

lemma code0_unit:
  "code0 (unitRegister C fl)" "code0 (unitClaim C handle shows clears)" "code0 (unitWhoami C)" "code0 (runWho C everyone recon)"
  "code0 (unitPrune C)" "code0 (unitClose C ref force keep)" "code0 (unitStop C ref)" "code0 (unitRestart C ref wake fresh)"
  "code0 (unitRebind C ref)" "code0 (unitShow C ref)" "code0 (unitFocus C ref' repo branch)" "code0 (unitNudge C ref msg)"
  "code0 (unitRead C ref lines)" "code0 (unitClear C ref)"
  unfolding unitRegister_def runStanding_def unitClaim_def unitWhoami_def runWho_def listWho_def unitPrune_def unitClose_def
    unitStop_def unitRestart_def unitRebind_def unitShow_def unitFocus_def unitNudge_def unitRead_def unitClear_def Let_def
  by (intro pres)+

lemma code0_mail:
  "code0 (mailSend C opts)" "code0 (runInbox C io)" "code0 (mailRead C mid acks owner)" "code0 (mailAck C mid owner)"
  "code0 (mailDelete C mid)" "code0 (mailHook C event)"
  unfolding mailSend_def runInbox_def emitInbox_def mailRead_def mailAck_def mailDelete_def mailHook_def Let_def
  by (intro pres)+

lemma code0_watchRounds [pres]: "code0 (watchRounds C inp n seen)"
  by (induction n arbitrary: seen) (simp_all only: watchRounds.simps, (intro pres; assumption?)+)

lemma code0_watch: "code0 (mailWatch C thread' from rounds)"
  unfolding mailWatch_def Let_def by (intro pres)

lemma code0_await: "code0 (mailAwait C thread from timeout maxWait)"
  unfolding mailAwait_def by (intro pres) (auto split: await_outcome.split intro: pres)

lemma code0_service:
  "code0 (projectRegister C dir)" "code0 (projectList C)" "code0 (projectShow C ref)"
  "code0 (serviceResolve C one two)" "code0 (serviceVerify C one two g ref')" "code0 (serviceAcquire C one two ttl force)"
  "code0 (serviceBind C one two g token ref')" "code0 (serviceRelease C one two g token' ref')"
  "code0 (serviceHandoff C one two g to from)"
  unfolding projectRegister_def projectList_def projectShow_def serviceResolve_def serviceVerify_def serviceAcquire_def
    serviceBind_def serviceRelease_def serviceHandoff_def
  by (intro pres)+

lemma code0_admin:
  "code0 (agentList C dir)" "code0 (agentShow C name dir full)" "code0 (agentResolve C name' path dir)" "code0 (agentPath C name dir)"
  "code0 (muxDoctor C found)" "code0 (muxMode C)" "code0 (attach C shows clears)" "code0 (adminMigrate C from)"
  "code0 (initHub C agent dir pin allowCli)" "code0 (bareStatus C)"
  unfolding agentList_def agentShow_def agentResolve_def agentPath_def muxDoctor_def muxMode_def attach_def emitMainPane_def
    adminMigrate_def initHub_def bareStatus_def Let_def
  by (intro pres)+

fun spawning :: "command \<Rightarrow> bool" where
  "spawning (CSpawn opts) = True"
| "spawning (CServiceStart one two ttl opts) = True"
| "spawning c = False"

lemmas code0_commands = code0_unit code0_mail code0_await code0_watch code0_service code0_admin

lemma code0_action: "\<not> spawning c \<Longrightarrow> code0 (action C found c)"
  by (cases c) (simp_all only: action.simps spawning.simps code0_commands not_True_eq_False)

subsection \<open>Every command\<close>

text \<open>The commands that do more after they printed, and those that may have nothing to print.\<close>

fun continues :: "command \<Rightarrow> bool" where
  "continues (CRegister fl) = True"
| "continues (CWho everyone recon) = recon"
| "continues CPrune = True"
| "continues (CSpawn opts) = True"
| "continues (CClose ref force keep) = True"
| "continues (CServiceStart one two ttl opts) = True"
| "continues (CInit agent dir pin allowCli) = True"
| "continues c = False"

fun optional :: "command \<Rightarrow> bool" where
  "optional (CMailAwait thread from timeout maxWait) = True"
| "optional (CMailHook event) = True"
| "optional c = False"

text \<open>\<open>mail watch\<close> prints any number of documents.\<close>

fun streams :: "command \<Rightarrow> bool" where
  "streams (CMailWatch thread from rounds) = True"
| "streams c = False"

lemmas prints_commands = prints_unit prints_mail prints_service_cmd prints_project_cmd prints_admin

lemma outputs_action:
  assumes "\<not> streams c"
  shows "outputs (if optional c then {0, 1} else {1}) (if continues c then {0, 1} else {0}) (action C found c)"
proof (cases "continues c")
  case True
  then show ?thesis
    by (cases c) (simp_all add: outputs_unitRegister outputs_runWho outputs_unitPrune outputs_unitSpawn outputs_unitClose
        outputs_serviceStart outputs_initHub del: One_nat_def)
next
  case False
  have "prints (if optional c then {0, 1} else {1}) (action C found c)"
    using False assms
    by (cases c) (simp_all add: prints_commands prints_mailAwait prints_mailHook runWho_def del: One_nat_def)
  from prints_outputs [OF this] show ?thesis using False by simp
qed

lemma process_world: "action C found c (shell_at w) = (r, t) \<Longrightarrow> sh_world (process C found c w) = sh_world t"
  by (simp add: process_def runCli_def split: sum.split)

text \<open>
  Command lines one after another on one hub, each by a session of its own: the sessions differ in their environment
  and working directory.
\<close>

fun command_lines ::
  "(env \<Rightarrow> 'x \<Rightarrow> string option \<times> string option) \<Rightarrow> ('x cli \<times> command) list \<Rightarrow> 'x world \<Rightarrow> 'x world" where
  "command_lines found [] w = w"
| "command_lines found ((C, c) # lines) w = command_lines found lines (sh_world (process C found c w))"

lemma command_lines_keep:
  assumes "\<And>C c. (C, c) \<in> set lines \<Longrightarrow> hub_cmd P (action C found c)"
  shows "P (hub w) \<Longrightarrow> P (hub (command_lines found lines w))"
  using assms
proof (induction found lines w rule: command_lines.induct)
  case (2 found C c lines w)
  obtain r t where a: "action C found c (shell_at w) = (r, t)" by fastforce
  have "hub_cmd P (action C found c)" by (rule "2.prems"(2)) simp
  from preservesD [OF this _ a] have "P (hub (sh_world t))" using "2.prems"(1) by simp
  then show ?case using "2.IH" "2.prems"(2) process_world [OF a] by simp
qed simp

text \<open>What is assumed of the surroundings of every session.\<close>

definition sessions_wf :: "('x cli \<times> command) list \<Rightarrow> bool" where
  "sessions_wf lines \<longleftrightarrow> (\<forall>(C, c)\<in>set lines. others_wf (cl_host C) \<and> lib_hub (cl_lib C) hub_wf)"

lemma wf_command_lines: "sessions_wf lines \<Longrightarrow> hub_wf (hub w) \<Longrightarrow> hub_wf (hub (command_lines found lines w))"
  by (rule command_lines_keep) (auto simp: sessions_wf_def intro: wf_action)

text \<open>
  C28. The hub stays typed. Take a hub where no directory holds two files of one name and every record
  file parses and is named after the safe id of the record in it. As long as other processes and the
  worktree package keep it so, it is still such a hub after any sequence of command lines, of any
  sessions, whatever each of them ends with.
\<close>

theorem commands_keep_hub:
  assumes "sessions_wf lines" "hub_wf (hub w)"
  shows "hub_wf (hub (command_lines found lines w))"
  by (rule wf_command_lines [OF assms])

text \<open>A session of another unit.\<close>

definition other_cli :: "nat cli" where
  "other_cli = demo_cli\<lparr>cl_host := demo_host\<lparr>os_env := [(''CYBERLEGION_AGENT_ID'', ''a'')]\<rparr>\<rparr>"

theorem commands_keep_hub_witness:
  "hub_wf (hub (command_lines (\<lambda>e x. (None, None)) [(demo_cli, CBare), (watch_cli, CMailSend demo_mail), (other_cli, CPrune)]
     (demo_world\<lparr>hub := hub1\<rparr>)))"
  by (rule commands_keep_hub)
    (simp_all add: sessions_wf_def other_cli_def watch_cli_def mail_host_def others_wf_def demo_host_good lib_hub_slot hub1_wf hub2_wf)

text \<open>
  C29. What a process prints and how it ends. A command that fails ends with exit code 1 and its error last
  on standard error; one that succeeds ends with exit code 0 unless it spawned a unit. But for
  \<open>mail watch\<close>, it never prints more than one document: a failing command printed nothing, unless it is one
  of the few that go on after printing, and a succeeding one printed exactly one, unless it may have
  nothing to say.
\<close>

theorem command_output:
  "case action C found c (shell_at w) of
     (Inl e, s) \<Rightarrow> sh_code (process C found c w) = 1 \<and> sh_err (process C found c w) \<noteq> [] \<and>
        last (sh_err (process C found c w)) = Failure e \<and>
        (streams c \<or> length (sh_out (process C found c w)) \<le> (if continues c then 1 else 0))
   | (Inr u, s) \<Rightarrow> (spawning c \<or> sh_code (process C found c w) = 0) \<and>
        (streams c \<or> length (sh_out (process C found c w)) \<in> (if optional c then {0, 1} else {1}))"
proof -
  obtain r t where a: "action C found c (shell_at w) = (r, t)" by fastforce
  have printed: "streams c \<or>
      length (sh_out t) \<in> (case r of Inl e \<Rightarrow> (if continues c then {0, 1} else {0}) | Inr u \<Rightarrow> (if optional c then {0, 1} else {1}))"
  proof (cases "streams c")
    case False
    show ?thesis by (rule outputsD [OF outputs_action [OF False] a]) simp
  qed simp
  have code: "spawning c \<or> sh_code t = 0"
    using preservesD [OF code0_action _ a] by fastforce
  show ?thesis
    using a printed code by (cases r) (auto simp: process_def runCli_def split: if_splits)
qed

end
