(* ===== verification/CliClients.thy ===== *)
theory CliClients
  imports CliCommand
begin

text \<open>
  The commands honour the contract of \<open>HubClients\<close>: what each of them does to a fact about the hub that
  another part of the program relies on.
\<close>

text \<open>The operations that change a lease keep the fact.\<close>

definition transitions_keep :: "'x host \<Rightarrow> (hub \<Rightarrow> bool) \<Rightarrow> bool" where
  "transitions_keep H P \<longleftrightarrow> (\<forall>c ref name.
     (\<forall>inp. hub_op P (acquireService H c ref name inp)) \<and> (\<forall>g token unit. hub_op P (bindService H c ref name g token unit)) \<and>
     (\<forall>g token' unit'. hub_op P (releaseService H c ref name g token' unit')) \<and>
     (\<forall>g from to. hub_op P (handoffService H c ref name g from to)))"

lemma transitions_keepD [stays]:
  assumes "transitions_keep H P"
  shows "hub_op P (acquireService H c ref name inp)" "hub_op P (bindService H c ref name g token unit)"
    "hub_op P (releaseService H c ref name g token' unit')" "hub_op P (handoffService H c ref name g from to)"
  using assms by (auto simp: transitions_keep_def)

subsection \<open>Commands that touch neither mail nor leases\<close>

context bystander
begin

lemma shared_steps [stays]:
  "hub_cmd Q (touchSelf C)" "hub_cmd Q (requireSelf C)" "hub_cmd Q (emitService C fs)" "hub_cmd Q (unitOrSelf C ref)"
  "hub_cmd Q (agentDefOf C nm path dir)" "hub_cmd Q (mailboxFor C owner)" "hub_cmd Q (emitProject C p)"
  unfolding touchSelf_def requireSelf_def emitService_def unitOrSelf_def agentDefOf_def mailboxFor_def emitProject_def Let_def
  by (intro stays pres)+

lemma syncs_units [stays]: "sleep_keeps (cl_host C) Q \<Longrightarrow> hub_cmd Q act \<Longrightarrow> hub_cmd Q (syncsUnits C act)"
  unfolding syncsUnits_def by (intro stays pres; assumption?)

lemma unit_commands [stays]:
  "sleep_keeps (cl_host C) Q \<Longrightarrow> hub_cmd Q (unitRegister C fl)"
  "sleep_keeps (cl_host C) Q \<Longrightarrow> hub_cmd Q (unitClaim C handle shows clears)"
  "hub_cmd Q (unitWhoami C)" "sleep_keeps (cl_host C) Q \<Longrightarrow> hub_cmd Q (runWho C everyone recon)"
  "sleep_keeps (cl_host C) Q \<Longrightarrow> hub_cmd Q (unitPrune C)"
  "hub_cmd Q (unitStop C ref)" "hub_cmd Q (unitRebind C ref)" "hub_cmd Q (unitShow C ref)"
  "sleep_keeps (cl_host C) Q \<Longrightarrow> hub_cmd Q (unitRestart C ref wake fresh)"
  "hub_cmd Q (unitFocus C ref' repo branch)" "hub_cmd Q (unitRead C ref lines)"
  "sleep_keeps (cl_host C) Q \<Longrightarrow> hub_cmd Q (unitNudge C ref msg)"
  "sleep_keeps (cl_host C) Q \<Longrightarrow> hub_cmd Q (unitClear C ref)"
  unfolding unitRegister_def runStanding_def unitClaim_def unitWhoami_def runWho_def listWho_def unitPrune_def unitStop_def
    unitRebind_def unitShow_def unitRestart_def unitFocus_def unitRead_def unitNudge_def unitClear_def Let_def
  by (intro stays pres; assumption?)+

lemma spawn_command [stays]:
  assumes "lib_hub (cl_lib C) Q" "sleep_keeps (cl_host C) Q"
  shows "hub_cmd Q (unitSpawn C opts)" "transitions_keep (cl_host C) Q \<Longrightarrow> hub_cmd Q (serviceStart C one two ttl opts)"
  unfolding unitSpawn_def serviceStart_def warnEffortNotApplied_def spawnReported_def reportTrustBlocked_def
    reportBaseFallback_def spawnInputOf_def listCursorModels_def startReported_def launchPeer_def Let_def
  by (intro stays pres assms; assumption?)+

lemma project_commands [stays]:
  "hub_cmd Q (projectRegister C dir)" "hub_cmd Q (projectList C)" "hub_cmd Q (projectShow C ref)"
  unfolding projectRegister_def projectList_def projectShow_def by (intro stays pres)+

lemma service_commands [stays]:
  "hub_cmd Q (serviceResolve C one two)" "hub_cmd Q (serviceVerify C one two g ref')"
  "transitions_keep (cl_host C) Q \<Longrightarrow> hub_cmd Q (serviceAcquire C one two ttl force)"
  "transitions_keep (cl_host C) Q \<Longrightarrow> hub_cmd Q (serviceBind C one two g token ref')"
  "transitions_keep (cl_host C) Q \<Longrightarrow> hub_cmd Q (serviceRelease C one two g token' ref')"
  "transitions_keep (cl_host C) Q \<Longrightarrow> hub_cmd Q (serviceHandoff C one two g to from)"
  unfolding serviceResolve_def serviceVerify_def serviceAcquire_def serviceBind_def serviceRelease_def serviceHandoff_def
  by (intro stays pres; assumption?)+

lemma admin_commands [stays]:
  "hub_cmd Q (agentList C dir)" "hub_cmd Q (agentShow C name dir full)" "hub_cmd Q (agentResolve C name' path dir)"
  "hub_cmd Q (agentPath C name dir)" "hub_cmd Q (muxDoctor C found)" "hub_cmd Q (muxMode C)"
  "sleep_keeps (cl_host C) Q \<Longrightarrow> hub_cmd Q (attach C shows clears)"
  "hub_cmd Q (initHub C agent dir pin allowCli)" "hub_cmd Q (bareStatus C)"
  unfolding agentList_def agentShow_def agentResolve_def agentPath_def muxDoctor_def muxMode_def sessionAdapter_def attach_def
    emitMainPane_def initHub_def permissionOf_def detectHarness_def bareStatus_def Let_def
  by (intro stays pres; assumption?)+

lemma reading_commands [stays]:
  "hub_cmd Q (runInbox C io)" "hub_cmd Q (mailHook C event)" "hub_cmd Q (mailRead C mid False owner)"
  "sleep_keeps (cl_host C) Q \<Longrightarrow> hub_cmd Q (mailWatch C thread from rounds)"
  unfolding runInbox_def emitInbox_def mailHook_def injectInbox_def hookSelf_def mailWatch_def mailRead_def Let_def if_False
  by (intro stays hub_watchRounds pres; assumption?)+

lemma send_command [stays]:
  assumes "\<And>inp. hub_op Q (send (cl_host C) inp)" "lib_hub (cl_lib C) Q" "sleep_keeps (cl_host C) Q"
  shows "hub_cmd Q (mailSend C opts)"
  unfolding mailSend_def deliver_def by (intro stays pres assms)

end

subsection \<open>The other commands\<close>

context lease_bystander
begin

lemma transitions_kept [stays]: "sleep_keeps H Q \<Longrightarrow> transitions_keep H Q"
  by (simp add: transitions_keep_def transitions)

end

context mail_bystander
begin

lemma mail_commands [stays]:
  "hub_cmd Q (mailRead C mid acks owner)" "hub_cmd Q (mailAck C mid owner)" "hub_cmd Q (mailDelete C mid)"
  "sleep_keeps (cl_host C) Q \<Longrightarrow> hub_cmd Q (mailAwait C thread from timeout maxWait)"
  unfolding mailRead_def mailAck_def mailDelete_def mailAwait_def
  by (intro stays pres; (auto split: await_outcome.split intro: pres)?)+

lemma close_command [stays]: "sleep_keeps (cl_host C) Q \<Longrightarrow> hub_cmd Q (unitClose C ref force keep)"
  unfolding unitClose_def by (intro stays pres; assumption?)

lemma migrate_command [stays]: "hub_cmd Q (adminMigrate C from)"
proof -
  have "preserves Q (migrateStore src)" for src
    unfolding migrateStore_def migrateOne_def fileAll_def Let_def
    by (intro pres pres_writes; erule agents briefs posts markers; assumption?)
  then show ?thesis unfolding adminMigrate_def by (intro pres pres_hubEff)
qed

text \<open>Every command keeps a fact about leases that the operations on leases keep.\<close>

lemma every_command:
  assumes "lib_hub (cl_lib C) Q" "sleep_keeps (cl_host C) Q" "transitions_keep (cl_host C) Q"
  shows "hub_cmd Q (action C found c)"
  by (cases c) (simp_all only: action.simps, (intro stays assms)+)

end

end
