(* ===== verification/MailKept.thy ===== *)
theory MailKept
  imports CliClients
begin

text \<open>
  Who may take a message out of a mailbox. Every operation but the few that consume mail leaves the
  mailboxes alone (\<open>mailboxes\<close>, the interpretation of \<open>lease_bystander\<close>); so an unread message stays unread through any sequence of command lines, until one of
  them names it, waits for mail as its owner, closes its owner or merges in a hub that has another message under its id.
\<close>

subsection \<open>One message\<close>

definition box_holds :: "string \<Rightarrow> message \<Rightarrow> (string, mailbox) dir \<Rightarrow> string \<Rightarrow> bool" where
  "box_holds i m boxes root \<longleftrightarrow> m \<in> filed (mb_unread (defaultTo (dget boxes i) empty_mailbox))"

lemma box_holds_mailbox: "of_mail (box_holds i m) h \<longleftrightarrow> m \<in> filed (mb_unread (mailboxOf h i))"
  by (simp add: box_holds_def mailboxOf_def)

text \<open>An unread message, in a hub that is well formed.\<close>

lemma unread_box:
  assumes "hub_wf h" "safe_id i"
  shows "m \<in> set (unreadOf i h) \<longleftrightarrow> of_mail (box_holds i m) h"
  using unreadOf_wf [OF assms] by (simp add: box_holds_mailbox)

lemma unread_safe: "m \<in> set (unreadOf i h) \<Longrightarrow> safe_id i"
  by (auto simp: unreadOf_def listInbox_def path_defs split: sum.splits if_splits option.splits)

text \<open>No new message gets the id of this one.\<close>

definition fresh_ids :: "'x host \<Rightarrow> message \<Rightarrow> bool" where
  "fresh_ids H m \<longleftrightarrow> (\<forall>t x. messageId t (fst (os_random H 3 x)) \<noteq> m_id m)"

lemma holds_putMessage:
  assumes "m_id n \<noteq> m_id m"
  shows "hub_op (of_mail (box_holds i m)) (hubWrite (putMessage j n))"
  by (rule pres_hubWrite) (use assms in \<open>auto simp: box_holds_mailbox putMessage_simp filed_dput split: if_splits\<close>)

lemma holds_ack:
  assumes "mid \<noteq> m_id m"
  shows "hub_op (of_mail (box_holds i m)) (hubStep (ack me mid))" "hub_op (of_mail (box_holds i m)) (hubStep (readAck me mid))"
proof -
  have one: "of_mail (box_holds i m) h'" if "of_mail (box_holds i m) h" "ackMessage me mid h = Inr (n, h')" for h h' n
    using that assms unfolding box_holds_mailbox by (auto simp: ackMessage_Inr filed_ddel)
  show "hub_op (of_mail (box_holds i m)) (hubStep (ack me mid))"
    using one by (auto simp: preserves_def hubStep_def ack_def split: sum.splits prod.splits)
  show "hub_op (of_mail (box_holds i m)) (hubStep (readAck me mid))"
    using one by (auto simp: preserves_def hubStep_def readAck_def split: sum.splits prod.splits if_splits option.splits)
qed

lemma holds_delete:
  assumes "mid \<noteq> m_id m"
  shows "hub_op (of_mail (box_holds i m)) (hubWrite (deleteMessage me mid))"
  by (rule pres_hubWrite)
    (use assms in \<open>auto simp: box_holds_mailbox deleteMessage_def removeMessage_def Let_def filed_ddel split: if_splits sum.splits\<close>)

lemma holds_decommission:
  assumes "di_id inp \<noteq> i"
  shows "hub_op (of_mail (box_holds i m)) (decommission H L inp)"
proof -
  have "hub_op (of_mail (box_holds i m)) (reap (di_id inp) pane)" for pane
    unfolding reap_def deleteMailbox_def
    by (intro stays pres pres_hubWrite)
      (use assms in \<open>auto simp: removeAgent_simp removeMailbox_simp removeAgentData_def box_holds_def dget_ddel split: if_splits sum.splits\<close>)
  then show ?thesis unfolding decommission_def by (intro pres keeps_hub_op [OF hub_teardown])
qed

lemma holds_send:
  assumes "fresh_ids H m"
  shows "hub_op (of_mail (box_holds i m)) (send H inp)"
proof -
  let ?P = "\<lambda>w. of_mail (box_holds i m) (hub w)"
  have step: "preserves ?P (andThen (extStep (os_random H 3)) (\<lambda>hex. andThen (hubWrite (putMessage toId (msg hex))) (\<lambda>_. ret (msg hex))))"
    if "\<And>hex. m_id (msg hex) = messageId ts hex" for toId ts and msg :: "string \<Rightarrow> message"
  proof (rule preservesI)
    fix w :: "'a world" assume w: "?P w"
    obtain hex x where r: "os_random H 3 (ext w) = (hex, x)" by fastforce
    have "m_id (msg hex) \<noteq> m_id m" using assms r that by (metis fresh_ids_def fst_conv)
    obtain q u where run: "hubWrite (putMessage toId (msg hex)) (w\<lparr>ext := x\<rparr>) = (q, u)" by fastforce
    have "?P u" by (rule preservesD [OF holds_putMessage [OF \<open>m_id (msg hex) \<noteq> m_id m\<close>] _ run]) (use w in simp)
    with run show "?P (snd (andThen (extStep (os_random H 3)) (\<lambda>hex. andThen (hubWrite (putMessage toId (msg hex))) (\<lambda>_. ret (msg hex))) w))"
      using r by (auto simp: andThen_def eff_simps split: prod.splits sum.splits)
  qed
  show ?thesis unfolding send_def Let_def
    by (intro pres_andThen [OF pres_hubRead] pres_andThen [OF pres_now] step) simp
qed

subsection \<open>Commands that may take it\<close>

text \<open>
  Closing a unit takes its own mailbox only: which unit the reference names is settled after the command
  has refreshed its caller's last-seen.
\<close>

definition closes :: "'x cli \<Rightarrow> string \<Rightarrow> string \<Rightarrow> 'x world \<Rightarrow> bool" where
  "closes C i ref w \<longleftrightarrow> (case resolveAgent ref (hub (snd (touch (cl_host C) w))) of Inl e \<Rightarrow> False | Inr a \<Rightarrow> a_id a = i)"

text \<open>The unit a session acts as.\<close>

definition session_of :: "'x cli \<Rightarrow> string \<Rightarrow> 'x world \<Rightarrow> bool" where
  "session_of C i w \<longleftrightarrow> truthy (resolveSelfId (cl_host C) (hub w)) = Some i"

text \<open>A hub that has another message under the same id.\<close>

definition clashes :: "message \<Rightarrow> hub \<Rightarrow> bool" where
  "clashes m src \<longleftrightarrow> (\<exists>(j, b)\<in>set (h_inbox src). case listInbox j src of
       Inl e \<Rightarrow> False
     | Inr (un, rd) \<Rightarrow> \<exists>n\<in>set (un @ rd). m_id n = m_id m \<and> n \<noteq> m)"

fun takes :: "'x cli \<Rightarrow> string \<Rightarrow> message \<Rightarrow> command \<Rightarrow> 'x world \<Rightarrow> bool" where
  "takes C i m (CMailRead mid acks owner) w \<longleftrightarrow> acks \<and> mid = m_id m"
| "takes C i m (CMailAck mid owner) w \<longleftrightarrow> mid = m_id m"
| "takes C i m (CMailDelete mid) w \<longleftrightarrow> mid = m_id m"
| "takes C i m (CMailAwait thread from timeout maxWait) w \<longleftrightarrow> session_of C i w"
| "takes C i m (CClose ref force keep) w \<longleftrightarrow> closes C i ref w"
| "takes C i m (CMigrate from) w \<longleftrightarrow> clashes m (cl_hubAt C (resolve_path (os_cwd (cl_host C)) from))"
| "takes C i m c w \<longleftrightarrow> False"

lemma holds_mailSend:
  assumes "fresh_ids (cl_host C) m" "lib_hub (cl_lib C) (of_mail (box_holds i m))" "sleep_keeps (cl_host C) (of_mail (box_holds i m))"
  shows "hub_cmd (of_mail (box_holds i m)) (mailSend C opts)"
  by (rule mailboxes.send_command [OF holds_send [OF assms(1)] assms(2,3)])

lemma holds_mail:
  assumes "mid \<noteq> m_id m"
  shows "hub_cmd (of_mail (box_holds i m)) (mailAck C mid owner)" "hub_cmd (of_mail (box_holds i m)) (mailDelete C mid)"
    "hub_cmd (of_mail (box_holds i m)) (mailRead C mid acks owner)"
  unfolding mailAck_def mailDelete_def mailRead_def
  by (intro stays pres holds_ack [OF assms] holds_delete [OF assms])+

lemma holds_close:
  assumes "sleep_keeps (cl_host C) (of_mail (box_holds i m))" "\<not> closes C i ref (sh_world s)"
    and "of_mail (box_holds i m) (hub (sh_world s))" "unitClose C ref force keep s = (r, t)"
  shows "of_mail (box_holds i m) (hub (sh_world t))"
proof -
  let ?K = "\<lambda>s. of_mail (box_holds i m) (hub (sh_world s))"
  let ?rest = "\<lambda>a. andThen (inWorld (decommission (cl_host C) (cl_lib C) \<lparr>di_id = a_id a, di_force = force, di_keepWorktree = keep\<rparr>)) (\<lambda>res.
       emits C [(''closed'', Some (a_id a)), (''worktree'', Some (defaultTo (dr_worktreeRoot res) ''-'')),
           (''retained'', Some (defaultTo (dr_retainedWorktree res) ''-'')), (''lease'', Some (defaultTo (dr_lease res) ''-'')),
           (''pane'', Some (defaultTo (dr_pane res) ''-''))] (ClosedJson res))"
  let ?body = "andThen (touchSelf C) (\<lambda>_. andThen (inWorld (hubRead (resolveAgent ref))) ?rest)"
  obtain r1 s1 where touched: "touchSelf C s = (r1, s1)" by fastforce
  have w1: "sh_world s1 = snd (touch (cl_host C) (sh_world s))"
    using touched by (auto simp: touchSelf_def inWorld_def split: prod.splits)
  have K1: "?K s1" by (rule preservesD [OF mailboxes.shared_steps(1) [of "box_holds i m"] assms(3) touched])
  obtain r2 s2 where body: "?body s = (r2, s2)" by fastforce
  have K2: "?K s2"
  proof (cases r1)
    case (Inl e)
    then show ?thesis using body touched K1 by (simp add: andThen_Inl)
  next
    case (Inr u)
    show ?thesis
    proof (cases "resolveAgent ref (hub (sh_world s1))")
      case (Inl e)
      then show ?thesis using body touched K1 \<open>r1 = Inr u\<close>
        by (auto simp: andThen_Inr andThen_Inl inWorld_def eff_simps)
    next
      case (Inr a)
      then have run: "?rest a s1 = (r2, s2)" using body touched \<open>r1 = Inr u\<close>
        by (simp add: andThen_Inr inWorld_def eff_simps)
      have other: "a_id a \<noteq> i" using assms(2) Inr by (simp add: closes_def w1)
      have "preserves ?K (?rest a)" by (intro pres holds_decommission) (simp add: other)
      from preservesD [OF this K1 run] show ?thesis .
    qed
  qed
  have sync: "preserves ?K (andThen (inWorld (syncCynapse (cl_host C) (cl_load C))) (\<lambda>_. ret ()))"
    by (intro stays pres assms(1))
  have close: "unitClose C ref force keep s = (case r2 of Inl e \<Rightarrow> (Inl e, s2)
      | Inr u \<Rightarrow> andThen (inWorld (syncCynapse (cl_host C) (cl_load C))) (\<lambda>_. ret ()) s2)"
    unfolding unitClose_def syncsUnits_def by (subst andThen_def) (simp add: body)
  show ?thesis
  proof (cases r2)
    case (Inl e)
    then show ?thesis using close assms(4) K2 by simp
  next
    case (Inr u)
    then have "andThen (inWorld (syncCynapse (cl_host C) (cl_load C))) (\<lambda>_. ret ()) s2 = (r, t)"
      using close assms(4) by simp
    from preservesD [OF sync K2 this] show ?thesis .
  qed
qed

lemma pres_ofSum_then:
  "(\<And>x. r = Inr x \<Longrightarrow> preserves P (f x)) \<Longrightarrow> preserves P (andThen (ofSum r) f)"
  by (cases r) (auto simp: preserves_def ofSum_def andThen_def)

lemma holds_await:
  assumes "sleep_keeps (cl_host C) (of_mail (box_holds i m))" "\<not> session_of C i (sh_world s)"
    and "of_mail (box_holds i m) (hub (sh_world s))" "mailAwait C thread from timeout maxWait s = (r, t)"
  shows "of_mail (box_holds i m) (hub (sh_world t))"
proof -
  let ?K = "of_mail (box_holds i m)"
  obtain r1 s1 where me: "requireSelf C s = (r1, s1)" by fastforce
  have K1: "?K (hub (sh_world s1))" by (rule preservesD [OF mailboxes.shared_steps(2) [of "box_holds i m"] assms(3) me])
  show ?thesis
  proof (cases r1)
    case (Inl e)
    then show ?thesis using assms(4) me K1 by (simp add: mailAwait_def andThen_Inl)
  next
    case (Inr j)
    have "j \<noteq> i"
    proof
      assume "j = i"
      then show False using me Inr assms(2)
        by (auto simp: requireSelf_def session_of_def andThen_def inWorld_def eff_simps split: option.splits prod.splits sum.splits)
    qed
    then have other: "?K h'" if "?K h" "ackMessage j mid h = Inr (n, h')" for h mid n h'
      using that by (auto simp: ackMessage_Inr box_holds_def putMailbox_def dget_dput)
    let ?rest = "andThen (inWorld (awaitReply (cl_host C) \<lparr>aw_me = j, aw_thread = thread, aw_from = from,
        aw_timeoutMs = Some timeout, aw_maxWaitS = Some maxWait\<rparr>)) (\<lambda>outcome. case outcome of
          Matched item \<Rightarrow> emits C (message_fields (fst item)) (ItemJson item)
        | Waiting \<Rightarrow> say (StillWaiting thread maxWait) | TimedOut \<Rightarrow> throw (CliE (NoReply thread timeout)))"
    have waiting: "hub_op ?K (awaitReply (cl_host C) \<lparr>aw_me = j, aw_thread = thread, aw_from = from,
        aw_timeoutMs = Some timeout, aw_maxWaitS = Some maxWait\<rparr>)"
      by (rule hub_awaitReply [OF assms(1)], simp only: await_input.simps, rule other)
    have kept: "hub_cmd ?K ?rest"
    proof (rule pres_andThen [OF pres_inWorld [OF waiting]])
      fix outcome
      show "hub_cmd ?K (case outcome of Matched item \<Rightarrow> emits C (message_fields (fst item)) (ItemJson item)
          | Waiting \<Rightarrow> say (StillWaiting thread maxWait) | TimedOut \<Rightarrow> throw (CliE (NoReply thread timeout)))"
        by (cases outcome) (simp_all only: await_outcome.case, (intro pres)+)
    qed
    have run: "?rest s1 = (r, t)" using assms(4) me Inr by (simp add: mailAwait_def andThen_Inr)
    show ?thesis by (rule preservesD [OF kept K1 run])
  qed
qed

lemma holds_migrate:
  assumes "\<not> clashes m (cl_hubAt C (resolve_path (os_cwd (cl_host C)) from))"
  shows "hub_cmd (of_mail (box_holds i m)) (adminMigrate C from)"
proof -
  let ?src = "cl_hubAt C (resolve_path (os_cwd (cl_host C)) from)" and ?K = "of_mail (box_holds i m)"
  have same: "n = m" if l: "listInbox j ?src = Inr (un, rd)" "n \<in> set (un @ rd)" "m_id n = m_id m" for j n un rd
  proof (cases "dget (h_inbox ?src) j")
    case None
    then show ?thesis using l by (auto simp: listInbox_def mailboxOf_def empty_mailbox_def readAll_def split: sum.splits option.splits)
  next
    case (Some b)
    then have "(j, b) \<in> set (h_inbox ?src)" by (rule dget_Some_in_set)
    then show ?thesis using assms l unfolding clashes_def by fastforce
  qed
  have post: "?K h'" if "?K h" "putMessage j n h = Inr h'" "m_id n = m_id m \<longrightarrow> n = m" for j n h h'
    using that by (auto simp: box_holds_mailbox putMessage_simp filed_dput split: if_splits)
  have filing: "preserves ?K (fileAll j ns)" if "\<forall>n\<in>set ns. m_id n = m_id m \<longrightarrow> n = m" for j ns
    using that unfolding fileAll_def
    by (induction ns) (auto simp: forEach.simps intro!: pres pres_writes intro: post)
  have store: "?K h'" if "?K h" "putAgent a h = Inr h' \<or> writeBrief j d h = Inr h'" for a j d h h'
    using that by (auto dest: store_inbox)
  have one: "preserves ?K (migrateOne ?src a acc)" for a acc
  proof -
    have filed: "preserves ?K (fileAll (a_id a) (un @ rd))" if "listInbox (a_id a) ?src = Inr (un, rd)" for un rd
      by (rule filing) (use same [OF that] in blast)
    have agent: "preserves ?K (if b then writes (putAgent a) else ret ())" for b
      by (intro pres pres_writes) (use store in blast)
    have brief: "preserves ?K (case d of None \<Rightarrow> ret () | Some t \<Rightarrow> writes (writeBrief (a_id a) t))" for d
      by (intro pres pres_writes) (use store in blast)
    show ?thesis unfolding migrateOne_def
      by (rule pres_andThen [OF pres_reads], rule pres_andThen [OF agent], rule pres_ofSum_then, simp only: split_paired_all prod.case)
        (intro filed brief pres; assumption)
  qed
  show ?thesis unfolding adminMigrate_def migrateStore_def
    by (intro pres pres_hubEff one) (simp add: ensureMarker_def)
qed

lemma holds_action:
  assumes "fresh_ids (cl_host C) m" "\<And>P. lib_hub (cl_lib C) P" "sleep_keeps (cl_host C) (of_mail (box_holds i m))"
    and "\<not> takes C i m c (sh_world s)" "of_mail (box_holds i m) (hub (sh_world s))" "action C found c s = (r, t)"
  shows "of_mail (box_holds i m) (hub (sh_world t))"
proof (cases "\<exists>x. (\<exists>force keep. c = CClose x force keep) \<or> (\<exists>from n k. c = CMailAwait x from n k)")
  case True
  then show ?thesis using holds_close [OF assms(3) _ assms(5)] holds_await [OF assms(3) _ assms(5)] assms(4,6) by auto
next
  case False
  have "hub_cmd (of_mail (box_holds i m)) (action C found c)"
    using assms(4) False
    by (cases c) (auto intro: stays assms holds_mailSend holds_mail holds_migrate)
  from preservesD [OF this assms(5,6)] show ?thesis .
qed

subsection \<open>Mail waits for its reader\<close>

text \<open>A sequence of command lines none of which may take the message, each judged in the world it runs in.\<close>

fun spares ::
  "(env \<Rightarrow> 'x \<Rightarrow> string option \<times> string option) \<Rightarrow> string \<Rightarrow> message \<Rightarrow> ('x cli \<times> command) list \<Rightarrow> 'x world \<Rightarrow> bool" where
  "spares found i m [] w \<longleftrightarrow> True"
| "spares found i m ((C, c) # lines) w \<longleftrightarrow>
     \<not> takes C i m c w \<and> spares found i m lines (sh_world (process C found c w))"

text \<open>
  What is assumed of the surroundings of a session: no new message is given the id of this one, and other
  processes leave it in place.
\<close>

definition leaves_alone :: "string \<Rightarrow> message \<Rightarrow> 'x cli \<Rightarrow> bool" where
  "leaves_alone i m C \<longleftrightarrow> fresh_ids (cl_host C) m \<and> sleep_keeps (cl_host C) (of_mail (box_holds i m)) \<and>
     (\<forall>P. lib_hub (cl_lib C) P)"

lemma holds_lines:
  "\<forall>(C, c)\<in>set lines. leaves_alone i m C \<Longrightarrow> spares found i m lines w \<Longrightarrow> of_mail (box_holds i m) (hub w) \<Longrightarrow>
    of_mail (box_holds i m) (hub (command_lines found lines w))"
proof (induction found lines w rule: command_lines.induct)
  case (2 found C c lines w)
  obtain r t where a: "action C found c (shell_at w) = (r, t)" by fastforce
  have "of_mail (box_holds i m) (hub (sh_world t))"
    by (rule holds_action [OF _ _ _ _ _ a]) (use "2.prems" in \<open>simp_all add: leaves_alone_def\<close>)
  then show ?case using "2.IH" "2.prems" process_world [OF a] by simp
qed simp



end
