(* ===== verification/Fencing.thy ===== *)
theory Fencing
  imports CliClients
begin

text \<open>
  The fence of a service at the level of the command line: whatever the sessions of a hub run, the lease
  of a service only moves forward (\<open>fence\<close>, the interpretation of \<open>mail_bystander\<close>), so that one generation
  has one owner.
\<close>

text \<open>What is assumed of the surroundings of every session.\<close>

definition sessions_fence :: "string \<Rightarrow> string \<Rightarrow> ('x cli \<times> command) list \<Rightarrow> bool" where
  "sessions_fence p s lines \<longleftrightarrow> (\<forall>(C, c)\<in>set lines. others_fence (cl_host C) p s \<and> (\<forall>P. lib_hub (cl_lib C) P))"

lemma others_fence_keep: "others_fence H p s \<Longrightarrow> sleep_keeps H (at_least p s F)"
  by (auto simp: sleep_keeps_def intro: at_least_sleep)

lemma others_fence_transitions: "others_fence H p s \<Longrightarrow> transitions_keep H (at_least p s F)"
  unfolding transitions_keep_def
  by (intro allI conjI spec [OF advances_acquire] spec [OF advances_bind] spec [OF advances_release] spec [OF advances_handoff])

lemma command_lines_at_least:
  assumes "sessions_fence p s lines"
  shows "at_least p s F (hub w) \<Longrightarrow> at_least p s F (hub (command_lines found lines w))"
proof (rule command_lines_keep)
  fix C c assume "(C, c) \<in> set lines"
  then have "others_fence (cl_host C) p s" "\<forall>P. lib_hub (cl_lib C) P" using assms by (auto simp: sessions_fence_def)
  then show "hub_cmd (at_least p s F) (action C found c)"
    by (intro fence.every_command others_fence_keep others_fence_transitions) auto
qed

text \<open>
  C8. One owner per generation, across command lines. Once a unit has been verified as the owner of a
  project's service at a generation, then whatever command lines any sessions run afterwards, in any
  order and with any outcomes, a later successful check of that service is of the same or a higher
  generation, and at the same generation it is of the same unit: a superseded owner is refused for good.
\<close>

theorem service_owner_fenced:
  assumes "hub_wf (hub w)" "sessions_fence p s lines"
    and "verifyOwnership H c ref s unit g w = (Inr v, w1)" "p_id (sv_project v) = p"
    and "verifyOwnership H' c' ref' s unit' g' (command_lines found lines w1) = (Inr v', w2)" "p_id (sv_project v') = p"
  shows "g \<le> g' \<and> (g' = g \<longrightarrow> unit' = unit)"
proof -
  have 1: "fence p s (hub w1) = Fence g (POwned (Some unit))" "hub_wf (hub w1)"
    using verify_fence [OF assms(1,3)] assms(4) by simp_all
  then have "at_least p s (Fence g (POwned (Some unit))) (hub (command_lines found lines w1))"
    by (intro command_lines_at_least [OF assms(2)]) (simp add: at_least_def)
  then have "at_least p s (Fence g (POwned (Some unit))) (hub w2)" "hub_wf (hub (command_lines found lines w1))"
    using advancesD [OF advances_verify assms(5)] by (auto simp: at_least_def)
  moreover have "fence p s (hub w2) = Fence g' (POwned (Some unit'))"
    using verify_fence [OF calculation(2) assms(5)] assms(6) by simp
  ultimately show ?thesis by (auto simp: at_least_def less_eq_fence_def phase_le_def)
qed

theorem service_owner_fenced_witness:
  "\<not> (\<exists>unit' g' v' w2. verifyOwnership demo_host None ''prj-0123456789abcdef'' ''db'' unit' g'
      (command_lines (\<lambda>e x. (None, None)) [(demo_cli, CPrune),
        (other_cli, CServiceAcquire ''prj-0123456789abcdef'' (Some ''db'') None (Some 2))] service_world) = (Inr v', w2) \<and>
    p_id (sv_project v') = ''prj-0123456789abcdef'' \<and> (g' < 2 \<or> g' = 2 \<and> unit' \<noteq> ''a''))"
proof (intro notI, elim exE conjE)
  fix unit' g' v' w2
  let ?lines = "[(demo_cli, CPrune), (other_cli, CServiceAcquire ''prj-0123456789abcdef'' (Some ''db'') None (Some 2))]"
  assume bad: "g' < 2 \<or> g' = 2 \<and> unit' \<noteq> ''a''"
    and v': "verifyOwnership demo_host None ''prj-0123456789abcdef'' ''db'' unit' g'
      (command_lines (\<lambda>e x. (None, None)) ?lines service_world) = (Inr v', w2)" "p_id (sv_project v') = ''prj-0123456789abcdef''"
  obtain v where v: "verifyOwnership demo_host None ''prj-0123456789abcdef'' ''db'' ''a'' 2 service_world = (Inr v, service_world)"
    "p_id (sv_project v) = ''prj-0123456789abcdef''" using service_verify_run by blast
  have "sessions_fence ''prj-0123456789abcdef'' ''db'' ?lines"
    by (auto simp: sessions_fence_def other_cli_def others_fence_def lib_hub_slot)
  from service_owner_fenced [OF service_world_wf this v v'] bad show False by auto
qed

end
