(* ===== verification/Scripts.thy ===== *)
theory Scripts
  imports MetaphorFree
begin

text \<open>
  The repository's own checks under \<open>scripts/\<close>: \<open>check-suite.mjs\<close>, which must never pass without having
  run, \<open>check-cli-bundle.mjs\<close>, and \<open>sync-plugin-version.mjs\<close>, which keeps every published pin at the
  package's version.
\<close>

subsection \<open>The suite check\<close>

definition SPEC_ROOTS :: "string list" where
  "SPEC_ROOTS = [''.agents/specs'', ''packages/cyberlegion/.agents/spec'']"

definition SUCCESS_MARKER :: string where
  "SUCCESS_MARKER = ''suite checks OK''"

text \<open>The files with the suffix, in all directories below.\<close>

fun countFeatures :: "(string \<times> node) list \<Rightarrow> nat" where
  "countFeatures [] = 0"
| "countFeatures ((name, Dir es) # rest) = countFeatures es + countFeatures rest"
| "countFeatures ((name, n) # rest) = (if ends_with name ''.feature'' then 1 else 0) + countFeatures rest"

text \<open>What a run of the checker gives: an error to start it, or its exit status, if any, and its output.\<close>

record spawned =
  rn_status :: "nat option"
  rn_stdout :: ustr
  rn_stderr :: ustr

text \<open>The repository: the packages that resolve, its directories, and the checker that is run on a root.\<close>

record suite_host =
  su_skill :: bool
  su_tsx :: bool
  su_stat :: "string \<Rightarrow> node option"
  su_run :: "string \<Rightarrow> string + spawned"

datatype suite_failure =
    NoSkillPackage
  | NoTsx
  | RootMissing string
  | NoFeature string
  | NotStarted string string
  | SilentFailure string
  | MarkerMissing string

text \<open>The heavy ballot mark with which the checker starts a violation.\<close>

definition violation_mark :: ustr where
  "violation_mark = [10007]"

text \<open>One root: a hard failure, or whether the checker passed it.\<close>

definition checkRoot :: "suite_host \<Rightarrow> string \<Rightarrow> suite_failure + bool" where
  "checkRoot U root = (case su_stat U root of
       Some (Dir es) \<Rightarrow>
         if countFeatures es = 0 then Inl (NoFeature root)
         else (case su_run U root of
             Inl e \<Rightarrow> Inl (NotStarted root e)
           | Inr r \<Rightarrow>
               if rn_status r = Some 1 \<and> rn_stdout r = [] \<and> \<not> contains (rn_stderr r) violation_mark
               then Inl (SilentFailure root)
               else if rn_status r \<noteq> Some 0 then Inr False
               else if \<not> contains (rn_stdout r) (ustr_of SUCCESS_MARKER) then Inl (MarkerMissing root)
               else Inr True)
     | _ \<Rightarrow> Inl (RootMissing root))"

text \<open>All roots in order; the result is whether one failed, and the roots reported as passed.\<close>

fun checkRoots :: "suite_host \<Rightarrow> string list \<Rightarrow> bool \<Rightarrow> string list \<Rightarrow> (suite_failure + bool) \<times> string list" where
  "checkRoots U [] failed passed = (Inr failed, passed)"
| "checkRoots U (root # roots) failed passed = (case checkRoot U root of
       Inl f \<Rightarrow> (Inl f, passed)
     | Inr ok \<Rightarrow> if ok then checkRoots U roots failed (passed @ [root]) else checkRoots U roots True passed)"

definition checkSuite :: "suite_host \<Rightarrow> (suite_failure + bool) \<times> string list" where
  "checkSuite U =
     (if \<not> su_skill U then (Inl NoSkillPackage, [])
      else if \<not> su_tsx U then (Inl NoTsx, [])
      else checkRoots U SPEC_ROOTS False [])"

definition suite_exit :: "suite_host \<Rightarrow> nat" where
  "suite_exit U = (case fst (checkSuite U) of Inl f \<Rightarrow> 1 | Inr failed \<Rightarrow> if failed then 1 else 0)"

text \<open>
  A gate that never passes silently: it exits with 0 exactly when the checker ran on every declared root,
  each of them a directory with at least one suite, and ended on each with status 0 and its marker; and
  the roots it reports as passed are only ones of which that holds.
\<close>

definition really_passed :: "suite_host \<Rightarrow> string \<Rightarrow> bool" where
  "really_passed U root \<longleftrightarrow> (\<exists>es r. su_stat U root = Some (Dir es) \<and> 0 < countFeatures es \<and> su_run U root = Inr r \<and>
     rn_status r = Some 0 \<and> contains (rn_stdout r) (ustr_of SUCCESS_MARKER))"

lemma checkRoot_passed: "checkRoot U root = Inr True \<longleftrightarrow> really_passed U root"
  by (auto simp: checkRoot_def really_passed_def split: option.splits node.splits sum.splits)

lemma checkRoots_exit:
  "fst (checkRoots U roots failed passed) = Inr False \<longleftrightarrow> \<not> failed \<and> (\<forall>root\<in>set roots. really_passed U root)"
  by (induction U roots failed passed rule: checkRoots.induct)
    (auto simp flip: checkRoot_passed split: sum.splits)

lemma checkRoots_reports:
  "root \<in> set (snd (checkRoots U roots failed passed)) \<Longrightarrow> root \<in> set passed \<or> really_passed U root"
proof (induction U roots failed passed rule: checkRoots.induct)
  case (2 U r roots failed passed)
  show ?case
  proof (cases "checkRoot U r")
    case (Inl f)
    then show ?thesis using "2.prems" by simp
  next
    case (Inr b)
    show ?thesis
    proof (cases b)
      case True
      then show ?thesis using "2.IH"(1) [OF Inr] "2.prems" Inr checkRoot_passed by auto
    next
      case False
      then show ?thesis using "2.IH"(2) [OF Inr] "2.prems" Inr by simp
    qed
  qed
qed simp

lemma suite_gate_honest:
  "suite_exit U = 0 \<longleftrightarrow> su_skill U \<and> su_tsx U \<and> (\<forall>root\<in>set SPEC_ROOTS. really_passed U root)"
  "\<forall>root\<in>set (snd (checkSuite U)). really_passed U root"
  using checkRoots_exit [of U SPEC_ROOTS False "[]"] checkRoots_reports [of _ U SPEC_ROOTS False "[]"]
  by (auto simp: suite_exit_def checkSuite_def split: sum.splits if_splits)

subsection \<open>The committed bundle\<close>

definition BUNDLE :: string where
  "BUNDLE = ''packages/cyberlegion/dist/cli.mjs''"

text \<open>\<open>git\<close> answers with its output, or fails, which ends the script with 1.\<close>

definition bundle_exit :: "(string list \<Rightarrow> string option) \<Rightarrow> nat" where
  "bundle_exit git = (case git [''ls-files'', ''--'', BUNDLE] of
       None \<Rightarrow> 1
     | Some tracked \<Rightarrow>
         if trim tracked = [] then 1
         else (case git [''diff'', ''--name-only'', ''--'', BUNDLE] of
             None \<Rightarrow> 1
           | Some changed \<Rightarrow> if trim changed \<noteq> [] then 1 else 0))"

subsection \<open>Pins\<close>

datatype pin_kind = ManifestVersion | MapPin | SkillPin

definition number :: "string \<Rightarrow> (string \<times> string) option" where
  "number s = (let d = takeWhile is_digit s in if d = [] then None else Some (d, dropWhile is_digit s))"

fun dotted :: "nat \<Rightarrow> string \<Rightarrow> (string \<times> string) option" where
  "dotted n s = (case number s of
       None \<Rightarrow> None
     | Some (d, r) \<Rightarrow>
         if n \<le> 1 then Some (d, r)
         else (case r of
             [] \<Rightarrow> None
           | c # r' \<Rightarrow> if c \<noteq> CHR ''.'' then None
               else (case dotted (n - 1) r' of None \<Rightarrow> None | Some (e, q) \<Rightarrow> Some (d @ c # e, q))))"

declare dotted.simps [simp del]

definition is_word :: "char \<Rightarrow> bool" where
  "is_word c \<longleftrightarrow> is_alnum c \<or> c = CHR ''_''"

definition prerelease :: "string \<Rightarrow> string \<times> string" where
  "prerelease s = (case s of
       [] \<Rightarrow> ([], s)
     | c # r \<Rightarrow>
         let tagged = \<lambda>c. is_word c \<or> c = CHR ''.''; t = takeWhile tagged r
         in if c = CHR ''-'' \<and> t \<noteq> [] then (c # t, dropWhile tagged r) else ([], s))"

definition version_at :: "string \<Rightarrow> (string \<times> string) option" where
  "version_at s = (case dotted 3 s of
       None \<Rightarrow> None
     | Some (v, r) \<Rightarrow> (case prerelease r of (t, q) \<Rightarrow> Some (v @ t, q)))"

text \<open>
  A match at the start of a text: the prefix, the version, what else the pattern matches, and the rest.
  None of the patterns backtracks: each repeated class excludes what follows it.
\<close>

definition quoted_at :: "string \<Rightarrow> string \<Rightarrow> (string \<times> string \<times> string \<times> string) option" where
  "quoted_at key s =
     (if \<not> starts_with s key then None
      else let r = drop (length key) s; gap = takeWhile is_space r
      in case dropWhile is_space r of
          [] \<Rightarrow> None
        | c # q \<Rightarrow> if c \<noteq> CHR 0x22 then None
            else (case dropWhile (\<lambda>c. c \<noteq> CHR 0x22) q of
                [] \<Rightarrow> None
              | d # behind \<Rightarrow> Some (key @ gap @ [c], takeWhile (\<lambda>c. c \<noteq> CHR 0x22) q, [d], behind)))"

fun pin_at :: "pin_kind \<Rightarrow> string \<Rightarrow> (string \<times> string \<times> string \<times> string) option" where
  "pin_at ManifestVersion s = quoted_at (CHR 0x22 # ''version'' @ [CHR 0x22] @ '':'') s"
| "pin_at MapPin s = quoted_at (CHR 0x22 # ''cyberlegion'' @ [CHR 0x22] @ '':'') s"
| "pin_at SkillPin s =
     (let key = ''npx -y cyberlegion@''
      in if starts_with s key
         then (case version_at (drop (length key) s) of None \<Rightarrow> None | Some (v, r) \<Rightarrow> Some (key, v, [], r))
         else None)"

text \<open>A text cut into pins and other characters; only the skill pins are searched for beyond the first.\<close>

datatype piece = Other char | Pin string string string

fun piece_text :: "piece \<Rightarrow> string" where
  "piece_text (Other c) = [c]"
| "piece_text (Pin p v q) = p @ v @ q"

lemma number_text: "number s = Some (d, r) \<Longrightarrow> s = d @ r \<and> d \<noteq> []"
  by (auto simp: number_def Let_def split: if_splits)

lemma dotted_text: "dotted n s = Some (v, r) \<Longrightarrow> s = v @ r \<and> v \<noteq> []"
proof (induction n s arbitrary: v r rule: dotted.induct)
  case (1 n s)
  have run: "dotted n s = Some (v, r)" by fact
  obtain d q where n: "number s = Some (d, q)" using run by (subst (asm) dotted.simps) (auto split: option.splits)
  show ?case
  proof (cases "n \<le> 1")
    case True
    then show ?thesis using run n number_text [OF n] by (subst (asm) dotted.simps) simp
  next
    case False
    then obtain q' e where q: "q = CHR ''.'' # q'" "dotted (n - 1) q' = Some (e, r)" "v = d @ CHR ''.'' # e"
      using run n by (subst (asm) dotted.simps) (auto split: list.splits if_splits option.splits)
    have "q' = e @ r" using "1.IH" [OF n refl False q(1) _ q(2)] by simp
    then show ?thesis using number_text [OF n] q by simp
  qed
qed

lemma prerelease_text: "prerelease s = (t, q) \<Longrightarrow> s = t @ q"
  by (auto simp: prerelease_def Let_def split: list.splits if_splits)

lemma version_text: "version_at s = Some (v, r) \<Longrightarrow> s = v @ r \<and> v \<noteq> []"
  by (auto simp: version_at_def dest!: dotted_text prerelease_text split: option.splits prod.splits)

lemma quoted_text: "quoted_at key s = Some (p, v, q, r) \<Longrightarrow> s = p @ v @ q @ r \<and> p \<noteq> []"
proof -
  assume a: "quoted_at key s = Some (p, v, q, r)"
  then have "s = key @ drop (length key) s"
    by (auto simp: quoted_at_def starts_with_prefix prefix_def split: if_splits)
  moreover have "drop (length key) s = takeWhile is_space (drop (length key) s) @ dropWhile is_space (drop (length key) s)"
    by simp
  ultimately show ?thesis using a
    by (auto simp: quoted_at_def Let_def split: if_splits list.splits)
      (metis append.assoc append_Cons takeWhile_dropWhile_id)+
qed

lemma pin_text: "pin_at k s = Some (p, v, q, r) \<Longrightarrow> s = p @ v @ q @ r \<and> p \<noteq> []"
proof (cases k)
  case SkillPin
  assume "pin_at k s = Some (p, v, q, r)"
  then show ?thesis using SkillPin
    by (auto simp: Let_def starts_with_prefix prefix_def dest!: version_text split: if_splits option.splits)
qed (auto dest: quoted_text)

function pieces :: "pin_kind \<Rightarrow> bool \<Rightarrow> string \<Rightarrow> piece list" where
  "pieces k every [] = []"
| "pieces k every (c # s) = (case pin_at k (c # s) of
       None \<Rightarrow> Other c # pieces k every s
     | Some (p, v, q, r) \<Rightarrow> Pin p v q # (if every then pieces k every r else map Other r))"
  by pat_completeness auto
termination
  by (relation "measure (\<lambda>(k, every, s). length s)") (auto dest!: pin_text dest: arg_cong [where f = length])

text \<open>Cutting a text loses nothing of it.\<close>

lemma pieces_text: "concat (map piece_text (pieces k every s)) = s"
proof (induction k every s rule: pieces.induct)
  case (2 k every c s)
  have "concat (map piece_text (map Other r)) = r" for r by (induction r) auto
  with 2 show ?case by (auto dest!: pin_text split: option.split)
qed simp

text \<open>
  The second argument of \<open>replace\<close> may name the match, what comes before it (nothing, here) and what comes
  after it.
\<close>

fun expand :: "string \<Rightarrow> string \<Rightarrow> string \<Rightarrow> string" where
  "expand whole behind (c # d # t) =
     (if c \<noteq> CHR ''$'' then c # expand whole behind (d # t)
      else if d = CHR ''$'' then c # expand whole behind t
      else if d = CHR ''&'' then whole @ expand whole behind t
      else if d = CHR 0x60 then expand whole behind t
      else if d = CHR 0x27 then behind @ expand whole behind t
      else c # expand whole behind (d # t))"
| "expand whole behind t = t"

fun renewed :: "string \<Rightarrow> piece \<Rightarrow> string" where
  "renewed version (Pin p v q) = expand (p @ v) q (p @ version) @ q"
| "renewed version (Other c) = [c]"

fun piece_version :: "piece \<Rightarrow> string option" where
  "piece_version (Pin p v q) = Some v"
| "piece_version (Other c) = None"

text \<open>The versions of a file's pins that are not the package's, each once, in the order of their first use.\<close>

definition behindIn :: "string \<Rightarrow> pin_kind \<Rightarrow> string \<Rightarrow> string list" where
  "behindIn version k s =
     rev (remdups (rev (filter (\<lambda>v. v \<noteq> version) (List.map_filter piece_version (pieces k (k = SkillPin) s)))))"

definition rewritten :: "string \<Rightarrow> pin_kind \<Rightarrow> string \<Rightarrow> string" where
  "rewritten version k s = concat (map (renewed version) (pieces k (k = SkillPin) s))"

text \<open>The files of the repository that the script reads, by path.\<close>

definition PACKAGE :: string where
  "PACKAGE = ''packages/cyberlegion''"

definition skillFiles :: "(string \<Rightarrow> string option) \<Rightarrow> (string \<times> bool) list \<Rightarrow> string list" where
  "skillFiles files entries =
     filter (\<lambda>f. files f \<noteq> None)
       (concat (map (\<lambda>(name, _). [path_join PACKAGE [''skills'', name, ''SKILL.md''],
          path_join PACKAGE [''skills'', name, ''scripts'', ''cyberlegion.mjs'']]) (filter snd entries)))"

definition pinsOf :: "bool \<Rightarrow> (string \<Rightarrow> string option) \<Rightarrow> (string \<times> bool) list \<Rightarrow> (string \<times> pin_kind) list" where
  "pinsOf check files entries =
     (if check then [] else [(path_join PACKAGE [''plugin.json''], ManifestVersion)]) @
     (path_join PACKAGE [''.plugin'', ''pins.json''], MapPin) #
     map (\<lambda>f. (f, SkillPin)) (skillFiles files entries)"

text \<open>One file after another; a file that cannot be read ends the script.\<close>

fun syncFiles ::
  "string \<Rightarrow> bool \<Rightarrow> (string \<times> pin_kind) list \<Rightarrow> (string \<times> string list) list \<Rightarrow> (string \<Rightarrow> string option) \<Rightarrow>
    (string \<times> string list) list option \<times> (string \<Rightarrow> string option)" where
  "syncFiles version check [] stale files = (Some stale, files)"
| "syncFiles version check ((f, k) # pins) stale files = (case files f of
       None \<Rightarrow> (None, files)
     | Some before \<Rightarrow>
         let behind = behindIn version k before
         in if behind = [] then syncFiles version check pins stale files
            else if check then syncFiles version check pins (stale @ [(f, behind)]) files
            else syncFiles version check pins stale
              (files(f \<mapsto> rewritten version k before)))"

definition sync_exit :: "string \<Rightarrow> bool \<Rightarrow> (string \<times> bool) list \<Rightarrow> (string \<Rightarrow> string option) \<Rightarrow> nat" where
  "sync_exit version check entries files =
     (if version = [] then 1
      else case fst (syncFiles version check (pinsOf check files entries) [] files) of
          None \<Rightarrow> 1
        | Some stale \<Rightarrow> if stale = [] then 0 else 1)"

text \<open>A version with no dollar sign replaces the one of each pin, and nothing else.\<close>

fun repinned :: "string \<Rightarrow> piece \<Rightarrow> piece" where
  "repinned version (Pin p v q) = Pin p version q"
| "repinned version (Other c) = Other c"

lemma expand_plain: "CHR ''$'' \<notin> set t \<Longrightarrow> expand whole behind t = t"
  by (induction whole behind t rule: expand.induct) auto

lemma pin_prefix: "pin_at k s = Some (p, v, q, r) \<Longrightarrow> CHR ''$'' \<notin> set p"
proof (cases k)
  case SkillPin
  assume "pin_at k s = Some (p, v, q, r)"
  then show ?thesis using SkillPin by (auto simp: Let_def split: if_splits option.splits)
qed (auto simp: quoted_at_def Let_def is_space_def dest!: set_takeWhileD split: if_splits list.splits)

lemma pieces_prefix: "Pin p v q \<in> set (pieces k every s) \<Longrightarrow> CHR ''$'' \<notin> set p"
proof (induction k every s rule: pieces.induct)
  case (2 k every c s)
  show ?case
  proof (cases "pin_at k (c # s)")
    case None
    then show ?thesis using "2.IH"(1) "2.prems" by simp
  next
    case (Some m)
    obtain p' v' q' r where m: "m = (p', v', q', r)" by (cases m)
    then consider "p = p'" | "every" "Pin p v q \<in> set (pieces k every r)"
      using "2.prems" Some by (cases every) auto
    then show ?thesis
    proof cases
      case 1
      then show ?thesis using pin_prefix Some m by blast
    next
      case 2
      show ?thesis by (rule "2.IH"(2) [OF Some m [symmetric] refl refl 2])
    qed
  qed
qed simp

lemma rewritten_pins:
  assumes "CHR ''$'' \<notin> set version"
  shows "rewritten version k s = concat (map piece_text (map (repinned version) (pieces k (k = SkillPin) s)))"
proof -
  have "renewed version x = piece_text (repinned version x)" if "x \<in> set (pieces k (k = SkillPin) s)" for x
  proof (cases x)
    case (Pin p v q)
    then show ?thesis using assms pieces_prefix [of p v q] that by (auto simp: expand_plain)
  qed simp
  then show ?thesis by (simp add: rewritten_def cong: map_cong)
qed

text \<open>
  The check writes nothing, and passes exactly when every file can be read and no pin in it is of another
  version.
\<close>

lemma check_writes_nothing: "snd (syncFiles version True pins stale files) = files"
  by (induction version True pins stale files rule: syncFiles.induct) (auto simp: Let_def split: option.splits)

lemma check_stale:
  "fst (syncFiles version True pins stale files) = Some [] \<longleftrightarrow>
     stale = [] \<and> (\<forall>(f, k)\<in>set pins. \<exists>s. files f = Some s \<and> behindIn version k s = [])"
  by (induction version True pins stale files rule: syncFiles.induct) (auto simp: Let_def split: option.splits)

lemma check_exact:
  "version \<noteq> [] \<Longrightarrow> sync_exit version True entries files = 0 \<longleftrightarrow>
     (\<forall>(f, k)\<in>set (pinsOf True files entries). \<exists>s. files f = Some s \<and>
        (\<forall>p v q. Pin p v q \<in> set (pieces k (k = SkillPin) s) \<longrightarrow> v = version))"
proof -
  have none: "behindIn version k s = [] \<longleftrightarrow> (\<forall>p v q. Pin p v q \<in> set (pieces k (k = SkillPin) s) \<longrightarrow> v = version)" for k s
  proof -
    have "v \<in> set (List.map_filter piece_version ps) \<longleftrightarrow> (\<exists>p q. Pin p v q \<in> set ps)" for v ps
      by (induction ps) (auto simp: map_filter_simps elim: piece_version.elims split: option.splits)
    then show ?thesis unfolding behindIn_def by (simp add: filter_empty_conv) blast
  qed
  assume "version \<noteq> []"
  then have "sync_exit version True entries files = 0 \<longleftrightarrow>
      fst (syncFiles version True (pinsOf True files entries) [] files) = Some []"
    by (simp add: sync_exit_def split: option.split)
  then show ?thesis unfolding check_stale none by simp
qed

text \<open>
  A pin before a full stop reads as behind for good once the package is at a prerelease: the full stop is
  taken for a part of the version that was just written.
\<close>

lemma skill_pin_renewed:
  "rewritten ''2.0.0'' SkillPin ''Run npx -y cyberlegion@1.7.0`.'' = ''Run npx -y cyberlegion@2.0.0`.''"
  by code_simp

lemma full_stop_pin:
  "rewritten ''2.0.0-rc'' SkillPin ''Run npx -y cyberlegion@1.7.0.'' = ''Run npx -y cyberlegion@2.0.0-rc.''"
  "behindIn ''2.0.0-rc'' SkillPin ''Run npx -y cyberlegion@2.0.0-rc.'' = [''2.0.0-rc.'']"
  by code_simp+

end
